theory Spec2Isabelle
  imports Main
begin

section \<open>JavaScript values\<close>

text \<open>
  The extractor works on the output of \<^verbatim>\<open>JSON.parse\<close> through parameters typed
  \<^verbatim>\<open>any\<close>, so the embedding works on JSON values with the dynamic semantics of
  JavaScript: reading a property of \<^verbatim>\<open>undefined\<close> or \<^verbatim>\<open>null\<close> throws a
  \<^verbatim>\<open>TypeError\<close>, calling a method that is not there throws a \<^verbatim>\<open>TypeError\<close>,
  template literals coerce with \<^verbatim>\<open>ToString\<close>, conditions test truthiness.

  Limits of the embedding.
  \<^item> Numbers are the integers (a JSON number with a fraction is not represented).
    \<open>JNum n\<close> stands for the number \<open>n\<close> where a JavaScript number holds \<open>n\<close>
    exactly; it prints as the decimal numeral of \<open>n\<close>, which is what
    \<^verbatim>\<open>Number.prototype.toString\<close> gives for an integer of magnitude below
    \<open>10^21\<close>. Larger numbers are outside the embedding.
  \<^item> A string is a list of 8-bit characters, read as the code units \<^verbatim>\<open>U+0000\<close> to
    \<^verbatim>\<open>U+00FF\<close>; white space, lower-casing and the reading of numerals are those
    of JavaScript on such strings. A string with a code unit above \<^verbatim>\<open>U+00FF\<close> is
    not represented.
  \<^item> An object is the list of its own properties in enumeration order; a lookup takes
    the first entry of a key. No value is callable, as in JSON.
  \<^item> The depth of the call stack is not bounded.
\<close>

datatype jsval =
    JUndefined
  | JNull
  | JBool bool
  | JNum int
  | JStr string
  | JArr "jsval list"
  | JObj "(string \<times> jsval) list"

text \<open>Every exception the modelled code can raise is a \<^verbatim>\<open>TypeError\<close>.\<close>

datatype error = TypeError

fun bindE :: "error + 'a \<Rightarrow> ('a \<Rightarrow> error + 'b) \<Rightarrow> error + 'b" where
  "bindE (Inl e) f = Inl e"
| "bindE (Inr x) f = f x"

text \<open>\<^verbatim>\<open>Array.prototype.map\<close> with a callback that may throw: the first exception
  ends the loop.\<close>

fun mapE :: "('a \<Rightarrow> error + 'b) \<Rightarrow> 'a list \<Rightarrow> error + 'b list" where
  "mapE f [] = Inr []"
| "mapE f (x # xs) = bindE (f x) (\<lambda>y. bindE (mapE f xs) (\<lambda>ys. Inr (y # ys)))"

text \<open>A \<^verbatim>\<open>for ... of\<close> loop that updates a local variable.\<close>

fun foldE :: "('b \<Rightarrow> 'a \<Rightarrow> error + 'b) \<Rightarrow> 'b \<Rightarrow> 'a list \<Rightarrow> error + 'b" where
  "foldE f acc [] = Inr acc"
| "foldE f acc (x # xs) = bindE (f acc x) (\<lambda>acc'. foldE f acc' xs)"

lemma bindE_cong [fundef_cong]:
  "m = m' \<Longrightarrow> (\<And>x. m' = Inr x \<Longrightarrow> f x = g x) \<Longrightarrow> bindE m f = bindE m' g"
  by (cases m') auto

lemma mapE_cong [fundef_cong]:
  "xs = ys \<Longrightarrow> (\<And>x. x \<in> set ys \<Longrightarrow> f x = g x) \<Longrightarrow> mapE f xs = mapE g ys"
  by (induction ys arbitrary: xs) (auto cong: bindE_cong)

lemma foldE_cong [fundef_cong]:
  "xs = ys \<Longrightarrow> a = b \<Longrightarrow> (\<And>acc x. x \<in> set ys \<Longrightarrow> f acc x = g acc x)
     \<Longrightarrow> foldE f a xs = foldE g b ys"
  by (induction ys arbitrary: xs a b) (auto cong: bindE_cong)

fun intercalate :: "string \<Rightarrow> string list \<Rightarrow> string" where
  "intercalate sep [] = []"
| "intercalate sep [s] = s"
| "intercalate sep (s # t # ss) = s @ sep @ intercalate sep (t # ss)"

subsection \<open>Numerals\<close>

definition digitChar :: "nat \<Rightarrow> char" where
  "digitChar d = char_of (48 + d)"

fun showNat :: "nat \<Rightarrow> string" where
  "showNat n = (if n < 10 then [digitChar n] else showNat (n div 10) @ [digitChar (n mod 10)])"

definition showInt :: "int \<Rightarrow> string" where
  "showInt i = (if i < 0 then CHR ''-'' # showNat (nat (- i)) else showNat (nat i))"

subsection \<open>Truthiness, property reads, coercions\<close>

fun truthy :: "jsval \<Rightarrow> bool" where
  "truthy JUndefined = False"
| "truthy JNull = False"
| "truthy (JBool b) = b"
| "truthy (JNum n) = (n \<noteq> 0)"
| "truthy (JStr s) = (s \<noteq> [])"
| "truthy (JArr xs) = True"
| "truthy (JObj kvs) = True"

text \<open>\<^verbatim>\<open>a || b\<close>\<close>

definition orElse :: "jsval \<Rightarrow> jsval \<Rightarrow> jsval" where
  "orElse a b = (if truthy a then a else b)"

definition isString :: "jsval \<Rightarrow> bool" where
  "isString v = (case v of JStr s \<Rightarrow> True | _ \<Rightarrow> False)"

definition nullish :: "jsval \<Rightarrow> bool" where
  "nullish v = (v = JUndefined \<or> v = JNull)"

definition lookup :: "(string \<times> jsval) list \<Rightarrow> string \<Rightarrow> jsval" where
  "lookup kvs k = (case map_of kvs k of None \<Rightarrow> JUndefined | Some v \<Rightarrow> v)"

text \<open>
  \<open>get v k\<close> is the property read \<^verbatim>\<open>v.k\<close> for the property names the code uses:
  names that are neither array indices nor members of a built-in prototype, and
  \<^verbatim>\<open>length\<close>.
\<close>

fun get :: "jsval \<Rightarrow> string \<Rightarrow> error + jsval" where
  "get JUndefined k = Inl TypeError"
| "get JNull k = Inl TypeError"
| "get (JBool b) k = Inr JUndefined"
| "get (JNum n) k = Inr JUndefined"
| "get (JStr s) k = Inr (if k = ''length'' then JNum (int (length s)) else JUndefined)"
| "get (JArr xs) k = Inr (if k = ''length'' then JNum (int (length xs)) else JUndefined)"
| "get (JObj kvs) k = Inr (lookup kvs k)"

text \<open>\<^verbatim>\<open>v?.k\<close>\<close>

definition getOpt :: "jsval \<Rightarrow> string \<Rightarrow> error + jsval" where
  "getOpt v k = (if nullish v then Inr JUndefined else get v k)"

text \<open>\<^verbatim>\<open>v[0]\<close>\<close>

fun getFirst :: "jsval \<Rightarrow> error + jsval" where
  "getFirst JUndefined = Inl TypeError"
| "getFirst JNull = Inl TypeError"
| "getFirst (JBool b) = Inr JUndefined"
| "getFirst (JNum n) = Inr JUndefined"
| "getFirst (JStr s) = Inr (case s of [] \<Rightarrow> JUndefined | c # _ \<Rightarrow> JStr [c])"
| "getFirst (JArr xs) = Inr (case xs of [] \<Rightarrow> JUndefined | x # _ \<Rightarrow> x)"
| "getFirst (JObj kvs) = Inr (lookup kvs ''0'')"

text \<open>
  \<^verbatim>\<open>ToString\<close>, as a template literal and \<^verbatim>\<open>+\<close> with a string apply it. An array
  prints as its elements joined with a comma; an object prints through
  \<^verbatim>\<open>Object.prototype.toString\<close> unless an own property hides that method, and then
  no callable conversion is left and the coercion throws.
\<close>

fun toStr :: "jsval \<Rightarrow> error + string" where
  "toStr JUndefined = Inr ''undefined''"
| "toStr JNull = Inr ''null''"
| "toStr (JBool b) = Inr (if b then ''true'' else ''false'')"
| "toStr (JNum n) = Inr (showInt n)"
| "toStr (JStr s) = Inr s"
| "toStr (JArr xs) =
     bindE (mapE (\<lambda>x. if x = JUndefined \<or> x = JNull then Inr [] else toStr x) xs)
       (\<lambda>ss. Inr (intercalate '','' ss))"
| "toStr (JObj kvs) =
     (if ''toString'' \<in> fst ` set kvs then Inl TypeError else Inr ''[object Object]'')"

text \<open>\<^verbatim>\<open>Array.prototype.join\<close>: \<^verbatim>\<open>undefined\<close> and \<^verbatim>\<open>null\<close> elements print as
  the empty string.\<close>

definition joinE :: "string \<Rightarrow> jsval list \<Rightarrow> error + string" where
  "joinE sep xs =
     bindE (mapE (\<lambda>x. if nullish x then Inr [] else toStr x) xs)
       (\<lambda>ss. Inr (intercalate sep ss))"

text \<open>\<^verbatim>\<open>v.map(f)\<close>: only an array has the method.\<close>

fun arrayMap :: "(jsval \<Rightarrow> error + 'b) \<Rightarrow> jsval \<Rightarrow> error + 'b list" where
  "arrayMap f (JArr xs) = mapE f xs"
| "arrayMap f v = Inl TypeError"

lemma arrayMap_cong [fundef_cong]:
  "v = w \<Longrightarrow> (\<And>xs x. w = JArr xs \<Longrightarrow> x \<in> set xs \<Longrightarrow> f x = g x)
     \<Longrightarrow> arrayMap f v = arrayMap g w"
  by (cases w) (auto cong: mapE_cong)

text \<open>The values a \<^verbatim>\<open>for ... of\<close> loop or an array pattern takes from \<open>v\<close>:
  the elements of an array, the characters of a string; nothing else is iterable.\<close>

fun iter :: "jsval \<Rightarrow> error + jsval list" where
  "iter (JArr xs) = Inr xs"
| "iter (JStr s) = Inr (map (\<lambda>c. JStr [c]) s)"
| "iter v = Inl TypeError"

definition nthOr :: "jsval list \<Rightarrow> nat \<Rightarrow> jsval" where
  "nthOr xs i = (if i < length xs then xs ! i else JUndefined)"

text \<open>
  White space as \<^verbatim>\<open>\s\<close>, \<^verbatim>\<open>trim\<close> and \<^verbatim>\<open>ToNumber\<close> see it: tab, line feed,
  vertical tab, form feed, carriage return, space and no-break space are the
  white-space and line-terminator code units up to \<^verbatim>\<open>U+00FF\<close>.
\<close>

definition isSpace :: "char \<Rightarrow> bool" where
  "isSpace c =
     (c \<in> set [CHR '' '', CHR 0x09, CHR 0x0A, CHR 0x0B, CHR 0x0C, CHR 0x0D, CHR 0xA0])"

definition isDigit :: "char \<Rightarrow> bool" where
  "isDigit c = ((48::nat) \<le> of_char c \<and> of_char c \<le> (57::nat))"

definition trim :: "string \<Rightarrow> string" where
  "trim s = rev (dropWhile isSpace (rev (dropWhile isSpace s)))"

definition readDecimal :: "string \<Rightarrow> int" where
  "readDecimal s = foldl (\<lambda>n c. 10 * n + (of_char c - 48)) (0::int) s"

text \<open>
  \<^verbatim>\<open>v > 0\<close> applies \<^verbatim>\<open>ToNumber\<close> to \<open>v\<close>. For a string that is the grammar of
  \<^verbatim>\<open>StringNumericLiteral\<close>: between white space, either nothing (the number 0),
  or a binary, octal or hexadecimal integer without sign, or an optionally signed
  \<^verbatim>\<open>Infinity\<close> or decimal numeral with an optional fraction and exponent;
  everything else is \<^verbatim>\<open>NaN\<close>. The functions below answer whether the number
  read is greater than 0; \<open>None\<close> says that the text is not of the form.
\<close>

definition isHexDigit :: "char \<Rightarrow> bool" where
  "isHexDigit c =
     (isDigit c \<or> ((97::nat) \<le> of_char c \<and> of_char c \<le> (102::nat))
      \<or> ((65::nat) \<le> of_char c \<and> of_char c \<le> (70::nat)))"

definition isOctalDigit :: "char \<Rightarrow> bool" where
  "isOctalDigit c = ((48::nat) \<le> of_char c \<and> of_char c \<le> (55::nat))"

definition isBinaryDigit :: "char \<Rightarrow> bool" where
  "isBinaryDigit c = (c = CHR ''0'' \<or> c = CHR ''1'')"

definition nonDecimalPositive :: "string \<Rightarrow> bool option" where
  "nonDecimalPositive t =
     (case t of
        z # x # ds \<Rightarrow>
          if z = CHR ''0'' \<and> ds \<noteq> [] \<and>
             ((x \<in> set ''xX'' \<and> list_all isHexDigit ds) \<or>
              (x \<in> set ''oO'' \<and> list_all isOctalDigit ds) \<or>
              (x \<in> set ''bB'' \<and> list_all isBinaryDigit ds))
          then Some (list_ex (\<lambda>d. d \<noteq> CHR ''0'') ds)
          else None
      | _ \<Rightarrow> None)"

text \<open>The exponent after the letter \<^verbatim>\<open>e\<close>: an optional sign and digits.\<close>

definition exponentOf :: "string \<Rightarrow> int option" where
  "exponentOf e =
     (let (neg, ds) =
        (case e of
           [] \<Rightarrow> (False, [])
         | c # r \<Rightarrow> if c = CHR ''-'' then (True, r)
                    else if c = CHR ''+'' then (False, r) else (False, e))
      in if ds \<noteq> [] \<and> list_all isDigit ds
         then Some (if neg then - readDecimal ds else readDecimal ds)
         else None)"

text \<open>
  The double nearest to \<open>m * 10^e\<close> is greater than 0: the number exceeds
  \<open>2^-1075\<close>, half the least positive double (the tie rounds to 0).
\<close>

definition roundsPositive :: "int \<Rightarrow> int \<Rightarrow> bool" where
  "roundsPositive m e = (if 0 \<le> e then 0 < m else 10 ^ nat (- e) < m * 2 ^ 1075)"

definition unsignedDecimalPositive :: "string \<Rightarrow> bool option" where
  "unsignedDecimalPositive u =
     (if u = ''Infinity'' then Some True
      else
        let mantissa = takeWhile (\<lambda>c. c \<noteq> CHR ''e'' \<and> c \<noteq> CHR ''E'') u;
            rest = dropWhile (\<lambda>c. c \<noteq> CHR ''e'' \<and> c \<noteq> CHR ''E'') u;
            whole = takeWhile (\<lambda>c. c \<noteq> CHR ''.'') mantissa;
            fraction = drop 1 (dropWhile (\<lambda>c. c \<noteq> CHR ''.'') mantissa);
            exponent = (if rest = [] then Some 0 else exponentOf (drop 1 rest))
        in if list_all isDigit whole \<and> list_all isDigit fraction \<and>
              (whole \<noteq> [] \<or> fraction \<noteq> [])
           then map_option
                  (\<lambda>e. roundsPositive (readDecimal (whole @ fraction)) (e - int (length fraction)))
                  exponent
           else None)"

definition positiveNumeral :: "string \<Rightarrow> bool" where
  "positiveNumeral s =
     (let t = trim s in
      case nonDecimalPositive t of
        Some b \<Rightarrow> b
      | None \<Rightarrow>
          (case t of
             [] \<Rightarrow> False
           | c # r \<Rightarrow>
               if c = CHR ''-'' then False
               else unsignedDecimalPositive (if c = CHR ''+'' then r else t) = Some True))"

text \<open>\<^verbatim>\<open>v > 0\<close>. An array or object is first converted to a string.\<close>

fun gt0 :: "jsval \<Rightarrow> error + bool" where
  "gt0 JUndefined = Inr False"
| "gt0 JNull = Inr False"
| "gt0 (JBool b) = Inr b"
| "gt0 (JNum n) = Inr (0 < n)"
| "gt0 (JStr s) = Inr (positiveNumeral s)"
| "gt0 v = bindE (toStr v) (\<lambda>s. Inr (positiveNumeral s))"

text \<open>\<^verbatim>\<open>v && v.length > 0\<close>\<close>

definition hasLength :: "jsval \<Rightarrow> error + bool" where
  "hasLength v = (if truthy v then bindE (get v ''length'') gt0 else Inr False)"

subsection \<open>\<^verbatim>\<open>JSON.stringify\<close>\<close>

definition hexDigit :: "nat \<Rightarrow> char" where
  "hexDigit d = (if d < 10 then char_of (48 + d) else char_of (87 + d))"

definition jsonEscape :: "char \<Rightarrow> string" where
  "jsonEscape c =
     (if c = CHR 0x22 then [CHR 0x5C, CHR 0x22]
      else if c = CHR 0x5C then [CHR 0x5C, CHR 0x5C]
      else if c = CHR 0x08 then [CHR 0x5C, CHR ''b'']
      else if c = CHR 0x0C then [CHR 0x5C, CHR ''f'']
      else if c = CHR 0x0A then [CHR 0x5C, CHR ''n'']
      else if c = CHR 0x0D then [CHR 0x5C, CHR ''r'']
      else if c = CHR 0x09 then [CHR 0x5C, CHR ''t'']
      else if of_char c < (32::nat)
        then [CHR 0x5C, CHR ''u'', CHR ''0'', CHR ''0'',
              hexDigit (of_char c div 16), hexDigit (of_char c mod 16)]
      else [c])"

definition jsonQuote :: "string \<Rightarrow> string" where
  "jsonQuote s = CHR 0x22 # concat (map jsonEscape s) @ [CHR 0x22]"

text \<open>\<open>None\<close> is the result \<^verbatim>\<open>undefined\<close>: an array prints such an element as
  \<^verbatim>\<open>null\<close>, an object leaves the property out.\<close>

primrec jsonStringify :: "jsval \<Rightarrow> string option" where
  "jsonStringify JUndefined = None"
| "jsonStringify JNull = Some ''null''"
| "jsonStringify (JBool b) = Some (if b then ''true'' else ''false'')"
| "jsonStringify (JNum n) = Some (showInt n)"
| "jsonStringify (JStr s) = Some (jsonQuote s)"
| "jsonStringify (JArr xs) =
     Some (''['' @ intercalate '',''
        (map (\<lambda>r. case r of None \<Rightarrow> ''null'' | Some s \<Rightarrow> s) (map jsonStringify xs)) @ '']'')"
| "jsonStringify (JObj kvs) =
     Some (''{'' @ intercalate '',''
        (concat (map (\<lambda>(k, r). case r of None \<Rightarrow> [] | Some s \<Rightarrow> [jsonQuote k @ '':'' @ s])
           (map (map_prod id jsonStringify) kvs))) @ ''}'')"

subsection \<open>Reading a value never yields a larger value\<close>

text \<open>\<open>reaches v y\<close>: the code arrives at \<open>y\<close> from a property of \<open>v\<close> by further
  property reads, indexing and iteration. Used for the termination of the
  recursive renderer.\<close>

inductive reaches :: "jsval \<Rightarrow> jsval \<Rightarrow> bool" where
  reaches_field: "get v k = Inr y \<Longrightarrow> reaches v y"
| reaches_get: "get x k = Inr y \<Longrightarrow> reaches v x \<Longrightarrow> reaches v y"
| reaches_first: "getFirst x = Inr y \<Longrightarrow> reaches v x \<Longrightarrow> reaches v y"
| reaches_elem: "y \<in> set xs \<Longrightarrow> reaches v (JArr xs) \<Longrightarrow> reaches v y"
| reaches_iter: "y \<in> set xs \<Longrightarrow> iter x = Inr xs \<Longrightarrow> reaches v x \<Longrightarrow> reaches v y"
| reaches_nth: "iter x = Inr xs \<Longrightarrow> reaches v x \<Longrightarrow> reaches v (nthOr xs i)"

lemma size_elem: "x \<in> set xs \<Longrightarrow> size x < size (JArr xs)"
  by (induction xs) auto

lemma size_lookup: "size (lookup kvs k) < size (JObj kvs)"
proof (cases "map_of kvs k")
  case None
  then show ?thesis by (simp add: lookup_def)
next
  case (Some v)
  then have "(k, v) \<in> set kvs" by (rule map_of_SomeD)
  then have "size v \<le> size_list (size_prod (\<lambda>x. 0) size) kvs"
    by (induction kvs) auto
  with Some show ?thesis by (simp add: lookup_def)
qed

lemma size_get: "get v k = Inr x \<Longrightarrow> size x \<le> size v"
  using size_lookup [of _ k] by (cases v) (auto simp: less_imp_le)

lemma size_getFirst: "getFirst v = Inr x \<Longrightarrow> size x \<le> size v"
  using size_lookup [of _ "''0''"] size_elem
  by (cases v) (auto simp: less_imp_le split: list.splits)

lemma size_iter: "iter v = Inr xs \<Longrightarrow> x \<in> set xs \<Longrightarrow> size x \<le> size v"
  using size_elem by (cases v) (auto simp: less_imp_le)

lemma size_nthOr: "iter v = Inr xs \<Longrightarrow> size (nthOr xs i) \<le> size v"
  using size_iter [of v xs "xs ! i"] by (auto simp: nthOr_def)

lemma tagged_object: "get v k = Inr (JStr t) \<Longrightarrow> \<exists>kvs. v = JObj kvs"
  by (cases v) (auto split: if_splits)

lemma size_field:
  assumes "get v ''type'' = Inr (JStr t)" and "reaches v y"
  shows "size y < size v"
  using assms(2) assms(1)
proof (induction rule: reaches.induct)
  case (reaches_field v k y)
  then obtain kvs where "v = JObj kvs" by (auto dest: tagged_object)
  with reaches_field show ?case using size_lookup [of kvs k] by auto
next
  case (reaches_get x k y v)
  then show ?case using size_get [of x k y] by simp
next
  case (reaches_first x y v)
  then show ?case using size_getFirst [of x y] by simp
next
  case (reaches_elem y xs v)
  then show ?case using size_elem [of y xs] by simp
next
  case (reaches_iter y xs x v)
  then show ?case using size_iter [of x xs y] by simp
next
  case (reaches_nth x xs v i)
  then show ?case using size_nthOr [of x xs i] by simp
qed

section \<open>Type converter\<close>

definition stringifyLiteral :: "jsval \<Rightarrow> error + jsval" where
  "stringifyLiteral v =
     (case v of
        JNull \<Rightarrow> Inr (JStr ''null'')
      | JUndefined \<Rightarrow> Inr (JStr ''undefined'')
      | JStr s \<Rightarrow> Inr (JStr ([CHR 0x22] @ s @ [CHR 0x22]))
      | JNum n \<Rightarrow> Inr (JStr (showInt n))
      | JBool b \<Rightarrow> Inr (JStr (if b then ''true'' else ''false''))
      | _ \<Rightarrow>
          bindE (get v ''negative'') (\<lambda>neg.
          bindE (get v ''value'') (\<lambda>digits.
            if neg \<noteq> JUndefined \<and> digits \<noteq> JUndefined
            then bindE (toStr digits) (\<lambda>d.
                   Inr (JStr ((if truthy neg then ''-'' else []) @ d @ ''n'')))
            else Inr (case jsonStringify v of None \<Rightarrow> JUndefined | Some s \<Rightarrow> JStr s))))"

text \<open>
  \<^verbatim>\<open>typeToString\<close> with the helpers it calls and that call it back
  (\<^verbatim>\<open>handleReferenceType\<close>, \<^verbatim>\<open>handleReflectionType\<close>, \<^verbatim>\<open>handleConditionalType\<close>,
  \<^verbatim>\<open>handleInferredType\<close>, \<^verbatim>\<open>handleMappedType\<close>, \<^verbatim>\<open>handleTemplateLiteral\<close>,
  \<^verbatim>\<open>handlePredicate\<close>) written in place, in the order of the \<^verbatim>\<open>switch\<close>. The
  \<^verbatim>\<open>context\<close> argument is only passed on and is left out. The result is a
  \<open>jsval\<close>: several branches return a field of the node as it is.
\<close>

function typeToString :: "jsval \<Rightarrow> error + jsval" where
  "typeToString type =
    (if \<not> truthy type then Inr (JStr ''any'')
     else if isString type then Inr type
     else bindE (get type ''type'') (\<lambda>tag.
      if tag = JStr ''intrinsic'' then
        bindE (get type ''name'') (\<lambda>name. Inr (orElse name (JStr ''any'')))
      else if tag = JStr ''reference'' then
        bindE (get type ''name'') (\<lambda>name.
        bindE (get type ''typeArguments'') (\<lambda>targs.
        bindE (hasLength targs) (\<lambda>some.
          if some then
            bindE (arrayMap typeToString targs) (\<lambda>rs.
            bindE (joinE '', '' rs) (\<lambda>args.
            bindE (toStr (orElse name (JStr ''unknown''))) (\<lambda>result.
              Inr (JStr (result @ ''<'' @ args @ ''>'')))))
          else Inr (orElse name (JStr ''unknown'')))))
      else if tag = JStr ''array'' then
        bindE (get type ''elementType'') (\<lambda>el.
        bindE (typeToString el) (\<lambda>r.
        bindE (toStr r) (\<lambda>s. Inr (JStr (s @ ''[]'')))))
      else if tag = JStr ''union'' then
        bindE (get type ''types'') (\<lambda>ts.
        bindE (arrayMap typeToString ts) (\<lambda>rs.
        bindE (joinE '' | '' rs) (\<lambda>s. Inr (JStr s))))
      else if tag = JStr ''intersection'' then
        bindE (get type ''types'') (\<lambda>ts.
        bindE (arrayMap typeToString ts) (\<lambda>rs.
        bindE (joinE '' & '' rs) (\<lambda>s. Inr (JStr s))))
      else if tag = JStr ''literal'' then
        bindE (get type ''value'') stringifyLiteral
      else if tag = JStr ''tuple'' then
        bindE (get type ''elements'') (\<lambda>es.
        bindE (arrayMap typeToString es) (\<lambda>rs.
        bindE (joinE '', '' rs) (\<lambda>s. Inr (JStr (''['' @ s @ '']'')))))
      else if tag = JStr ''namedTupleMember'' then
        bindE (get type ''name'') (\<lambda>n.
        bindE (get type ''element'') (\<lambda>el.
        bindE (typeToString el) (\<lambda>element.
        bindE (toStr (orElse n (JStr ''unknown''))) (\<lambda>name.
        bindE (toStr element) (\<lambda>e. Inr (JStr (name @ '': '' @ e)))))))
      else if tag = JStr ''reflection'' then
        bindE (get type ''declaration'') (\<lambda>declaration.
          if \<not> truthy declaration then Inr (JStr ''{...}'')
          else
            bindE (get declaration ''children'') (\<lambda>children.
            if truthy children then
              bindE (arrayMap (\<lambda>child.
                  bindE (get child ''type'') (\<lambda>ct.
                  bindE (if truthy ct then typeToString ct else Inr (JStr ''any'')) (\<lambda>propType.
                  bindE (get child ''name'') (\<lambda>cn.
                  bindE (toStr cn) (\<lambda>n.
                  bindE (toStr propType) (\<lambda>p. Inr (JStr (n @ '': '' @ p)))))))) children) (\<lambda>rs.
              bindE (joinE ''; '' rs) (\<lambda>props. Inr (JStr (''{ '' @ props @ '' }''))))
            else
              bindE (get declaration ''signatures'') (\<lambda>signatures.
              if truthy signatures then
                bindE (getFirst signatures) (\<lambda>sig.
                bindE (get sig ''parameters'') (\<lambda>ps.
                bindE (if nullish ps then Inr []
                       else bindE (arrayMap (\<lambda>p.
                              bindE (get p ''name'') (\<lambda>pn.
                              bindE (toStr pn) (\<lambda>n.
                              bindE (get p ''type'') (\<lambda>pt.
                              bindE (typeToString pt) (\<lambda>r.
                              bindE (toStr r) (\<lambda>t. Inr (JStr (n @ '': '' @ t)))))))) ps)
                            (joinE '', '')) (\<lambda>params.
                bindE (get sig ''type'') (\<lambda>st.
                bindE (typeToString st) (\<lambda>rt.
                bindE (toStr rt) (\<lambda>returnType.
                  Inr (JStr (''('' @ params @ '') => '' @ returnType))))))))
              else Inr (JStr ''{...}''))))
      else if tag = JStr ''optional'' then
        bindE (get type ''elementType'') (\<lambda>el.
        bindE (typeToString el) (\<lambda>r.
        bindE (toStr r) (\<lambda>s. Inr (JStr (s @ '' | undefined'')))))
      else if tag = JStr ''rest'' then
        bindE (get type ''elementType'') (\<lambda>el.
        bindE (typeToString el) (\<lambda>r.
        bindE (toStr r) (\<lambda>s. Inr (JStr (''...'' @ s)))))
      else if tag = JStr ''conditional'' then
        bindE (get type ''checkType'') (\<lambda>ct.
        bindE (typeToString ct) (\<lambda>checkR.
        bindE (get type ''extendsType'') (\<lambda>et.
        bindE (typeToString et) (\<lambda>extendsR.
        bindE (get type ''trueType'') (\<lambda>tt.
        bindE (typeToString tt) (\<lambda>trueR.
        bindE (get type ''falseType'') (\<lambda>ft.
        bindE (typeToString ft) (\<lambda>falseR.
        bindE (toStr checkR) (\<lambda>check.
        bindE (toStr extendsR) (\<lambda>extendsType.
        bindE (toStr trueR) (\<lambda>trueType.
        bindE (toStr falseR) (\<lambda>falseType.
          Inr (JStr (check @ '' extends '' @ extendsType @ '' ? '' @ trueType
                       @ '' : '' @ falseType))))))))))))))
      else if tag = JStr ''inferred'' then
        bindE (get type ''name'') (\<lambda>n.
        bindE (toStr n) (\<lambda>name.
        bindE (get type ''constraint'') (\<lambda>c.
          if truthy c then
            bindE (typeToString c) (\<lambda>r.
            bindE (toStr r) (\<lambda>s. Inr (JStr (''infer '' @ name @ '' extends '' @ s))))
          else Inr (JStr (''infer '' @ name)))))
      else if tag = JStr ''indexedAccess'' then
        bindE (get type ''objectType'') (\<lambda>ot.
        bindE (typeToString ot) (\<lambda>r1.
        bindE (toStr r1) (\<lambda>obj.
        bindE (get type ''indexType'') (\<lambda>it.
        bindE (typeToString it) (\<lambda>r2.
        bindE (toStr r2) (\<lambda>idx. Inr (JStr (obj @ ''['' @ idx @ '']''))))))))
      else if tag = JStr ''mapped'' then
        bindE (get type ''readonlyModifier'') (\<lambda>rm.
        bindE (if truthy rm then bindE (toStr rm) (\<lambda>s. Inr (''{ '' @ s @ '' '')) else Inr ''{ '')
          (\<lambda>result1.
        bindE (get type ''parameter'') (\<lambda>param.
        bindE (toStr param) (\<lambda>p.
        bindE (get type ''parameterType'') (\<lambda>pt.
        bindE (typeToString pt) (\<lambda>r1.
        bindE (toStr r1) (\<lambda>ptS.
        bindE (get type ''optionalModifier'') (\<lambda>om.
        bindE (if truthy om then toStr om else Inr []) (\<lambda>omS.
        bindE (get type ''templateType'') (\<lambda>tt.
        bindE (typeToString tt) (\<lambda>r2.
        bindE (toStr r2) (\<lambda>ttS.
        bindE (get type ''nameType'') (\<lambda>nt.
        bindE (if truthy nt
               then bindE (typeToString nt) (\<lambda>r3. bindE (toStr r3) (\<lambda>s. Inr ('' as '' @ s)))
               else Inr []) (\<lambda>ntS.
          Inr (JStr (result1 @ ''['' @ p @ '' in '' @ ptS @ '']'' @ omS @ '': '' @ ttS
                       @ ntS @ '' }''))))))))))))))))
      else if tag = JStr ''typeOperator'' then
        bindE (get type ''operator'') (\<lambda>op.
        bindE (toStr op) (\<lambda>opS.
        bindE (get type ''target'') (\<lambda>t.
        bindE (typeToString t) (\<lambda>r.
        bindE (toStr r) (\<lambda>s. Inr (JStr (opS @ '' '' @ s)))))))
      else if tag = JStr ''query'' then
        bindE (get type ''queryType'') (\<lambda>qt.
        bindE (typeToString qt) (\<lambda>r.
        bindE (toStr r) (\<lambda>s. Inr (JStr (''typeof '' @ s)))))
      else if tag = JStr ''templateLiteral'' then
        bindE (get type ''head'') (\<lambda>h.
        bindE (toStr h) (\<lambda>head.
        bindE (get type ''tail'') (\<lambda>tail.
        bindE (iter tail) (\<lambda>pairs.
        bindE (foldE (\<lambda>result pair.
                 bindE (iter pair) (\<lambda>parts.
                 bindE (typeToString (nthOr parts 0)) (\<lambda>r.
                 bindE (toStr r) (\<lambda>s.
                 bindE (toStr (nthOr parts 1)) (\<lambda>tailStr.
                   Inr (result @ ''${'' @ s @ ''}'' @ tailStr))))))
               (''`'' @ head) pairs) (\<lambda>result.
          Inr (JStr (result @ ''`'')))))))
      else if tag = JStr ''predicate'' then
        bindE (get type ''name'') (\<lambda>name.
        bindE (get type ''asserts'') (\<lambda>asserts.
        bindE (if truthy asserts
               then bindE (toStr name) (\<lambda>s. Inr (JStr (''asserts '' @ s)))
               else Inr name) (\<lambda>result.
        bindE (get type ''targetType'') (\<lambda>tt.
          if truthy tt then
            bindE (typeToString tt) (\<lambda>r.
            bindE (toStr r) (\<lambda>s.
            bindE (toStr result) (\<lambda>res. Inr (JStr (res @ '' is '' @ s)))))
          else Inr result))))
      else
        bindE (get type ''name'') (\<lambda>name. Inr (orElse name (JStr ''unknown'')))))"
  by pat_completeness auto

termination
  apply (relation "measure size")
   apply simp_all
  apply (erule size_field
         | (rule reaches_field, assumption)
         | (rule reaches_get, assumption)
         | (rule reaches_first, assumption)
         | (rule reaches_iter, assumption, assumption)
         | (rule reaches_elem, assumption)
         | (rule reaches_nth, assumption))+
  done

declare typeToString.simps [simp del]

text \<open>The tags that have a \<^verbatim>\<open>case\<close> in the \<^verbatim>\<open>switch\<close> of \<^verbatim>\<open>typeToString\<close>.\<close>

definition recognizedTags :: "string list" where
  "recognizedTags =
     [''intrinsic'', ''reference'', ''array'', ''union'', ''intersection'', ''literal'',
      ''tuple'', ''namedTupleMember'', ''reflection'', ''optional'', ''rest'', ''conditional'',
      ''inferred'', ''indexedAccess'', ''mapped'', ''typeOperator'', ''query'',
      ''templateLiteral'', ''predicate'']"

section \<open>Signature builder\<close>

text \<open>The callback of \<^verbatim>\<open>typeParams.map\<close> in \<^verbatim>\<open>buildTypeParameterString\<close>.\<close>

definition typeParameterString :: "jsval \<Rightarrow> error + jsval" where
  "typeParameterString tp =
     bindE (get tp ''name'') (\<lambda>param0.
     bindE (get tp ''type'') (\<lambda>c.
     bindE (if truthy c
            then bindE (typeToString c) (\<lambda>r.
                 bindE (toStr param0) (\<lambda>p.
                 bindE (toStr r) (\<lambda>s. Inr (JStr (p @ '' extends '' @ s)))))
            else Inr param0) (\<lambda>param1.
     bindE (get tp ''default'') (\<lambda>d.
       if truthy d
       then bindE (typeToString d) (\<lambda>r.
            bindE (toStr param1) (\<lambda>p.
            bindE (toStr r) (\<lambda>s. Inr (JStr (p @ '' = '' @ s)))))
       else Inr param1))))"

definition buildTypeParameterString :: "jsval \<Rightarrow> error + string" where
  "buildTypeParameterString typeParams =
     (if \<not> truthy typeParams then Inr []
      else bindE (get typeParams ''length'') (\<lambda>len.
        if len = JNum 0 then Inr []
        else
          bindE (arrayMap typeParameterString typeParams) (\<lambda>rs.
          bindE (joinE '', '' rs) (\<lambda>params. Inr (''<'' @ params @ ''>'')))))"

text \<open>The callback of \<^verbatim>\<open>parameters.map\<close> in \<^verbatim>\<open>buildParameterString\<close>.\<close>

definition parameterString :: "jsval \<Rightarrow> error + jsval" where
  "parameterString param =
     bindE (get param ''flags'') (\<lambda>flags.
     bindE (getOpt flags ''isRest'') (\<lambda>isRest.
     bindE (get param ''name'') (\<lambda>n.
     bindE (toStr n) (\<lambda>name.
     bindE (getOpt flags ''isOptional'') (\<lambda>isOptional.
     bindE (get param ''type'') (\<lambda>t.
     bindE (typeToString t) (\<lambda>r.
     bindE (toStr r) (\<lambda>ty.
     bindE (get param ''defaultValue'') (\<lambda>dv.
     bindE (if truthy dv then bindE (toStr dv) (\<lambda>d. Inr ('' = '' @ d)) else Inr [])
       (\<lambda>defaultClause.
       Inr (JStr ((if truthy isRest then ''...'' else []) @ name
              @ (if truthy isOptional then ''?'' else [])
              @ '': '' @ ty @ defaultClause))))))))))))"

definition buildParameterString :: "jsval \<Rightarrow> error + string" where
  "buildParameterString parameters =
     (if \<not> truthy parameters then Inr []
      else bindE (get parameters ''length'') (\<lambda>len.
        if len = JNum 0 then Inr []
        else bindE (arrayMap parameterString parameters) (joinE '', '')))"

definition buildSignatureString :: "jsval \<Rightarrow> jsval \<Rightarrow> error + string" where
  "buildSignatureString declaration signature =
     bindE (get signature ''typeParameters'') (\<lambda>tps.
     bindE (buildTypeParameterString tps) (\<lambda>typeParamStr.
     bindE (get signature ''parameters'') (\<lambda>ps.
     bindE (buildParameterString ps) (\<lambda>paramStr.
     bindE (get signature ''type'') (\<lambda>t.
     bindE (typeToString t) (\<lambda>r.
     bindE (get declaration ''name'') (\<lambda>n.
     bindE (toStr n) (\<lambda>name.
     bindE (toStr r) (\<lambda>returnType.
       Inr (name @ typeParamStr @ ''('' @ paramStr @ ''): '' @ returnType))))))))))"

text \<open>The comment renderer local to the signature builder: text and code parts only.\<close>

definition extractCommentPartsLocal :: "jsval \<Rightarrow> error + string" where
  "extractCommentPartsLocal parts =
     (if \<not> truthy parts then Inr []
      else bindE (arrayMap (\<lambda>part.
             bindE (get part ''kind'') (\<lambda>kind.
               if kind = JStr ''text'' then get part ''text''
               else if kind = JStr ''code''
                 then bindE (get part ''text'') (\<lambda>t.
                      bindE (toStr t) (\<lambda>s. Inr (JStr (''`'' @ s @ ''`''))))
               else Inr (JStr []))) parts)
           (joinE []))"

text \<open>\<^verbatim>\<open>x.comment?.k ? render(x.comment.k) : undefined\<close>\<close>

definition commentFieldOf :: "(jsval \<Rightarrow> error + string) \<Rightarrow> jsval \<Rightarrow> string \<Rightarrow> error + jsval" where
  "commentFieldOf render x k =
     bindE (get x ''comment'') (\<lambda>comment.
     bindE (getOpt comment k) (\<lambda>part.
       if truthy part then bindE (render part) (\<lambda>s. Inr (JStr s))
       else Inr JUndefined))"

definition summaryOf :: "(jsval \<Rightarrow> error + string) \<Rightarrow> jsval \<Rightarrow> error + jsval" where
  "summaryOf render x = commentFieldOf render x ''summary''"

text \<open>\<^verbatim>\<open>buildParameters\<close> of the signature builder and \<^verbatim>\<open>extractParameters\<close> of the
  extractor are the same function up to the comment renderer they call.\<close>

definition parametersWith :: "(jsval \<Rightarrow> error + string) \<Rightarrow> jsval \<Rightarrow> error + jsval list" where
  "parametersWith render reflection =
     bindE (get reflection ''parameters'') (\<lambda>ps.
       if \<not> truthy ps then Inr []
       else arrayMap (\<lambda>param.
         bindE (get param ''name'') (\<lambda>name.
         bindE (get param ''kind'') (\<lambda>kind.
         bindE (get param ''type'') (\<lambda>t.
         bindE (if truthy t then typeToString t else Inr (JStr ''any'')) (\<lambda>ty.
         bindE (summaryOf render param) (\<lambda>description.
         bindE (get param ''flags'') (\<lambda>flags.
         bindE (getOpt flags ''isOptional'') (\<lambda>isOptional.
         bindE (getOpt flags ''isRest'') (\<lambda>isRest.
         bindE (get param ''defaultValue'') (\<lambda>defaultValue.
           Inr (JObj [(''name'', name), (''kind'', kind),
                      (''type'', JObj [(''type'', ty), (''typeRaw'', t)]),
                      (''description'', description),
                      (''isOptional'', orElse isOptional (JBool False)),
                      (''isRest'', orElse isRest (JBool False)),
                      (''defaultValue'', defaultValue)]))))))))))) ps)"

definition buildParameters :: "jsval \<Rightarrow> error + jsval list" where
  "buildParameters reflection = parametersWith extractCommentPartsLocal reflection"

text \<open>The second argument is \<open>True\<close> for \<^verbatim>\<open>"getter"\<close>, \<open>False\<close> for \<^verbatim>\<open>"setter"\<close>.\<close>

definition buildGetSetSignature :: "jsval \<Rightarrow> bool \<Rightarrow> error + jsval" where
  "buildGetSetSignature sig getter =
     bindE (get sig ''type'') (\<lambda>t.
     bindE (typeToString t) (\<lambda>r.
     bindE (toStr r) (\<lambda>returnType.
     bindE (if getter then Inr [] else buildParameters sig) (\<lambda>parameters.
     bindE (summaryOf extractCommentPartsLocal sig) (\<lambda>summary.
       Inr (JObj [(''name'', JStr (if getter then ''getter'' else ''setter'')),
                  (''kind'', JStr (if getter then ''GetSignature'' else ''SetSignature'')),
                  (''signature'', JStr (if getter then ''get property(): '' @ returnType
                                        else ''set property(value: '' @ returnType @ ''): void'')),
                  (''parameters'', JArr parameters),
                  (''returnType'',
                     JObj [(''type'', if getter then r else JStr ''void''), (''typeRaw'', t)]),
                  (''documentation'', JObj [(''summary'', summary)])]))))))"

definition buildIndexSignatureString :: "jsval \<Rightarrow> error + string" where
  "buildIndexSignatureString indexSig =
     bindE (get indexSig ''parameters'') (\<lambda>ps.
     bindE (arrayMap (\<lambda>p.
         bindE (get p ''name'') (\<lambda>pn.
         bindE (toStr pn) (\<lambda>n.
         bindE (get p ''type'') (\<lambda>pt.
         bindE (typeToString pt) (\<lambda>r.
         bindE (toStr r) (\<lambda>t. Inr (JStr (n @ '': '' @ t)))))))) ps) (\<lambda>rs.
     bindE (joinE '', '' rs) (\<lambda>params.
     bindE (get indexSig ''type'') (\<lambda>t.
     bindE (typeToString t) (\<lambda>r.
     bindE (toStr r) (\<lambda>returnType.
       Inr (''['' @ params @ '']: '' @ returnType)))))))"

section \<open>Comment parser\<close>

definition parseInlineTag :: "jsval \<Rightarrow> error + jsval" where
  "parseInlineTag tag =
     bindE (get tag ''tag'') (\<lambda>t.
     bindE (get tag ''text'') (\<lambda>text.
     bindE (get tag ''name'') (\<lambda>name.
     bindE (get tag ''target'') (\<lambda>target.
       if t = JStr ''@link'' \<or> t = JStr ''@linkcode'' then
         bindE (toStr (orElse text name)) (\<lambda>a.
         bindE (toStr (orElse target name)) (\<lambda>b.
           Inr (JStr (''['' @ a @ '']('' @ b @ '')''))))
       else if t = JStr ''@linkplain'' then Inr (orElse text name)
       else if t = JStr ''@tutorial'' then
         bindE (toStr name) (\<lambda>n. Inr (JStr (''[Tutorial: '' @ n @ '']'')))
       else Inr (orElse (orElse text name) (JStr []))))))"

definition extractCommentParts :: "jsval \<Rightarrow> error + string" where
  "extractCommentParts parts =
     (if \<not> truthy parts then Inr []
      else bindE (arrayMap (\<lambda>part.
             bindE (get part ''kind'') (\<lambda>kind.
               if kind = JStr ''text'' then get part ''text''
               else if kind = JStr ''code''
                 then bindE (get part ''text'') (\<lambda>t.
                      bindE (toStr t) (\<lambda>s. Inr (JStr (''`'' @ s @ ''`''))))
               else if kind = JStr ''inline-tag'' then parseInlineTag part
               else if kind = JStr ''code-span''
                 then bindE (get part ''text'') (\<lambda>t.
                      bindE (toStr t) (\<lambda>s. Inr (JStr (''`'' @ s @ ''`''))))
               else Inr (JStr []))) parts)
           (joinE []))"

text \<open>\<^verbatim>\<open>v.filter(p)\<close>: only an array has the method.\<close>

fun filterE :: "('a \<Rightarrow> error + bool) \<Rightarrow> 'a list \<Rightarrow> error + 'a list" where
  "filterE p [] = Inr []"
| "filterE p (x # xs) =
     bindE (p x) (\<lambda>b. bindE (filterE p xs) (\<lambda>ys. Inr (if b then x # ys else ys)))"

fun arrayFilter :: "(jsval \<Rightarrow> error + bool) \<Rightarrow> jsval \<Rightarrow> error + jsval list" where
  "arrayFilter p (JArr xs) = filterE p xs"
| "arrayFilter p v = Inl TypeError"

definition extractAuthorTags :: "jsval \<Rightarrow> error + jsval list" where
  "extractAuthorTags comment =
     bindE (get comment ''blockTags'') (\<lambda>blockTags.
       if \<not> truthy blockTags then Inr []
       else bindE (arrayFilter (\<lambda>t. bindE (get t ''tag'') (\<lambda>g. Inr (g = JStr ''@author'')))
                     blockTags) (\<lambda>authors.
            mapE (\<lambda>t. bindE (get t ''content'') (\<lambda>c.
                      bindE (extractCommentParts c) (\<lambda>s. Inr (JStr s)))) authors))"

subsection \<open>The string classifiers\<close>

definition startsWith :: "string \<Rightarrow> string \<Rightarrow> bool" where
  "startsWith s p = (take (length p) s = p)"

text \<open>\<^verbatim>\<open>text.includes(sub)\<close>\<close>

fun includesStr :: "string \<Rightarrow> string \<Rightarrow> bool" where
  "includesStr [] sub = (sub = [])"
| "includesStr (c # cs) sub = (startsWith (c # cs) sub \<or> includesStr cs sub)"

text \<open>The regular expression of \<^verbatim>\<open>isCodeExample\<close> is an alternation of literal
  strings, so the test is whether one of them occurs.\<close>

definition isCodeExample :: "string \<Rightarrow> bool" where
  "isCodeExample text =
     list_ex (includesStr text)
       [''```'', ''function '', ''const '', ''let '', ''var '', ''{'', ''}'', ''()'', ''=>'',
        ''async'', ''await'', ''import'', ''export'']"

definition detectLanguage :: "string \<Rightarrow> string" where
  "detectLanguage text =
     (if includesStr text ''async'' \<or> includesStr text ''=>'' \<or> includesStr text ''function''
         \<or> includesStr text ''interface'' \<or> includesStr text ''type'' \<or> includesStr text ''class''
      then ''typescript''
      else if includesStr text ''<!--'' then ''html''
      else if includesStr text ''@'' then ''typescript''
      else ''text'')"

text \<open>
  \<^verbatim>\<open>extractCodeBlocks\<close> runs the regular expression
  \<^verbatim>\<open>```(?:typescript|ts|javascript|js|tsx|jsx)?\n([\s\S]*?)```\<close> over the text.
  \<open>fenceOpen s\<close> matches the opening fence, the optional language and the line
  feed at the start of \<open>s\<close> and returns what follows; \<open>fenceClose s\<close> is the lazy
  body: the text before the first closing fence, and the text after it.
\<close>

definition stripPrefix :: "string \<Rightarrow> string \<Rightarrow> string option" where
  "stripPrefix p s = (if startsWith s p then Some (drop (length p) s) else None)"

definition fenceOpen :: "string \<Rightarrow> string option" where
  "fenceOpen s =
     (case List.find (\<lambda>lang. startsWith s (''```'' @ lang @ [CHR 0x0A]))
             [''typescript'', ''ts'', ''javascript'', ''js'', ''tsx'', ''jsx'', []] of
        None \<Rightarrow> None
      | Some lang \<Rightarrow> stripPrefix (''```'' @ lang @ [CHR 0x0A]) s)"

fun fenceClose :: "string \<Rightarrow> (string \<times> string) option" where
  "fenceClose [] = None"
| "fenceClose (c # cs) =
     (case stripPrefix ''```'' (c # cs) of
        Some rest \<Rightarrow> Some ([], rest)
      | None \<Rightarrow> (case fenceClose cs of
                   None \<Rightarrow> None
                 | Some (body, rest) \<Rightarrow> Some (c # body, rest)))"

lemma stripPrefix_length: "stripPrefix p s = Some r \<Longrightarrow> length r \<le> length s"
  by (auto simp: stripPrefix_def split: if_splits)

lemma stripPrefix_shorter:
  assumes "stripPrefix p s = Some r" and "p \<noteq> []"
  shows "length r < length s"
proof -
  from assms(1) have t: "take (length p) s = p" and r: "r = drop (length p) s"
    by (auto simp: stripPrefix_def startsWith_def split: if_splits)
  have "length (take (length p) s) = min (length s) (length p)" by simp
  with t have "length p = min (length s) (length p)" by simp
  then have le: "length p \<le> length s" by simp
  from assms(2) obtain n where "length p = Suc n" by (cases p) auto
  with le have "length s - length p < length s" by linarith
  with r show ?thesis by simp
qed

lemma fenceOpen_length: "fenceOpen s = Some r \<Longrightarrow> length r < length s"
  unfolding fenceOpen_def
  by (auto split: option.splits intro: stripPrefix_shorter)

lemma fenceClose_length: "fenceClose s = Some (b, r) \<Longrightarrow> length r \<le> length s"
proof (induction s arbitrary: b r)
  case Nil
  then show ?case by simp
next
  case (Cons c cs)
  then show ?case
    by (fastforce dest: stripPrefix_length split: option.splits)
qed

function extractCodeBlocks :: "string \<Rightarrow> string list" where
  "extractCodeBlocks s =
     (if s = [] then []
      else case fenceOpen s of
             None \<Rightarrow> extractCodeBlocks (tl s)
           | Some inner \<Rightarrow>
               (case fenceClose inner of
                  None \<Rightarrow> extractCodeBlocks (tl s)
                | Some (body, rest) \<Rightarrow> trim body # extractCodeBlocks rest))"
  by pat_completeness auto
termination
proof (relation "measure length")
  show "wf (measure length)" by simp
next
  fix s :: string
  assume "s \<noteq> []"
  then show "(tl s, s) \<in> measure length" by (cases s) auto
next
  fix s inner :: string
  assume "s \<noteq> []"
  then show "(tl s, s) \<in> measure length" by (cases s) auto
next
  fix s inner x body rest
  assume "fenceOpen s = Some inner" and "fenceClose inner = Some x" and "(body, rest) = x"
  then show "(rest, s) \<in> measure length"
    using fenceOpen_length [of s inner] fenceClose_length [of inner body rest] by auto
qed

declare extractCodeBlocks.simps [simp del]

text \<open>\<^verbatim>\<open>text.split(/\s+/)\<close>\<close>

function splitWs :: "string \<Rightarrow> string list" where
  "splitWs s =
     (case dropWhile (\<lambda>c. \<not> isSpace c) s of
        [] \<Rightarrow> [s]
      | c # cs \<Rightarrow> takeWhile (\<lambda>c. \<not> isSpace c) s # splitWs (dropWhile isSpace cs))"
  by pat_completeness auto
termination
proof (relation "measure length")
  show "wf (measure length)" by simp
next
  fix s :: string and c cs
  assume a: "dropWhile (\<lambda>c. \<not> isSpace c) s = c # cs"
  have "length (dropWhile isSpace cs) \<le> length cs" by (rule length_dropWhile_le)
  moreover have "length (c # cs) \<le> length s"
    using length_dropWhile_le [of "\<lambda>c. \<not> isSpace c" s] a by simp
  ultimately show "(dropWhile isSpace cs, s) \<in> measure length" by simp
qed

declare splitWs.simps [simp del]

section \<open>Extractor\<close>

text \<open>\<^verbatim>\<open>v.toString()\<close> and \<^verbatim>\<open>v?.toString()\<close>\<close>

definition callToString :: "jsval \<Rightarrow> error + jsval" where
  "callToString v = (if nullish v then Inl TypeError else bindE (toStr v) (\<lambda>s. Inr (JStr s)))"

definition optToString :: "jsval \<Rightarrow> error + jsval" where
  "optToString v = (if nullish v then Inr JUndefined else callToString v)"

text \<open>\<^verbatim>\<open>c ? {type: typeToString(c), typeRaw: c} : undefined\<close>\<close>

definition typeDefinition :: "jsval \<Rightarrow> error + jsval" where
  "typeDefinition c =
     (if truthy c
      then bindE (typeToString c) (\<lambda>r. Inr (JObj [(''type'', r), (''typeRaw'', c)]))
      else Inr JUndefined)"

definition extractTypeParameters :: "jsval \<Rightarrow> error + jsval list" where
  "extractTypeParameters typeParams =
     (if \<not> truthy typeParams then Inr []
      else arrayMap (\<lambda>tp.
        bindE (get tp ''name'') (\<lambda>name.
        bindE (get tp ''type'') (\<lambda>c.
        bindE (typeDefinition c) (\<lambda>constraint.
        bindE (get tp ''default'') (\<lambda>d.
        bindE (typeDefinition d) (\<lambda>dflt.
        bindE (summaryOf extractCommentParts tp) (\<lambda>description.
          Inr (JObj [(''name'', name), (''constraint'', constraint), (''default'', dflt),
                     (''description'', description)])))))))) typeParams)"

definition extractParameters :: "jsval \<Rightarrow> error + jsval list" where
  "extractParameters reflection = parametersWith extractCommentParts reflection"

text \<open>\<^verbatim>\<open>c.k ? extractCommentParts(c.k) : undefined\<close>\<close>

definition optionalPart :: "jsval \<Rightarrow> string \<Rightarrow> error + jsval" where
  "optionalPart c k =
     bindE (get c k) (\<lambda>part.
       if truthy part then bindE (extractCommentParts part) (\<lambda>s. Inr (JStr s))
       else Inr JUndefined)"

definition extractDocumentation :: "jsval \<Rightarrow> error + jsval" where
  "extractDocumentation reflection =
     bindE (get reflection ''comment'') (\<lambda>c. let comment = orElse c (JObj []) in
     bindE (get comment ''summary'') (\<lambda>sp.
     bindE (extractCommentParts sp) (\<lambda>summary.
     bindE (get comment ''description'') (\<lambda>dp.
     bindE (extractCommentParts dp) (\<lambda>description.
     bindE (get comment ''remarks'') (\<lambda>rp.
     bindE (extractCommentParts rp) (\<lambda>remarks.
     bindE (get reflection ''flags'') (\<lambda>flags.
     bindE (getOpt flags ''isDeprecated'') (\<lambda>isDeprecated.
     bindE (optionalPart comment ''deprecated'') (\<lambda>message.
     bindE (optionalPart comment ''license'') (\<lambda>license.
     bindE (optionalPart comment ''copyright'') (\<lambda>copyright.
     bindE (extractAuthorTags comment) (\<lambda>author.
     bindE (optionalPart comment ''since'') (\<lambda>since.
       Inr (JObj [(''summary'', JStr summary), (''description'', JStr description),
                  (''remarks'', JStr remarks),
                  (''deprecated'',
                     JObj [(''isDeprecated'', orElse isDeprecated (JBool False)),
                           (''message'', message)]),
                  (''license'', license), (''copyright'', copyright),
                  (''author'', JArr author), (''since'', since)])))))))))))))))"

text \<open>\<^verbatim>\<open>v?.map(typeToString)\<close>\<close>

definition optTypeList :: "jsval \<Rightarrow> error + jsval" where
  "optTypeList v =
     (if nullish v then Inr JUndefined
      else bindE (arrayMap typeToString v) (\<lambda>rs. Inr (JArr rs)))"

definition extractTypeInformation :: "jsval \<Rightarrow> error + jsval" where
  "extractTypeInformation reflection =
     bindE (get reflection ''type'') (\<lambda>t.
     bindE (if truthy t then typeToString t else Inr JUndefined) (\<lambda>ty.
     bindE (get reflection ''typeParameters'') (\<lambda>tps.
     bindE (extractTypeParameters tps) (\<lambda>typeParameters.
     bindE (get reflection ''extendedTypes'') (\<lambda>ets.
     bindE (optTypeList ets) (\<lambda>extendedTypes.
     bindE (get reflection ''implementedTypes'') (\<lambda>its.
     bindE (optTypeList its) (\<lambda>implementedTypes.
       Inr (JObj [(''type'', ty), (''typeRaw'', t),
                  (''typeParameters'', JArr typeParameters),
                  (''extendedTypes'', extendedTypes),
                  (''implementedTypes'', implementedTypes)])))))))))"

definition resolveTypeName :: "jsval \<Rightarrow> error + jsval" where
  "resolveTypeName typeRef = bindE (get typeRef ''name'') (\<lambda>n. Inr (orElse n (JStr ''unknown'')))"

text \<open>\<^verbatim>\<open>sig.k ? {name: resolveTypeName(sig.k), id: sig.k.id?.toString()} : undefined\<close>\<close>

definition referenceDetail :: "jsval \<Rightarrow> string \<Rightarrow> error + jsval" where
  "referenceDetail sig k =
     bindE (get sig k) (\<lambda>ref.
       if truthy ref then
         bindE (resolveTypeName ref) (\<lambda>name.
         bindE (get ref ''id'') (\<lambda>i.
         bindE (optToString i) (\<lambda>ident.
           Inr (JObj [(''name'', name), (''id'', ident)]))))
       else Inr JUndefined)"

text \<open>One overload of \<^verbatim>\<open>reflection.signatures\<close>: the record pushed by the first loop
  of \<^verbatim>\<open>extractSignatures\<close>.\<close>

definition overloadDetail :: "jsval \<Rightarrow> jsval \<Rightarrow> error + jsval" where
  "overloadDetail reflection sig =
     bindE (get sig ''name'') (\<lambda>name.
     bindE (get sig ''kind'') (\<lambda>kind.
     bindE (buildSignatureString reflection sig) (\<lambda>signature.
     bindE (get sig ''typeParameters'') (\<lambda>tps.
     bindE (extractTypeParameters tps) (\<lambda>typeParameters.
     bindE (extractParameters sig) (\<lambda>parameters.
     bindE (get sig ''type'') (\<lambda>t.
     bindE (if truthy t then typeToString t else Inr (JStr ''void'')) (\<lambda>ty.
     bindE (summaryOf extractCommentParts sig) (\<lambda>description.
     bindE (referenceDetail sig ''overwrites'') (\<lambda>overwrites.
     bindE (referenceDetail sig ''inheritedFrom'') (\<lambda>inheritedFrom.
     bindE (referenceDetail sig ''implementationOf'') (\<lambda>implementationOf.
     bindE (summaryOf extractCommentParts sig) (\<lambda>summary.
     bindE (commentFieldOf extractCommentParts sig ''description'') (\<lambda>docDescription.
       Inr (JObj [(''name'', name), (''kind'', kind), (''signature'', JStr signature),
                  (''typeParameters'', JArr typeParameters),
                  (''parameters'', JArr parameters),
                  (''returnType'',
                     JObj [(''type'', ty), (''typeRaw'', t), (''description'', description)]),
                  (''overwrites'', overwrites), (''inheritedFrom'', inheritedFrom),
                  (''implementationOf'', implementationOf),
                  (''documentation'',
                     JObj [(''summary'', summary), (''description'', docDescription)])])
     ))))))))))))))"

definition indexSignatureDetail :: "jsval \<Rightarrow> error + jsval" where
  "indexSignatureDetail indexSig =
     bindE (get indexSig ''kind'') (\<lambda>kind.
     bindE (buildIndexSignatureString indexSig) (\<lambda>signature.
     bindE (extractParameters indexSig) (\<lambda>parameters.
     bindE (get indexSig ''type'') (\<lambda>t.
     bindE (typeToString t) (\<lambda>ty.
     bindE (summaryOf extractCommentParts indexSig) (\<lambda>summary.
       Inr (JObj [(''name'', JStr ''__index''), (''kind'', kind),
                  (''signature'', JStr signature), (''parameters'', JArr parameters),
                  (''returnType'', JObj [(''type'', ty), (''typeRaw'', t)]),
                  (''documentation'', JObj [(''summary'', summary)])])))))))"

text \<open>\<^verbatim>\<open>if (v) { for (const x of v) out.push(f(x)) }\<close>\<close>

definition pushEach :: "(jsval \<Rightarrow> error + jsval) \<Rightarrow> jsval \<Rightarrow> error + jsval list" where
  "pushEach f v = (if truthy v then bindE (iter v) (mapE f) else Inr [])"

definition extractSignatures :: "jsval \<Rightarrow> error + jsval list" where
  "extractSignatures reflection =
     bindE (get reflection ''signatures'') (\<lambda>sigs.
     bindE (pushEach (overloadDetail reflection) sigs) (\<lambda>overloads.
     bindE (get reflection ''getSignature'') (\<lambda>gs.
     bindE (if truthy gs then bindE (buildGetSetSignature gs True) (\<lambda>g. Inr [g]) else Inr [])
       (\<lambda>getter.
     bindE (get reflection ''setSignature'') (\<lambda>ss.
     bindE (if truthy ss then bindE (buildGetSetSignature ss False) (\<lambda>g. Inr [g]) else Inr [])
       (\<lambda>setter.
     bindE (get reflection ''indexSignatures'') (\<lambda>isigs.
     bindE (pushEach indexSignatureDetail isigs) (\<lambda>indexes.
       Inr (overloads @ getter @ setter @ indexes)))))))))"

subsection \<open>Tags\<close>

record tagsDetail =
  examples :: "jsval list"
  examples_md :: "jsval list"
  tutorials :: "jsval list"
  seeTags :: "jsval list"
  throwsTags :: "jsval list"
  returnsTags :: "jsval list"
  paramTags :: "jsval list"
  typeparamTags :: "jsval list"
  customTags :: "(string \<times> jsval list) list"

definition emptyTags :: tagsDetail where
  "emptyTags = \<lparr>examples = [], examples_md = [], tutorials = [], seeTags = [],
     throwsTags = [], returnsTags = [], paramTags = [], typeparamTags = [], customTags = []\<rparr>"

text \<open>
  \<^verbatim>\<open>customTags\<close> starts as the object literal \<^verbatim>\<open>{}\<close>, so a read of a key it
  does not own falls through to \<^verbatim>\<open>Object.prototype\<close>. For the names below the read
  gives a function (for \<^verbatim>\<open>__proto__\<close> the prototype object): a truthy value that
  has no \<^verbatim>\<open>push\<close>.
\<close>

definition objectPrototypeNames :: "string list" where
  "objectPrototypeNames =
     [''constructor'', ''__defineGetter__'', ''__defineSetter__'', ''hasOwnProperty'',
      ''__lookupGetter__'', ''__lookupSetter__'', ''isPrototypeOf'', ''propertyIsEnumerable'',
      ''toString'', ''valueOf'', ''__proto__'', ''toLocaleString'']"

text \<open>
  \<^verbatim>\<open>if (!customTags[key]) customTags[key] = []; customTags[key].push(content)\<close>.
  The lists stored are arrays, hence truthy.
\<close>

definition pushCustomTag ::
  "string \<Rightarrow> jsval \<Rightarrow> (string \<times> jsval list) list \<Rightarrow> error + (string \<times> jsval list) list" where
  "pushCustomTag key content cts =
     (case map_of cts key of
        Some xs \<Rightarrow> Inr (map (\<lambda>(k, ys). if k = key then (k, ys @ [content]) else (k, ys)) cts)
      | None \<Rightarrow>
          if key \<in> set objectPrototypeNames then Inl TypeError
          else Inr (cts @ [(key, [content])]))"

text \<open>The body of the loop over \<^verbatim>\<open>comment.blockTags\<close>.\<close>

definition tagStep :: "jsval \<Rightarrow> tagsDetail \<Rightarrow> jsval \<Rightarrow> error + tagsDetail" where
  "tagStep reflection tags tag =
     bindE (get tag ''tag'') (\<lambda>t.
     bindE (get tag ''content'') (\<lambda>content.
       if t = JStr ''@example'' then
         bindE (extractCommentParts content) (\<lambda>text.
           Inr (tags\<lparr>examples := examples tags @
                        [JObj [(''text'', JStr text), (''isCode'', JBool (isCodeExample text)),
                               (''language'', JStr (detectLanguage text))]],
                      examples_md := examples_md tags @ map JStr (extractCodeBlocks text)\<rparr>))
       else if t = JStr ''@tutorial'' \<or> t = JStr ''@tutorials'' then
         bindE (extractCommentParts content) (\<lambda>text.
           Inr (tags\<lparr>tutorials := tutorials tags @ [JStr text]\<rparr>))
       else if t = JStr ''@see'' then
         bindE (extractCommentParts content) (\<lambda>text.
           Inr (tags\<lparr>seeTags := seeTags tags @ [JStr text]\<rparr>))
       else if t = JStr ''@throws'' \<or> t = JStr ''@throw'' then
         bindE (extractCommentParts content) (\<lambda>text.
           Inr (tags\<lparr>throwsTags := throwsTags tags @ [JStr text]\<rparr>))
       else if t = JStr ''@returns'' \<or> t = JStr ''@return'' then
         bindE (get tag ''typeExpression'') (\<lambda>te.
         bindE (if truthy te then typeToString te else Inr JUndefined) (\<lambda>ty.
         bindE (extractCommentParts content) (\<lambda>description.
           Inr (tags\<lparr>returnsTags := returnsTags tags @
                        [JObj [(''type'', ty), (''typeRaw'', te),
                               (''description'', JStr description)]]\<rparr>))))
       else if t = JStr ''@param'' then
         bindE (get tag ''name'') (\<lambda>name.
         bindE (get tag ''typeExpression'') (\<lambda>te.
         bindE (if truthy te then typeToString te else Inr JUndefined) (\<lambda>ty.
         bindE (extractCommentParts content) (\<lambda>description.
           Inr (tags\<lparr>paramTags := paramTags tags @
                        [JObj [(''paramName'', name), (''type'', ty), (''typeRaw'', te),
                               (''description'', JStr description)]]\<rparr>)))))
       else if t = JStr ''@typeParam'' \<or> t = JStr ''@template'' then
         bindE (get tag ''name'') (\<lambda>name.
         bindE (extractCommentParts content) (\<lambda>description.
           Inr (tags\<lparr>typeparamTags := typeparamTags tags @
                        [JObj [(''paramName'', name), (''description'', JStr description)]]\<rparr>)))
       else
         bindE (toStr t) (\<lambda>key.
         bindE (extractCommentParts content) (\<lambda>text.
         bindE (pushCustomTag key (JStr text) (customTags tags)) (\<lambda>cts.
           Inr (tags\<lparr>customTags := cts\<rparr>))))))"

definition extractAllTags :: "jsval \<Rightarrow> error + tagsDetail" where
  "extractAllTags reflection =
     bindE (get reflection ''comment'') (\<lambda>c. let comment = orElse c (JObj []) in
     bindE (get comment ''blockTags'') (\<lambda>blockTags.
       if \<not> truthy blockTags then Inr emptyTags
       else bindE (iter blockTags) (foldE (tagStep reflection) emptyTags)))"

subsection \<open>Modifiers, source, hierarchy, search tokens\<close>

definition extractModifiers :: "jsval \<Rightarrow> error + jsval" where
  "extractModifiers reflection =
     bindE (get reflection ''flags'') (\<lambda>f. let flags = orElse f (JObj []) in
     bindE (mapE (\<lambda>k. bindE (get flags k) (\<lambda>v. Inr (k, v)))
              [''isAbstract'', ''isAsync'', ''isConst'', ''isReadonly'', ''isOptional'',
               ''isStatic'', ''isPrivate'', ''isProtected'', ''isPublic'', ''isExternal''])
       (\<lambda>kvs. Inr (JObj kvs)))"

definition extractSourceInfo :: "jsval \<Rightarrow> error + jsval" where
  "extractSourceInfo reflection =
     bindE (get reflection ''sources'') (\<lambda>sources.
     bindE (if nullish sources then Inr JUndefined else getFirst sources) (\<lambda>source.
     bindE (getOpt source ''fileName'') (\<lambda>fileName.
     bindE (getOpt source ''line'') (\<lambda>line.
     bindE (getOpt source ''character'') (\<lambda>character.
     bindE (getOpt source ''url'') (\<lambda>url.
       Inr (JObj [(''filename'', orElse fileName (JStr ''unknown'')), (''lineStart'', line),
                  (''lineEnd'', character), (''url'', url)])))))))"

text \<open>\<^verbatim>\<open>getReflectionName\<close> and \<^verbatim>\<open>getReflectionKind\<close> are the constant
  \<^verbatim>\<open>"unknown"\<close>.\<close>

definition extractHierarchy :: "jsval \<Rightarrow> error + jsval" where
  "extractHierarchy reflection =
     bindE (get reflection ''parent'') (\<lambda>parent.
     bindE (optToString parent) (\<lambda>parentId.
     bindE (get reflection ''children'') (\<lambda>children.
     bindE (if nullish children then Inr JUndefined
            else bindE (arrayMap (\<lambda>c. bindE (get c ''id'') optToString) children)
                   (\<lambda>ids. Inr (JArr ids))) (\<lambda>childrenIds.
     bindE (get reflection ''module'') (\<lambda>module.
     bindE (getOpt module ''id'') (\<lambda>mid.
     bindE (optToString mid) (\<lambda>moduleId.
     bindE (getOpt module ''name'') (\<lambda>moduleName.
       Inr (JObj [(''parentId'', parentId),
                  (''parentName'', if truthy parent then JStr ''unknown'' else JUndefined),
                  (''parentKind'', if truthy parent then JStr ''unknown'' else JUndefined),
                  (''childrenIds'', childrenIds), (''moduleId'', moduleId),
                  (''moduleName'', moduleName)])))))))))"

text \<open>The tokens one callback of \<^verbatim>\<open>blockTags.forEach\<close> pushes. Only an array has
  \<^verbatim>\<open>forEach\<close>, as it is with \<^verbatim>\<open>map\<close>.\<close>

definition exampleTokens :: "jsval \<Rightarrow> error + jsval list" where
  "exampleTokens tag =
     bindE (get tag ''tag'') (\<lambda>t.
       if t = JStr ''@example'' \<or> t = JStr ''@tutorial'' then
         bindE (get tag ''content'') (\<lambda>content.
         bindE (extractCommentParts content) (\<lambda>text.
           Inr (map JStr (take 5 (splitWs text)))))
       else Inr [])"

definition generateSearchTokens :: "jsval \<Rightarrow> jsval \<Rightarrow> error + jsval list" where
  "generateSearchTokens reflection fullPath =
     bindE (get reflection ''name'') (\<lambda>name.
     bindE (get reflection ''kind'') (\<lambda>kind.
     bindE (extractDocumentation reflection) (\<lambda>doc.
     bindE (get doc ''summary'') (\<lambda>summary.
     bindE (toStr summary) (\<lambda>s.
     bindE (get reflection ''comment'') (\<lambda>comment.
     bindE (getOpt comment ''blockTags'') (\<lambda>blockTags.
     bindE (if truthy blockTags
            then bindE (arrayMap exampleTokens blockTags) (\<lambda>tss. Inr (concat tss))
            else Inr []) (\<lambda>tagTokens.
       filterE hasLength
         ([name, fullPath, kind] @ map JStr (take 10 (splitWs s)) @ tagTokens)))))))))"

subsection \<open>The extracted record\<close>

record extractedDocumentation =
  doc_id :: jsval
  doc_name :: jsval
  doc_kind :: jsval
  doc_fullPath :: jsval
  doc_documentation :: jsval
  doc_types :: jsval
  doc_signatures :: "jsval list"
  doc_parameters :: "jsval list"
  doc_tags :: tagsDetail
  doc_hierarchy :: jsval
  doc_source :: jsval
  doc_modifiers :: jsval
  doc_defaultValue :: jsval
  doc_searchTokens :: "jsval list"
  doc_rawJSON :: jsval

text \<open>The \<^verbatim>\<open>project\<close> argument reaches \<^verbatim>\<open>typeToString\<close> as its unused context
  only and is left out. A falsy \<open>path\<close> stands for the default \<^verbatim>\<open>""\<close> as well.\<close>

definition extractAllDocumentation :: "jsval \<Rightarrow> jsval \<Rightarrow> error + extractedDocumentation" where
  "extractAllDocumentation reflection path =
     bindE (get reflection ''name'') (\<lambda>name.
     bindE (if truthy path
            then bindE (toStr path) (\<lambda>p. bindE (toStr name) (\<lambda>n. Inr (JStr (p @ ''.'' @ n))))
            else Inr name) (\<lambda>fullPath.
     bindE (get reflection ''id'') (\<lambda>i.
     bindE (callToString i) (\<lambda>ident.
     bindE (get reflection ''kind'') (\<lambda>kind.
     bindE (extractDocumentation reflection) (\<lambda>documentation.
     bindE (extractTypeInformation reflection) (\<lambda>types.
     bindE (extractSignatures reflection) (\<lambda>signatures.
     bindE (extractParameters reflection) (\<lambda>parameters.
     bindE (extractAllTags reflection) (\<lambda>tags.
     bindE (extractHierarchy reflection) (\<lambda>hierarchy.
     bindE (extractSourceInfo reflection) (\<lambda>source.
     bindE (extractModifiers reflection) (\<lambda>modifiers.
     bindE (get reflection ''defaultValue'') (\<lambda>defaultValue.
     bindE (generateSearchTokens reflection fullPath) (\<lambda>searchTokens.
       Inr \<lparr>doc_id = ident, doc_name = name, doc_kind = kind, doc_fullPath = fullPath,
            doc_documentation = documentation, doc_types = types,
            doc_signatures = signatures, doc_parameters = parameters, doc_tags = tags,
            doc_hierarchy = hierarchy, doc_source = source, doc_modifiers = modifiers,
            doc_defaultValue = defaultValue, doc_searchTokens = searchTokens,
            doc_rawJSON = reflection\<rparr>)))))))))))))))"

section \<open>Processor\<close>

subsection \<open>The tree walk\<close>

text \<open>The state of the processor: \<^verbatim>\<open>this.allDocs\<close>, and the warnings written with
  \<^verbatim>\<open>console.warn\<close> (the name printed and the error caught).\<close>

record walker =
  allDocs :: "extractedDocumentation list"
  warnings :: "(string \<times> error) list"

datatype outcome = Returned | Thrown error

text \<open>A measure that the elements a \<^verbatim>\<open>for ... of\<close> loop takes from a value never
  exceed: the characters of a string weigh as much as the string.\<close>

fun weight :: "jsval \<Rightarrow> nat" where
  "weight (JStr s) = max 1 (length s)"
| "weight (JArr xs) = Suc (Suc (sum_list (map weight xs)))"
| "weight (JObj kvs) = Suc (Suc (sum_list (map (\<lambda>kv. weight (snd kv)) kvs)))"
| "weight v = 1"

lemma weight_pos: "0 < weight v"
  by (cases v) auto

lemma weight_iter: "iter v = Inr xs \<Longrightarrow> sum_list (map weight xs) \<le> weight v"
proof (cases v)
  case (JStr s)
  assume "iter v = Inr xs"
  with JStr have xs: "xs = map (\<lambda>c. JStr [c]) s" by simp
  have "sum_list (map weight (map (\<lambda>c. JStr [c]) s)) = length s"
    by (induction s) auto
  with xs JStr show ?thesis by simp
qed auto

lemma weight_lookup: "weight (lookup kvs k) < weight (JObj kvs)"
proof (cases "map_of kvs k")
  case None
  then show ?thesis by (simp add: lookup_def)
next
  case (Some v)
  then have "(k, v) \<in> set kvs" by (rule map_of_SomeD)
  then have "weight v \<le> sum_list (map (\<lambda>kv. weight (snd kv)) kvs)"
    by (induction kvs) auto
  with Some show ?thesis by (simp add: lookup_def)
qed

lemma hasLength_truthy: "hasLength c = Inr True \<Longrightarrow> truthy c"
  by (auto simp: hasLength_def split: if_splits)

lemma weight_children:
  assumes "get r k = Inr c" and "truthy c" and "iter c = Inr xs"
  shows "sum_list (map weight xs) < weight r"
proof (cases r)
  case (JObj kvs)
  with assms(1) have "weight c < weight r" using weight_lookup [of kvs k] by auto
  with weight_iter [OF assms(3)] show ?thesis by simp
next
  case (JStr s)
  with assms show ?thesis by (auto split: if_splits)
next
  case (JArr ys)
  with assms show ?thesis by (auto split: if_splits)
qed (use assms in auto)

lemma weight_walk:
  assumes "bindE (get r k) (\<lambda>c. bindE (hasLength c) (\<lambda>b.
             if b then bindE (iter c) (\<lambda>cs. Inr (Some cs)) else Inr None)) = Inr (Some xs)"
  shows "sum_list (map weight xs) < weight r"
proof -
  from assms obtain c where c: "get r k = Inr c"
    by (cases "get r k") auto
  with assms obtain b where b: "hasLength c = Inr b"
    by (cases "hasLength c") auto
  with assms c have "b" and "iter c = Inr xs"
    by (cases "iter c"; auto split: if_splits)+
  with b have "truthy c" by (simp add: hasLength_truthy)
  with c \<open>iter c = Inr xs\<close> show ?thesis by (simp add: weight_children)
qed

text \<open>
  \<^verbatim>\<open>processReflections\<close>, as the loop over the values taken from its first
  argument. The body of the \<^verbatim>\<open>try\<close> block is evaluated first; an exception it
  raises, from the extraction or from the walk of the children, is caught and
  reported under \<^verbatim>\<open>reflection.name\<close>. An exception raised by that report is not
  caught at this level.
\<close>

function processList :: "jsval list \<Rightarrow> jsval \<Rightarrow> walker \<Rightarrow> walker \<times> outcome" where
  "processList [] parentPath w = (w, Returned)"
| "processList (reflection # rest) parentPath w =
     (case
        (case extractAllDocumentation reflection parentPath of
           Inl e \<Rightarrow> (w, Thrown e)
         | Inr doc \<Rightarrow>
             (case bindE (get reflection ''children'') (\<lambda>c. bindE (hasLength c) (\<lambda>b.
                     if b then bindE (iter c) (\<lambda>cs. Inr (Some cs)) else Inr None)) of
                Inl e \<Rightarrow> (w\<lparr>allDocs := allDocs w @ [doc]\<rparr>, Thrown e)
              | Inr None \<Rightarrow> (w\<lparr>allDocs := allDocs w @ [doc]\<rparr>, Returned)
              | Inr (Some cs) \<Rightarrow>
                  processList cs (doc_fullPath doc) (w\<lparr>allDocs := allDocs w @ [doc]\<rparr>)))
      of
        (w', Returned) \<Rightarrow> processList rest parentPath w'
      | (w', Thrown e) \<Rightarrow>
          (case bindE (get reflection ''name'') toStr of
             Inl e' \<Rightarrow> (w', Thrown e')
           | Inr name \<Rightarrow> processList rest parentPath (w'\<lparr>warnings := warnings w' @ [(name, e)]\<rparr>)))"
  by pat_completeness auto
termination
  apply (relation "measure (\<lambda>(rs, p, w). sum_list (map weight rs))")
     apply (simp_all add: weight_pos)
  apply (drule weight_walk)
  apply simp
  done

declare processList.simps [simp del]

definition processReflections :: "jsval \<Rightarrow> jsval \<Rightarrow> walker \<Rightarrow> walker \<times> outcome" where
  "processReflections reflections parentPath w =
     (case iter reflections of
        Inl e \<Rightarrow> (w, Thrown e)
      | Inr rs \<Rightarrow> processList rs parentPath w)"

subsection \<open>The search index\<close>

text \<open>The index is the object \<^verbatim>\<open>{}\<close> filled by assignments: the list of its own
  properties, a new key going to the end.\<close>

fun setProp :: "string \<Rightarrow> jsval \<Rightarrow> (string \<times> jsval) list \<Rightarrow> (string \<times> jsval) list" where
  "setProp k v [] = [(k, v)]"
| "setProp k v ((k', v') # ps) = (if k' = k then (k, v) # ps else (k', v') # setProp k v ps)"

text \<open>The upper-case letters up to \<^verbatim>\<open>U+00FF\<close> are \<^verbatim>\<open>A\<close> to \<^verbatim>\<open>Z\<close> and
  \<^verbatim>\<open>U+00C0\<close> to \<^verbatim>\<open>U+00DE\<close> without the multiplication sign \<^verbatim>\<open>U+00D7\<close>; the
  lower-case letter is 32 code units further.\<close>

definition lowerChar :: "char \<Rightarrow> char" where
  "lowerChar c =
     (if ((65::nat) \<le> of_char c \<and> of_char c \<le> (90::nat)) \<or>
         ((192::nat) \<le> of_char c \<and> of_char c \<le> (222::nat) \<and> of_char c \<noteq> (215::nat))
      then char_of (of_char c + (32::nat)) else c)"

text \<open>\<^verbatim>\<open>token.toLowerCase()\<close>: only a string has the method.\<close>

fun toLowerCase :: "jsval \<Rightarrow> error + string" where
  "toLowerCase (JStr s) = Inr (map lowerChar s)"
| "toLowerCase v = Inl TypeError"

text \<open>\<^verbatim>\<open>if (!index[key]) index[key] = []; index[key].push(id)\<close>\<close>

definition pushIndex :: "string \<Rightarrow> jsval \<Rightarrow> (string \<times> jsval) list \<Rightarrow> error + (string \<times> jsval) list" where
  "pushIndex key ident index =
     (case map_of index key of
        None \<Rightarrow>
          if key \<in> set objectPrototypeNames then Inl TypeError
          else Inr (setProp key (JArr [ident]) index)
      | Some (JArr ids) \<Rightarrow> Inr (setProp key (JArr (ids @ [ident])) index)
      | Some v \<Rightarrow>
          if truthy v then Inl TypeError else Inr (setProp key (JArr [ident]) index))"

definition indexDoc ::
  "(string \<times> jsval) list \<Rightarrow> extractedDocumentation \<Rightarrow> error + (string \<times> jsval) list" where
  "indexDoc index doc =
     bindE (toStr (doc_id doc)) (\<lambda>ident.
     bindE (toStr (doc_fullPath doc)) (\<lambda>fullPath.
       foldE (\<lambda>idx token.
                bindE (toLowerCase token) (\<lambda>lower.
                  pushIndex (''token:'' @ lower) (doc_id doc) idx))
         (setProp (''path:'' @ fullPath) (doc_id doc)
            (setProp (''id:'' @ ident)
               (JObj [(''name'', doc_name doc), (''kind'', doc_kind doc),
                      (''fullPath'', doc_fullPath doc)]) index))
         (doc_searchTokens doc)))"

definition buildSearchIndex :: "extractedDocumentation list \<Rightarrow> error + (string \<times> jsval) list" where
  "buildSearchIndex docs = foldE indexDoc [] docs"

section \<open>Notions used in the properties\<close>

text \<open>The separator the \<^verbatim>\<open>switch\<close> joins the members of a union or an
  intersection with.\<close>

definition memberSeparator :: "string \<Rightarrow> string" where
  "memberSeparator tag = (if tag = ''union'' then '' | '' else '' & '')"

text \<open>
  The signature format as the specification states it. A parameter is described
  by its name, its rest and optional markers, its rendered type and its default
  text if it has one; a type parameter by its name and, if it has them, its
  rendered constraint and default. \<open>signatureText\<close> is
  \<^verbatim>\<open>{name}{typeParams}({params}): {returnType}\<close>: the type-parameter clause is
  empty for no type parameters and otherwise \<^verbatim>\<open><p1, p2>\<close> with
  \<^verbatim>\<open>name[ extends constraint][ = default]\<close> for each; the parameter clause is
  \<^verbatim>\<open>[...]name[?]: type[ = default]\<close> for each parameter, separated by a comma
  and a blank.
\<close>

record parameterSpec =
  ps_rest :: bool
  ps_name :: string
  ps_optional :: bool
  ps_type :: string
  ps_default :: "string option"

record typeParameterSpec =
  tp_name :: string
  tp_constraint :: "string option"
  tp_default :: "string option"

definition commaSeparated :: "string list \<Rightarrow> string" where
  "commaSeparated ss =
     (case ss of [] \<Rightarrow> [] | s # others \<Rightarrow> s @ concat (map (\<lambda>t. '', '' @ t) others))"

definition parameterClause :: "parameterSpec \<Rightarrow> string" where
  "parameterClause p =
     (if ps_rest p then ''...'' else []) @ ps_name p @ (if ps_optional p then ''?'' else [])
       @ '': '' @ ps_type p @ (case ps_default p of None \<Rightarrow> [] | Some d \<Rightarrow> '' = '' @ d)"

definition typeParameterClause :: "typeParameterSpec \<Rightarrow> string" where
  "typeParameterClause tp =
     tp_name tp @ (case tp_constraint tp of None \<Rightarrow> [] | Some c \<Rightarrow> '' extends '' @ c)
       @ (case tp_default tp of None \<Rightarrow> [] | Some d \<Rightarrow> '' = '' @ d)"

definition typeParameterList :: "typeParameterSpec list \<Rightarrow> string" where
  "typeParameterList tps =
     (if tps = [] then [] else ''<'' @ commaSeparated (map typeParameterClause tps) @ ''>'')"

definition signatureText ::
  "string \<Rightarrow> typeParameterSpec list \<Rightarrow> parameterSpec list \<Rightarrow> string \<Rightarrow> string" where
  "signatureText name typeParams params returnType =
     name @ typeParameterList typeParams @ ''('' @ commaSeparated (map parameterClause params)
       @ ''): '' @ returnType"

text \<open>
  What a parameter node and a type-parameter node hold. A flag, a default, a
  constraint is set when the field is truthy; names, rendered types and default
  values are taken as the text they print as. The name of a type parameter that
  has neither constraint nor default reaches \<^verbatim>\<open>join\<close> as it is, which prints
  an absent name as the empty string. \<open>listOf\<close> reads a list that may be absent.
\<close>

definition renderedType :: "jsval \<Rightarrow> error + string" where
  "renderedType t = bindE (typeToString t) toStr"

definition renderedTypeIfSet :: "jsval \<Rightarrow> error + string option" where
  "renderedTypeIfSet t = (if truthy t then bindE (renderedType t) (\<lambda>s. Inr (Some s)) else Inr None)"

definition parameterOf :: "jsval \<Rightarrow> error + parameterSpec" where
  "parameterOf param =
     bindE (get param ''flags'') (\<lambda>flags.
     bindE (getOpt flags ''isRest'') (\<lambda>isRest.
     bindE (getOpt flags ''isOptional'') (\<lambda>isOptional.
     bindE (bindE (get param ''name'') toStr) (\<lambda>name.
     bindE (bindE (get param ''type'') renderedType) (\<lambda>ty.
     bindE (get param ''defaultValue'') (\<lambda>dv.
     bindE (if truthy dv then bindE (toStr dv) (\<lambda>d. Inr (Some d)) else Inr None) (\<lambda>dflt.
       Inr \<lparr>ps_rest = truthy isRest, ps_name = name, ps_optional = truthy isOptional,
            ps_type = ty, ps_default = dflt\<rparr>)))))))"

definition typeParameterOf :: "jsval \<Rightarrow> error + typeParameterSpec" where
  "typeParameterOf tp =
     bindE (get tp ''name'') (\<lambda>n.
     bindE (get tp ''type'') (\<lambda>c.
     bindE (get tp ''default'') (\<lambda>d.
     bindE (renderedTypeIfSet c) (\<lambda>constraint.
     bindE (renderedTypeIfSet d) (\<lambda>dflt.
     bindE (if nullish n \<and> \<not> truthy c \<and> \<not> truthy d then Inr [] else toStr n) (\<lambda>name.
       Inr \<lparr>tp_name = name, tp_constraint = constraint, tp_default = dflt\<rparr>))))))"

definition listOf :: "(jsval \<Rightarrow> error + 'a) \<Rightarrow> jsval \<Rightarrow> error + 'a list" where
  "listOf f v = (if \<not> truthy v then Inr [] else arrayMap f v)"

text \<open>The block tags whose text \<^verbatim>\<open>generateSearchTokens\<close> takes tokens from.\<close>

definition isExampleTag :: "jsval \<Rightarrow> bool" where
  "isExampleTag t = (t = JStr ''@example'' \<or> t = JStr ''@tutorial'')"

text \<open>A primitive value: a string, a number, a boolean, \<^verbatim>\<open>null\<close> or
  \<^verbatim>\<open>undefined\<close>. The non-empty strings among a list of values.\<close>

definition primitive :: "jsval \<Rightarrow> bool" where
  "primitive v = (case v of JArr xs \<Rightarrow> False | JObj kvs \<Rightarrow> False | _ \<Rightarrow> True)"

definition nonEmptyStrings :: "jsval list \<Rightarrow> string list" where
  "nonEmptyStrings vs =
     concat (map (\<lambda>v. case v of JStr s \<Rightarrow> (if s = [] then [] else [s]) | _ \<Rightarrow> []) vs)"

text \<open>The tag names that have a \<^verbatim>\<open>case\<close> in the \<^verbatim>\<open>switch\<close> of \<^verbatim>\<open>extractAllTags\<close>.\<close>

definition recognizedBlockTags :: "string list" where
  "recognizedBlockTags =
     [''@example'', ''@tutorial'', ''@tutorials'', ''@see'', ''@throws'', ''@throw'',
      ''@returns'', ''@return'', ''@param'', ''@typeParam'', ''@template'']"

text \<open>The processor starts with no records and no warnings. \<open>appendW\<close> and
  \<open>extend\<close> add what a walk produced to an earlier state.\<close>

definition emptyWalker :: walker where
  "emptyWalker = \<lparr>allDocs = [], warnings = []\<rparr>"

definition appendW :: "walker \<Rightarrow> walker \<Rightarrow> walker" where
  "appendW w v = \<lparr>allDocs = allDocs w @ allDocs v, warnings = warnings w @ warnings v\<rparr>"

definition extend :: "walker \<Rightarrow> walker \<times> outcome \<Rightarrow> walker \<times> outcome" where
  "extend w r = (appendW w (fst r), snd r)"

text \<open>The children the walk descends into: \<open>None\<close> when the test
  \<^verbatim>\<open>reflection.children && reflection.children.length > 0\<close> fails.\<close>

definition childrenToWalk :: "jsval \<Rightarrow> error + jsval list option" where
  "childrenToWalk reflection =
     bindE (get reflection ''children'') (\<lambda>c. bindE (hasLength c) (\<lambda>b.
       if b then bindE (iter c) (\<lambda>cs. Inr (Some cs)) else Inr None))"

text \<open>The body of the \<^verbatim>\<open>try\<close> block.\<close>

definition tryBody :: "jsval \<Rightarrow> jsval \<Rightarrow> walker \<Rightarrow> walker \<times> outcome" where
  "tryBody reflection parentPath w =
     (case extractAllDocumentation reflection parentPath of
        Inl e \<Rightarrow> (w, Thrown e)
      | Inr doc \<Rightarrow>
          (case childrenToWalk reflection of
             Inl e \<Rightarrow> (w\<lparr>allDocs := allDocs w @ [doc]\<rparr>, Thrown e)
           | Inr None \<Rightarrow> (w\<lparr>allDocs := allDocs w @ [doc]\<rparr>, Returned)
           | Inr (Some cs) \<Rightarrow>
               processList cs (doc_fullPath doc) (w\<lparr>allDocs := allDocs w @ [doc]\<rparr>)))"

text \<open>What the index holds under \<^verbatim>\<open>"id:" + id\<close>.\<close>

definition indexEntry :: "extractedDocumentation \<Rightarrow> jsval" where
  "indexEntry d = JObj [(''name'', doc_name d), (''kind'', doc_kind d), (''fullPath'', doc_fullPath d)]"

text \<open>The ids pushed under \<^verbatim>\<open>"token:" + k\<close>: for each record in turn, its id
  once for each of its tokens whose lower-case form is \<open>k\<close>.\<close>

definition tokenIds :: "extractedDocumentation list \<Rightarrow> string \<Rightarrow> jsval list" where
  "tokenIds docs k =
     concat (map (\<lambda>d. map (\<lambda>t. doc_id d)
                          (filter (\<lambda>t. toLowerCase t = Inr k) (doc_searchTokens d))) docs)"

text \<open>A record as \<^verbatim>\<open>ExtractedDocumentation\<close> declares it: the id, the full path and
  the search tokens are strings.\<close>

definition indexableDoc :: "extractedDocumentation \<Rightarrow> bool" where
  "indexableDoc d \<longleftrightarrow>
     isString (doc_id d) \<and> isString (doc_fullPath d) \<and> list_all isString (doc_searchTokens d)"

text \<open>The invariant of the loop: a \<^verbatim>\<open>token:\<close> key holds a non-empty array.\<close>

definition tokenList :: "(string \<times> jsval) list \<Rightarrow> string \<Rightarrow> jsval list" where
  "tokenList index k =
     (case map_of index (''token:'' @ k) of Some (JArr ids) \<Rightarrow> ids | _ \<Rightarrow> [])"

definition tokenKeysOk :: "(string \<times> jsval) list \<Rightarrow> bool" where
  "tokenKeysOk index \<longleftrightarrow>
     (\<forall>k v. map_of index (''token:'' @ k) = Some v \<longrightarrow> (\<exists>ids. v = JArr ids \<and> ids \<noteq> []))"

text \<open>The reading of C3 as it is stated: the ids of the records that hold a token
  with the given lower-case form, one entry for each such record.\<close>

definition idsOfRecordsContaining :: "extractedDocumentation list \<Rightarrow> string \<Rightarrow> jsval list" where
  "idsOfRecordsContaining docs k =
     map doc_id (filter (\<lambda>d. list_ex (\<lambda>t. toLowerCase t = Inr k) (doc_searchTokens d)) docs)"

definition indexLookup :: "extractedDocumentation list \<Rightarrow> string \<Rightarrow> jsval option" where
  "indexLookup docs key =
     (case buildSearchIndex docs of Inl e \<Rightarrow> None | Inr index \<Rightarrow> map_of index key)"

text \<open>
  Well-formed type expressions. \<open>printable v\<close>: \<^verbatim>\<open>ToString\<close> of \<open>v\<close> does not
  throw. A name that a branch returns through \<^verbatim>\<open>name || fallback\<close> has to be a
  string or falsy; the name of a predicate that has neither \<^verbatim>\<open>asserts\<close> nor a
  target type is returned as it is, with no fallback, so it has to be a string. A
  field that is read into \<^verbatim>\<open>typeToString\<close> may be absent: \<^verbatim>\<open>undefined\<close> is
  well-formed, as every value that is not an object. What a well-formed node has
  to carry are the lists that the code maps over or iterates without a test:
  \<^verbatim>\<open>types\<close> of a union or an intersection, \<^verbatim>\<open>elements\<close> of a tuple, \<^verbatim>\<open>tail\<close>
  of a template literal, and in a function-shaped reflection a first signature.
\<close>

definition printable :: "jsval \<Rightarrow> bool" where
  "printable v = (case toStr v of Inl e \<Rightarrow> False | Inr s \<Rightarrow> True)"

definition stringOrFalsy :: "jsval \<Rightarrow> bool" where
  "stringOrFalsy v = (isString v \<or> \<not> truthy v)"

definition literalValue :: "jsval \<Rightarrow> bool" where
  "literalValue v =
     (case v of
        JObj kvs \<Rightarrow>
          lookup kvs ''negative'' = JUndefined \<or> lookup kvs ''value'' = JUndefined \<or>
          printable (lookup kvs ''value'')
      | _ \<Rightarrow> True)"

inductive wfType :: "jsval \<Rightarrow> bool" where
  wf_other: "(\<And>kvs. v \<noteq> JObj kvs) \<Longrightarrow> wfType v"
| wf_intrinsic:
    "lookup kvs ''type'' = JStr ''intrinsic'' \<Longrightarrow> stringOrFalsy (lookup kvs ''name'')
       \<Longrightarrow> wfType (JObj kvs)"
| wf_reference:
    "lookup kvs ''type'' = JStr ''reference'' \<Longrightarrow> stringOrFalsy (lookup kvs ''name'')
       \<Longrightarrow> \<not> truthy (lookup kvs ''typeArguments'')
             \<or> (\<exists>args. lookup kvs ''typeArguments'' = JArr args \<and> (\<forall>a \<in> set args. wfType a))
       \<Longrightarrow> wfType (JObj kvs)"
| wf_array:
    "lookup kvs ''type'' = JStr ''array'' \<Longrightarrow> wfType (lookup kvs ''elementType'')
       \<Longrightarrow> wfType (JObj kvs)"
| wf_union:
    "lookup kvs ''type'' = JStr ''union'' \<Longrightarrow> lookup kvs ''types'' = JArr members
       \<Longrightarrow> \<forall>m \<in> set members. wfType m \<Longrightarrow> wfType (JObj kvs)"
| wf_intersection:
    "lookup kvs ''type'' = JStr ''intersection'' \<Longrightarrow> lookup kvs ''types'' = JArr members
       \<Longrightarrow> \<forall>m \<in> set members. wfType m \<Longrightarrow> wfType (JObj kvs)"
| wf_literal:
    "lookup kvs ''type'' = JStr ''literal'' \<Longrightarrow> literalValue (lookup kvs ''value'')
       \<Longrightarrow> wfType (JObj kvs)"
| wf_tuple:
    "lookup kvs ''type'' = JStr ''tuple'' \<Longrightarrow> lookup kvs ''elements'' = JArr elements
       \<Longrightarrow> \<forall>m \<in> set elements. wfType m \<Longrightarrow> wfType (JObj kvs)"
| wf_namedTupleMember:
    "lookup kvs ''type'' = JStr ''namedTupleMember'' \<Longrightarrow> stringOrFalsy (lookup kvs ''name'')
       \<Longrightarrow> wfType (lookup kvs ''element'') \<Longrightarrow> wfType (JObj kvs)"
| wf_reflection_bare:
    "lookup kvs ''type'' = JStr ''reflection'' \<Longrightarrow> \<not> truthy (lookup kvs ''declaration'')
       \<Longrightarrow> wfType (JObj kvs)"
| wf_reflection_object:
    "lookup kvs ''type'' = JStr ''reflection'' \<Longrightarrow> lookup kvs ''declaration'' = JObj decl
       \<Longrightarrow> lookup decl ''children'' = JArr children
       \<Longrightarrow> \<forall>c \<in> set children. \<exists>child. c = JObj child \<and> printable (lookup child ''name'')
               \<and> wfType (lookup child ''type'')
       \<Longrightarrow> wfType (JObj kvs)"
| wf_reflection_function:
    "lookup kvs ''type'' = JStr ''reflection'' \<Longrightarrow> lookup kvs ''declaration'' = JObj decl
       \<Longrightarrow> \<not> truthy (lookup decl ''children'')
       \<Longrightarrow> lookup decl ''signatures'' = JArr (JObj sig # others)
       \<Longrightarrow> nullish (lookup sig ''parameters'')
             \<or> (\<exists>ps. lookup sig ''parameters'' = JArr ps \<and>
                   (\<forall>p \<in> set ps. \<exists>param. p = JObj param \<and> printable (lookup param ''name'')
                       \<and> wfType (lookup param ''type'')))
       \<Longrightarrow> wfType (lookup sig ''type'')
       \<Longrightarrow> wfType (JObj kvs)"
| wf_reflection_empty:
    "lookup kvs ''type'' = JStr ''reflection'' \<Longrightarrow> lookup kvs ''declaration'' = JObj decl
       \<Longrightarrow> \<not> truthy (lookup decl ''children'') \<Longrightarrow> \<not> truthy (lookup decl ''signatures'')
       \<Longrightarrow> wfType (JObj kvs)"
| wf_optional:
    "lookup kvs ''type'' = JStr ''optional'' \<Longrightarrow> wfType (lookup kvs ''elementType'')
       \<Longrightarrow> wfType (JObj kvs)"
| wf_rest:
    "lookup kvs ''type'' = JStr ''rest'' \<Longrightarrow> wfType (lookup kvs ''elementType'')
       \<Longrightarrow> wfType (JObj kvs)"
| wf_conditional:
    "lookup kvs ''type'' = JStr ''conditional'' \<Longrightarrow> wfType (lookup kvs ''checkType'')
       \<Longrightarrow> wfType (lookup kvs ''extendsType'') \<Longrightarrow> wfType (lookup kvs ''trueType'')
       \<Longrightarrow> wfType (lookup kvs ''falseType'') \<Longrightarrow> wfType (JObj kvs)"
| wf_inferred:
    "lookup kvs ''type'' = JStr ''inferred'' \<Longrightarrow> printable (lookup kvs ''name'')
       \<Longrightarrow> wfType (lookup kvs ''constraint'') \<Longrightarrow> wfType (JObj kvs)"
| wf_indexedAccess:
    "lookup kvs ''type'' = JStr ''indexedAccess'' \<Longrightarrow> wfType (lookup kvs ''objectType'')
       \<Longrightarrow> wfType (lookup kvs ''indexType'') \<Longrightarrow> wfType (JObj kvs)"
| wf_mapped:
    "lookup kvs ''type'' = JStr ''mapped'' \<Longrightarrow> printable (lookup kvs ''readonlyModifier'')
       \<Longrightarrow> printable (lookup kvs ''parameter'') \<Longrightarrow> wfType (lookup kvs ''parameterType'')
       \<Longrightarrow> printable (lookup kvs ''optionalModifier'') \<Longrightarrow> wfType (lookup kvs ''templateType'')
       \<Longrightarrow> wfType (lookup kvs ''nameType'') \<Longrightarrow> wfType (JObj kvs)"
| wf_typeOperator:
    "lookup kvs ''type'' = JStr ''typeOperator'' \<Longrightarrow> printable (lookup kvs ''operator'')
       \<Longrightarrow> wfType (lookup kvs ''target'') \<Longrightarrow> wfType (JObj kvs)"
| wf_query:
    "lookup kvs ''type'' = JStr ''query'' \<Longrightarrow> wfType (lookup kvs ''queryType'')
       \<Longrightarrow> wfType (JObj kvs)"
| wf_templateLiteral:
    "lookup kvs ''type'' = JStr ''templateLiteral'' \<Longrightarrow> printable (lookup kvs ''head'')
       \<Longrightarrow> lookup kvs ''tail'' = JArr pairs
       \<Longrightarrow> \<forall>pair \<in> set pairs. \<exists>parts. pair = JArr parts \<and> wfType (nthOr parts 0)
               \<and> printable (nthOr parts 1)
       \<Longrightarrow> wfType (JObj kvs)"
| wf_predicate:
    "lookup kvs ''type'' = JStr ''predicate''
       \<Longrightarrow> (if truthy (lookup kvs ''asserts'') \<or> truthy (lookup kvs ''targetType'')
            then printable (lookup kvs ''name'') else isString (lookup kvs ''name''))
       \<Longrightarrow> wfType (lookup kvs ''targetType'') \<Longrightarrow> wfType (JObj kvs)"
| wf_unrecognized:
    "lookup kvs ''type'' \<notin> JStr ` set recognizedTags \<Longrightarrow> stringOrFalsy (lookup kvs ''name'')
       \<Longrightarrow> wfType (JObj kvs)"

section \<open>Properties of the type converter\<close>

lemma typeToString_falsy: "\<not> truthy v \<Longrightarrow> typeToString v = Inr (JStr ''any'')"
  by (subst typeToString.simps) simp

lemma typeToString_JStr: "s \<noteq> [] \<Longrightarrow> typeToString (JStr s) = Inr (JStr s)"
  by (subst typeToString.simps) (simp add: isString_def)

lemma typeToString_default:
  assumes "truthy v" and "\<not> isString v" and "get v ''type'' = Inr tag"
    and "tag \<notin> JStr ` set recognizedTags" and "get v ''name'' = Inr name"
  shows "typeToString v = Inr (orElse name (JStr ''unknown''))"
  using assms by (subst typeToString.simps) (simp add: recognizedTags_def)

text \<open>
  C8. \<^verbatim>\<open>typeToString\<close> of an absent input (\<^verbatim>\<open>undefined\<close> or \<^verbatim>\<open>null\<close>) is
  \<^verbatim>\<open>"any"\<close>. For a node whose tag is not one of the tags of the \<^verbatim>\<open>switch\<close> the
  result is the node's own \<^verbatim>\<open>name\<close> field if it is present, and \<^verbatim>\<open>"unknown"\<close>
  otherwise. Present is what \<^verbatim>\<open>type.name || "unknown"\<close> tests: the field holds a
  truthy value.
\<close>

theorem typeToString_absent_or_unknown_tag:
  "typeToString JUndefined = Inr (JStr ''any'') \<and>
   typeToString JNull = Inr (JStr ''any'') \<and>
   (lookup kvs ''type'' \<notin> JStr ` set recognizedTags \<longrightarrow>
      typeToString (JObj kvs) =
        Inr (if truthy (lookup kvs ''name'') then lookup kvs ''name'' else JStr ''unknown''))"
  by (simp add: typeToString_falsy typeToString_default [of "JObj kvs"] isString_def orElse_def)

theorem typeToString_absent_or_unknown_tag_witness:
  "lookup [(''type'', JStr ''future''), (''name'', JStr ''Widget'')] ''type''
     \<notin> JStr ` set recognizedTags \<and>
   typeToString (JObj [(''type'', JStr ''future''), (''name'', JStr ''Widget'')])
     = Inr (JStr ''Widget'')"
  using typeToString_absent_or_unknown_tag
    [of "[(''type'', JStr ''future''), (''name'', JStr ''Widget'')]"]
  by (simp add: lookup_def recognizedTags_def)

text \<open>
  C10, as amended. For every input that is a non-empty string \<^verbatim>\<open>typeToString\<close>
  returns that string unchanged. The empty string is falsy, so the test
  \<^verbatim>\<open>!type\<close> ahead of the string test returns \<^verbatim>\<open>"any"\<close> for it.
\<close>

theorem typeToString_string_identity:
  "s \<noteq> [] \<Longrightarrow> typeToString (JStr s) = Inr (JStr s)"
  by (rule typeToString_JStr)

theorem typeToString_string_identity_witness:
  "''number'' \<noteq> [] \<and> typeToString (JStr ''number'') = Inr (JStr ''number'')"
  using typeToString_string_identity [of "''number''"] by simp

text \<open>C10 as stated fails at the empty string: the result is \<^verbatim>\<open>"any"\<close>, not the
  input.\<close>

theorem typeToString_empty_string:
  "typeToString (JStr []) = Inr (JStr ''any'') \<and> typeToString (JStr []) \<noteq> Inr (JStr [])"
  by (simp add: typeToString_falsy)

subsection \<open>Unions and intersections\<close>

lemma bindE_eq_Inr: "bindE m f = Inr y \<longleftrightarrow> (\<exists>x. m = Inr x \<and> f x = Inr y)"
  by (cases m) auto

lemma mapE_strings:
  "mapE (\<lambda>x. if nullish x then Inr [] else toStr x) (map JStr ss) = Inr ss"
  by (induction ss) (auto simp: nullish_def)

lemma joinE_strings: "joinE sep (map JStr ss) = Inr (intercalate sep ss)"
  by (simp add: joinE_def mapE_strings)

lemma tagged_plain:
  assumes "get v ''type'' = Inr (JStr t)"
  shows "truthy v" and "\<not> isString v"
  using assms by (cases v; simp add: isString_def split: if_splits)+

lemma typeToString_union:
  assumes "get v ''type'' = Inr (JStr ''union'')"
  shows "typeToString v =
    bindE (get v ''types'') (\<lambda>ts. bindE (arrayMap typeToString ts) (\<lambda>rs.
      bindE (joinE '' | '' rs) (\<lambda>s. Inr (JStr s))))"
  using assms tagged_plain [OF assms] by (subst typeToString.simps) simp

lemma typeToString_intersection:
  assumes "get v ''type'' = Inr (JStr ''intersection'')"
  shows "typeToString v =
    bindE (get v ''types'') (\<lambda>ts. bindE (arrayMap typeToString ts) (\<lambda>rs.
      bindE (joinE '' & '' rs) (\<lambda>s. Inr (JStr s))))"
  using assms tagged_plain [OF assms] by (subst typeToString.simps) simp

text \<open>
  C6. For a union (an intersection) node with a member list, the result is the
  renders of the members, in the order of the list, joined with \<^verbatim>\<open>" | "\<close>
  (\<^verbatim>\<open>" & "\<close>): every member is rendered, none is moved and none is dropped.
  The first conjunct is the general form, with the coercion \<^verbatim>\<open>join\<close> applies;
  the second is the case where every member renders to a string.
\<close>

theorem union_intersection_join:
  assumes "get node ''type'' = Inr (JStr tag)"
    and "tag = ''union'' \<or> tag = ''intersection''"
    and "get node ''types'' = Inr (JArr members)"
  shows "typeToString node =
           bindE (mapE typeToString members) (\<lambda>rs.
             bindE (joinE (memberSeparator tag) rs) (\<lambda>s. Inr (JStr s))) \<and>
         (\<forall>renders. mapE typeToString members = Inr (map JStr renders) \<longrightarrow>
            typeToString node = Inr (JStr (intercalate (memberSeparator tag) renders)))"
  using assms
  by (auto simp: typeToString_union typeToString_intersection memberSeparator_def joinE_strings)

text \<open>The union of \<open>A\<close>, \<open>B\<close>, \<open>A\<close> keeps both occurrences of \<open>A\<close>.\<close>

theorem union_intersection_join_witness:
  "typeToString (JObj [(''type'', JStr ''union''),
      (''types'', JArr [JObj [(''type'', JStr ''reference''), (''name'', JStr ''A'')],
                        JObj [(''type'', JStr ''intrinsic''), (''name'', JStr ''B'')],
                        JObj [(''type'', JStr ''reference''), (''name'', JStr ''A'')]])])
     = Inr (JStr ''A | B | A'')"
proof -
  let ?a = "JObj [(''type'', JStr ''reference''), (''name'', JStr ''A'')]"
  let ?b = "JObj [(''type'', JStr ''intrinsic''), (''name'', JStr ''B'')]"
  let ?node = "JObj [(''type'', JStr ''union''), (''types'', JArr [?a, ?b, ?a])]"
  have 1: "get ?node ''type'' = Inr (JStr ''union'')" by (simp add: lookup_def)
  have 2: "get ?node ''types'' = Inr (JArr [?a, ?b, ?a])" by (simp add: lookup_def)
  have 3: "mapE typeToString [?a, ?b, ?a] = Inr (map JStr [''A'', ''B'', ''A''])"
    by code_simp
  have u: "''union'' = ''union'' \<or> ''union'' = ''intersection''" by simp
  from union_intersection_join [OF 1 u 2] 3
  have "typeToString ?node
          = Inr (JStr (intercalate (memberSeparator ''union'') [''A'', ''B'', ''A'']))"
    by blast
  then show ?thesis by (simp add: memberSeparator_def)
qed

section \<open>Properties of the signature builder\<close>

lemma intercalate_commaSeparated: "intercalate '', '' ss = commaSeparated ss"
  by (induction "'', ''" ss rule: intercalate.induct) (simp_all add: commaSeparated_def)

lemma parameterString_clause:
  assumes "parameterOf param = Inr spec"
  shows "parameterString param = Inr (JStr (parameterClause spec))"
proof -
  from assms obtain flags isRest isOptional n name t r ty dv dflt where
    f: "get param ''flags'' = Inr flags" "getOpt flags ''isRest'' = Inr isRest"
       "getOpt flags ''isOptional'' = Inr isOptional"
       "get param ''name'' = Inr n" "toStr n = Inr name"
       "get param ''type'' = Inr t" "typeToString t = Inr r" "toStr r = Inr ty"
       "get param ''defaultValue'' = Inr dv"
    and d: "(if truthy dv then bindE (toStr dv) (\<lambda>d. Inr (Some d)) else Inr None) = Inr dflt"
    and spec: "spec = \<lparr>ps_rest = truthy isRest, ps_name = name, ps_optional = truthy isOptional,
            ps_type = ty, ps_default = dflt\<rparr>"
    unfolding parameterOf_def renderedType_def bindE_eq_Inr by blast
  show ?thesis
  proof (cases "truthy dv")
    case True
    with d obtain x where "toStr dv = Inr x" and "dflt = Some x"
      by (auto simp: bindE_eq_Inr)
    with f spec True show ?thesis by (simp add: parameterString_def parameterClause_def)
  next
    case False
    with d have "dflt = None" by simp
    with f spec False show ?thesis by (simp add: parameterString_def parameterClause_def)
  qed
qed

lemma mapE_parameterString:
  "mapE parameterOf ps = Inr specs \<Longrightarrow>
     mapE parameterString ps = Inr (map JStr (map parameterClause specs))"
  by (induction ps arbitrary: specs) (auto simp: bindE_eq_Inr parameterString_clause)

lemma arrayMap_Inr: "arrayMap f v = Inr ys \<Longrightarrow> \<exists>xs. v = JArr xs \<and> mapE f xs = Inr ys"
  by (cases v) auto

lemma buildParameterString_clause:
  assumes "listOf parameterOf v = Inr specs"
  shows "buildParameterString v = Inr (commaSeparated (map parameterClause specs))"
proof (cases "truthy v")
  case False
  with assms show ?thesis by (simp add: listOf_def buildParameterString_def commaSeparated_def)
next
  case True
  with assms obtain ps where v: "v = JArr ps" and m: "mapE parameterOf ps = Inr specs"
    by (auto simp: listOf_def dest: arrayMap_Inr)
  show ?thesis
  proof (cases ps)
    case Nil
    with v m show ?thesis by (simp add: buildParameterString_def commaSeparated_def)
  next
    case (Cons q qs)
    with v have "buildParameterString v = bindE (mapE parameterString ps) (joinE '', '')"
      by (simp add: buildParameterString_def del: mapE.simps)
    also have "\<dots> = joinE '', '' (map JStr (map parameterClause specs))"
      by (simp only: mapE_parameterString [OF m] bindE.simps)
    also have "\<dots> = Inr (commaSeparated (map parameterClause specs))"
      by (simp only: joinE_strings intercalate_commaSeparated)
    finally show ?thesis .
  qed
qed

lemma typeParameterString_clause:
  assumes "typeParameterOf tp = Inr spec"
  shows "\<exists>r. typeParameterString tp = Inr r \<and>
           (if nullish r then Inr [] else toStr r) = Inr (typeParameterClause spec)"
proof -
  from assms obtain n c d constraint dflt name where
    f: "get tp ''name'' = Inr n" "get tp ''type'' = Inr c" "get tp ''default'' = Inr d"
    and c: "renderedTypeIfSet c = Inr constraint"
    and d: "renderedTypeIfSet d = Inr dflt"
    and n: "(if nullish n \<and> \<not> truthy c \<and> \<not> truthy d then Inr [] else toStr n) = Inr name"
    and spec: "spec = \<lparr>tp_name = name, tp_constraint = constraint, tp_default = dflt\<rparr>"
    unfolding typeParameterOf_def bindE_eq_Inr by blast
  have set: "truthy x \<Longrightarrow> renderedTypeIfSet x = Inr y \<Longrightarrow>
               \<exists>r s. typeToString x = Inr r \<and> toStr r = Inr s \<and> y = Some s" for x y
    by (auto simp: renderedTypeIfSet_def renderedType_def bindE_eq_Inr)
  have unset: "\<not> truthy x \<Longrightarrow> renderedTypeIfSet x = Inr y \<Longrightarrow> y = None" for x y
    by (auto simp: renderedTypeIfSet_def)
  show ?thesis
  proof (cases "truthy c")
    case tc: True
    from set [OF tc c] obtain rc sc where rc: "typeToString c = Inr rc" "toStr rc = Inr sc"
      "constraint = Some sc" by blast
    from tc n have name: "toStr n = Inr name" by simp
    show ?thesis
    proof (cases "truthy d")
      case td: True
      from set [OF td d] obtain rd sd where "typeToString d = Inr rd" "toStr rd = Inr sd"
        "dflt = Some sd" by blast
      with f rc name tc td spec show ?thesis
        by (simp add: typeParameterString_def typeParameterClause_def nullish_def)
    next
      case td: False
      from unset [OF td d] f rc name tc td spec show ?thesis
        by (simp add: typeParameterString_def typeParameterClause_def nullish_def)
    qed
  next
    case tc: False
    note c' = unset [OF tc c]
    show ?thesis
    proof (cases "truthy d")
      case td: True
      from set [OF td d] obtain rd sd where rd: "typeToString d = Inr rd" "toStr rd = Inr sd"
        "dflt = Some sd" by blast
      from td n have name: "toStr n = Inr name" by simp
      with f rd c' tc td spec show ?thesis
        by (simp add: typeParameterString_def typeParameterClause_def nullish_def)
    next
      case td: False
      from unset [OF td d] f c' n tc td spec show ?thesis
        by (auto simp: typeParameterString_def typeParameterClause_def split: if_splits)
    qed
  qed
qed

lemma mapE_typeParameterString:
  "mapE typeParameterOf tps = Inr specs \<Longrightarrow>
     \<exists>rs. mapE typeParameterString tps = Inr rs \<and>
          mapE (\<lambda>x. if nullish x then Inr [] else toStr x) rs
            = Inr (map typeParameterClause specs)"
proof (induction tps arbitrary: specs)
  case Nil
  then show ?case by simp
next
  case (Cons tp tps)
  from Cons.prems obtain spec specs' where s: "typeParameterOf tp = Inr spec"
    and m: "mapE typeParameterOf tps = Inr specs'" and e: "specs = spec # specs'"
    by (auto simp: bindE_eq_Inr)
  from typeParameterString_clause [OF s] obtain r where
    "typeParameterString tp = Inr r"
    "(if nullish r then Inr [] else toStr r) = Inr (typeParameterClause spec)" by blast
  moreover from Cons.IH [OF m] obtain rs where
    "mapE typeParameterString tps = Inr rs"
    "mapE (\<lambda>x. if nullish x then Inr [] else toStr x) rs = Inr (map typeParameterClause specs')"
    by blast
  ultimately show ?case using e by simp
qed

lemma buildTypeParameterString_clause:
  assumes "listOf typeParameterOf v = Inr specs"
  shows "buildTypeParameterString v = Inr (typeParameterList specs)"
proof (cases "truthy v")
  case False
  with assms show ?thesis
    by (simp add: listOf_def buildTypeParameterString_def typeParameterList_def)
next
  case True
  with assms obtain tps where v: "v = JArr tps" and m: "mapE typeParameterOf tps = Inr specs"
    by (auto simp: listOf_def dest: arrayMap_Inr)
  show ?thesis
  proof (cases tps)
    case Nil
    with v m show ?thesis by (simp add: buildTypeParameterString_def typeParameterList_def)
  next
    case (Cons q qs)
    with m have ne: "specs \<noteq> []" by (auto simp: bindE_eq_Inr)
    from mapE_typeParameterString [OF m] obtain rs where
      "mapE typeParameterString tps = Inr rs"
      "mapE (\<lambda>x. if nullish x then Inr [] else toStr x) rs = Inr (map typeParameterClause specs)"
      by blast
    then have j: "bindE (mapE typeParameterString tps) (\<lambda>rs.
               bindE (joinE '', '' rs) (\<lambda>params. Inr (''<'' @ params @ ''>'')))
             = Inr (''<'' @ commaSeparated (map typeParameterClause specs) @ ''>'')"
      by (simp only: bindE.simps joinE_def intercalate_commaSeparated)
    from v Cons have "buildTypeParameterString v
        = bindE (mapE typeParameterString tps) (\<lambda>rs.
               bindE (joinE '', '' rs) (\<lambda>params. Inr (''<'' @ params @ ''>'')))"
      by (simp add: buildTypeParameterString_def del: mapE.simps)
    with j ne show ?thesis by (simp add: typeParameterList_def)
  qed
qed

text \<open>
  C4. For every declaration and signature node the signature string is
  \<open>signatureText\<close> of what the nodes hold: the declaration's name, the
  type-parameter clause, the parameter clause in parentheses, \<^verbatim>\<open>": "\<close> and the
  rendered return type. The parameter clause is empty for an absent or empty
  list; otherwise it is the clauses of the parameters joined with \<^verbatim>\<open>", "\<close>,
  and the clause of one parameter is, in this order, \<^verbatim>\<open>...\<close> if the rest flag
  is set, the name, \<^verbatim>\<open>?\<close> if the optional flag is set, \<^verbatim>\<open>": "\<close> and the
  rendered type, and \<^verbatim>\<open>" = "\<close> with the default value if there is one. A flag
  or default is set when its value is truthy. The hypotheses say that the fields
  can be read and rendered: where one of them throws, so does the builder.
\<close>

theorem signature_format:
  assumes "bindE (get decl ''name'') toStr = Inr name"
    and "bindE (get sig ''typeParameters'') (listOf typeParameterOf) = Inr typeParams"
    and "bindE (get sig ''parameters'') (listOf parameterOf) = Inr params"
    and "bindE (get sig ''type'') renderedType = Inr returnType"
  shows "buildSignatureString decl sig = Inr (signatureText name typeParams params returnType)"
proof -
  from assms(1) obtain n where n: "get decl ''name'' = Inr n" "toStr n = Inr name"
    by (auto simp: bindE_eq_Inr)
  from assms(2) obtain tps where tps: "get sig ''typeParameters'' = Inr tps"
    "listOf typeParameterOf tps = Inr typeParams" by (auto simp: bindE_eq_Inr)
  from assms(3) obtain ps where ps: "get sig ''parameters'' = Inr ps"
    "listOf parameterOf ps = Inr params" by (auto simp: bindE_eq_Inr)
  from assms(4) obtain t r where t: "get sig ''type'' = Inr t" "typeToString t = Inr r"
    "toStr r = Inr returnType" by (auto simp: bindE_eq_Inr renderedType_def)
  from n tps(1) ps(1) t buildTypeParameterString_clause [OF tps(2)]
    buildParameterString_clause [OF ps(2)]
  show ?thesis by (simp add: buildSignatureString_def signatureText_def)
qed


text \<open>
  A generic function with a constrained, defaulted type parameter and a bare
  one, an optional parameter, a parameter with a default and a rest parameter;
  and the declaration \<open>f\<close> with one parameter \<open>x\<close> of intrinsic type \<open>number\<close>
  and return type \<open>void\<close>.
\<close>

theorem signature_format_witness:
  "buildSignatureString (JObj [(''name'', JStr ''f'')])
     (JObj [(''typeParameters'',
               JArr [JObj [(''name'', JStr ''T''),
                           (''type'', JObj [(''type'', JStr ''intrinsic''), (''name'', JStr ''object'')]),
                           (''default'', JObj [(''type'', JStr ''intrinsic''), (''name'', JStr ''any'')])],
                     JObj [(''name'', JStr ''U'')]]),
            (''parameters'',
               JArr [JObj [(''name'', JStr ''a''),
                           (''type'', JObj [(''type'', JStr ''reference''), (''name'', JStr ''T'')]),
                           (''flags'', JObj [(''isOptional'', JBool True)])],
                     JObj [(''name'', JStr ''b''),
                           (''type'', JObj [(''type'', JStr ''intrinsic''), (''name'', JStr ''number'')]),
                           (''defaultValue'', JStr ''1'')],
                     JObj [(''name'', JStr ''rest''),
                           (''type'', JObj [(''type'', JStr ''array''),
                              (''elementType'',
                                 JObj [(''type'', JStr ''intrinsic''), (''name'', JStr ''string'')])]),
                           (''flags'', JObj [(''isRest'', JBool True)])]]),
            (''type'', JObj [(''type'', JStr ''intrinsic''), (''name'', JStr ''void'')])])
   = Inr ''f<T extends object = any, U>(a?: T, b: number = 1, ...rest: string[]): void'' \<and>
   buildSignatureString (JObj [(''name'', JStr ''f'')])
     (JObj [(''parameters'',
               JArr [JObj [(''name'', JStr ''x''),
                           (''type'', JObj [(''type'', JStr ''intrinsic''), (''name'', JStr ''number'')]),
                           (''flags'', JObj [(''isOptional'', JBool False), (''isRest'', JBool False)])]]),
            (''type'', JObj [(''type'', JStr ''intrinsic''), (''name'', JStr ''void'')])])
   = Inr ''f(x: number): void''"
proof -
  let ?decl = "JObj [(''name'', JStr ''f'')]"
  let ?void = "JObj [(''type'', JStr ''intrinsic''), (''name'', JStr ''void'')]"
  let ?num = "JObj [(''type'', JStr ''intrinsic''), (''name'', JStr ''number'')]"
  let ?T = "JObj [(''name'', JStr ''T''),
                  (''type'', JObj [(''type'', JStr ''intrinsic''), (''name'', JStr ''object'')]),
                  (''default'', JObj [(''type'', JStr ''intrinsic''), (''name'', JStr ''any'')])]"
  let ?U = "JObj [(''name'', JStr ''U'')]"
  let ?a = "JObj [(''name'', JStr ''a''),
                  (''type'', JObj [(''type'', JStr ''reference''), (''name'', JStr ''T'')]),
                  (''flags'', JObj [(''isOptional'', JBool True)])]"
  let ?b = "JObj [(''name'', JStr ''b''), (''type'', ?num), (''defaultValue'', JStr ''1'')]"
  let ?rest = "JObj [(''name'', JStr ''rest''),
                     (''type'', JObj [(''type'', JStr ''array''),
                        (''elementType'',
                           JObj [(''type'', JStr ''intrinsic''), (''name'', JStr ''string'')])]),
                     (''flags'', JObj [(''isRest'', JBool True)])]"
  let ?sig = "JObj [(''typeParameters'', JArr [?T, ?U]), (''parameters'', JArr [?a, ?b, ?rest]),
                    (''type'', ?void)]"
  let ?x = "JObj [(''name'', JStr ''x''), (''type'', ?num),
                  (''flags'', JObj [(''isOptional'', JBool False), (''isRest'', JBool False)])]"
  let ?sig' = "JObj [(''parameters'', JArr [?x]), (''type'', ?void)]"
  let ?tps = "[\<lparr>tp_name = ''T'', tp_constraint = Some ''object'', tp_default = Some ''any''\<rparr>,
               \<lparr>tp_name = ''U'', tp_constraint = None, tp_default = None\<rparr>]"
  let ?ps = "[\<lparr>ps_rest = False, ps_name = ''a'', ps_optional = True, ps_type = ''T'',
                ps_default = None\<rparr>,
              \<lparr>ps_rest = False, ps_name = ''b'', ps_optional = False, ps_type = ''number'',
                ps_default = Some ''1''\<rparr>,
              \<lparr>ps_rest = True, ps_name = ''rest'', ps_optional = False, ps_type = ''string[]'',
                ps_default = None\<rparr>]"
  let ?ps' = "[\<lparr>ps_rest = False, ps_name = ''x'', ps_optional = False, ps_type = ''number'',
                 ps_default = None\<rparr>]"
  have n: "bindE (get ?decl ''name'') toStr = Inr ''f''" by code_simp
  have 1: "bindE (get ?sig ''typeParameters'') (listOf typeParameterOf) = Inr ?tps" by code_simp
  have 2: "bindE (get ?sig ''parameters'') (listOf parameterOf) = Inr ?ps" by code_simp
  have 3: "bindE (get ?sig ''type'') renderedType = Inr ''void''" by code_simp
  have 4: "signatureText ''f'' ?tps ?ps ''void''
             = ''f<T extends object = any, U>(a?: T, b: number = 1, ...rest: string[]): void''"
    by code_simp
  have 5: "bindE (get ?sig' ''typeParameters'') (listOf typeParameterOf) = Inr []" by code_simp
  have 6: "bindE (get ?sig' ''parameters'') (listOf parameterOf) = Inr ?ps'" by code_simp
  have 7: "bindE (get ?sig' ''type'') renderedType = Inr ''void''" by code_simp
  have 8: "signatureText ''f'' [] ?ps' ''void'' = ''f(x: number): void''" by code_simp
  from signature_format [OF n 1 2 3] signature_format [OF n 5 6 7] show ?thesis
    by (simp only: 4 8)
qed

section \<open>Properties of the extractor\<close>

subsection \<open>Overloads without a return type\<close>

lemma mapE_nth:
  "mapE f xs = Inr ys \<Longrightarrow> length ys = length xs \<and> (\<forall>i < length xs. f (xs ! i) = Inr (ys ! i))"
proof (induction xs arbitrary: ys)
  case Nil
  then show ?case by simp
next
  case (Cons x xs)
  from Cons.prems obtain y ys' where y: "f x = Inr y" and ys': "mapE f xs = Inr ys'"
    and ys: "ys = y # ys'"
    by (auto simp: bindE_eq_Inr)
  from Cons.IH [OF ys'] y ys show ?case
    by (auto simp: nth_Cons split: nat.splits)
qed

lemma buildSignatureString_untyped:
  assumes "buildSignatureString reflection sig = Inr s" and "get sig ''type'' = Inr JUndefined"
  shows "\<exists>prefix. s = prefix @ ''): any''"
proof -
  from assms obtain name typeParamStr paramStr where
    "s = name @ typeParamStr @ ''('' @ paramStr @ ''): '' @ ''any''"
    by (auto simp: buildSignatureString_def bindE_eq_Inr typeToString_falsy)
  then have "s = (name @ typeParamStr @ ''('' @ paramStr) @ ''): any''" by simp
  then show ?thesis by blast
qed

lemma overloadDetail_untyped:
  assumes "overloadDetail reflection sig = Inr record"
    and "get sig ''type'' = Inr JUndefined"
  shows "bindE (get record ''returnType'') (\<lambda>r. get r ''type'') = Inr (JStr ''void'') \<and>
         (\<exists>prefix. get record ''signature'' = Inr (JStr (prefix @ ''): any'')))"
proof -
  from assms(1) obtain name kind signature tps ps ty description ow inh impl summary dd where
    sig: "buildSignatureString reflection sig = Inr signature" and
    ty: "(if truthy JUndefined then typeToString JUndefined else Inr (JStr ''void'')) = Inr ty" and
    rec: "record = JObj [(''name'', name), (''kind'', kind), (''signature'', JStr signature),
                  (''typeParameters'', JArr tps),
                  (''parameters'', JArr ps),
                  (''returnType'',
                     JObj [(''type'', ty), (''typeRaw'', JUndefined), (''description'', description)]),
                  (''overwrites'', ow), (''inheritedFrom'', inh),
                  (''implementationOf'', impl),
                  (''documentation'',
                     JObj [(''summary'', summary), (''description'', dd)])]"
    unfolding overloadDetail_def bindE_eq_Inr assms(2) by auto
  from buildSignatureString_untyped [OF sig assms(2)] rec ty show ?thesis
    by (auto simp: lookup_def)
qed

text \<open>
  C9. For every overload of \<^verbatim>\<open>reflection.signatures\<close> that has no \<^verbatim>\<open>type\<close>
  field, the record \<^verbatim>\<open>extractSignatures\<close> builds for it holds \<^verbatim>\<open>"void"\<close> in
  \<^verbatim>\<open>returnType.type\<close>, while its \<^verbatim>\<open>signature\<close> string, built by
  \<^verbatim>\<open>buildSignatureString\<close>, ends in \<^verbatim>\<open>"): any"\<close>: the two fields of one
  record state different default return types.
\<close>

theorem overload_returnType_disagrees:
  assumes "get reflection ''signatures'' = Inr (JArr sigs)"
    and "extractSignatures reflection = Inr records"
    and "i < length sigs"
    and "get (sigs ! i) ''type'' = Inr JUndefined"
  shows "i < length records \<and>
         bindE (get (records ! i) ''returnType'') (\<lambda>r. get r ''type'') = Inr (JStr ''void'') \<and>
         (\<exists>prefix. get (records ! i) ''signature'' = Inr (JStr (prefix @ ''): any'')))"
proof -
  from assms(1,2) obtain overloads others where
    m: "mapE (overloadDetail reflection) sigs = Inr overloads" and
    r: "records = overloads @ others"
    by (auto simp: extractSignatures_def bindE_eq_Inr pushEach_def)
  from mapE_nth [OF m] assms(3) have len: "i < length overloads"
    and o: "overloadDetail reflection (sigs ! i) = Inr (overloads ! i)" by auto
  from len r have "records ! i = overloads ! i" by (simp add: nth_append)
  with overloadDetail_untyped [OF o assms(4)] len r show ?thesis by simp
qed

text \<open>A function \<open>f\<close> with one overload that has neither parameters nor a
  return type.\<close>

theorem overload_returnType_disagrees_witness:
  "\<exists>records.
     extractSignatures (JObj [(''name'', JStr ''f''),
        (''signatures'', JArr [JObj [(''name'', JStr ''f''), (''kind'', JStr ''CallSignature'')]])])
       = Inr records \<and>
     0 < length records \<and>
     bindE (get (records ! 0) ''returnType'') (\<lambda>r. get r ''type'') = Inr (JStr ''void'') \<and>
     (\<exists>prefix. get (records ! 0) ''signature'' = Inr (JStr (prefix @ ''): any'')))"
proof -
  let ?sig = "JObj [(''name'', JStr ''f''), (''kind'', JStr ''CallSignature'')]"
  let ?r = "JObj [(''name'', JStr ''f''), (''signatures'', JArr [?sig])]"
  let ?records = "[JObj
       [(''name'', JStr ''f''), (''kind'', JStr ''CallSignature''),
        (''signature'', JStr ''f(): any''), (''typeParameters'', JArr []),
        (''parameters'', JArr []),
        (''returnType'',
         JObj [(''type'', JStr ''void''), (''typeRaw'', JUndefined),
               (''description'', JUndefined)]),
        (''overwrites'', JUndefined), (''inheritedFrom'', JUndefined),
        (''implementationOf'', JUndefined),
        (''documentation'',
         JObj [(''summary'', JUndefined), (''description'', JUndefined)])]]"
  have 1: "get ?r ''signatures'' = Inr (JArr [?sig])" by (simp add: lookup_def)
  have 2: "extractSignatures ?r = Inr ?records" by code_simp
  have 3: "0 < length [?sig]" by simp
  have 4: "get ([?sig] ! 0) ''type'' = Inr JUndefined" by (simp add: lookup_def)
  from overload_returnType_disagrees [OF 1 2 3 4] 2 show ?thesis by blast
qed

subsection \<open>Search tokens\<close>

lemma hasLength_JStr: "hasLength (JStr s) = Inr (s \<noteq> [])"
  by (auto simp: hasLength_def)

lemma filterE_strings:
  "filterE hasLength (map JStr xs) = Inr (map JStr (filter (\<lambda>t. t \<noteq> []) xs))"
  by (induction xs) (auto simp: hasLength_JStr)

lemma exampleTokens_texts:
  assumes "list_all2 (\<lambda>tag (t, text). get tag ''tag'' = Inr t \<and>
             (isExampleTag t \<longrightarrow> bindE (get tag ''content'') extractCommentParts = Inr text))
           tags tagTexts"
  shows "mapE exampleTokens tags =
     Inr (map (\<lambda>(t, text). if isExampleTag t then map JStr (take 5 (splitWs text)) else [])
            tagTexts)"
  using assms
proof (induction rule: list_all2_induct)
  case Nil
  then show ?case by simp
next
  case (Cons tag tags tt tagTexts)
  obtain t x where tt: "tt = (t, x)" by (cases tt)
  with Cons.hyps(1) have "exampleTokens tag =
      Inr (if isExampleTag t then map JStr (take 5 (splitWs x)) else [])"
    by (auto simp: exampleTokens_def isExampleTag_def bindE_eq_Inr)
  with Cons.IH tt show ?case by simp
qed

lemma concat_example_tokens:
  "concat (map (\<lambda>(t, text). if isExampleTag t then map JStr (take 5 (splitWs text)) else [])
            tagTexts)
   = map JStr (concat (map (\<lambda>(t, text). take 5 (splitWs text))
                        (filter (\<lambda>(t, text). isExampleTag t) tagTexts)))"
  by (induction tagTexts) auto

lemma hasLength_primitive:
  "primitive v \<Longrightarrow> hasLength v = Inr (case v of JStr s \<Rightarrow> s \<noteq> [] | _ \<Rightarrow> False)"
  by (cases v) (auto simp: primitive_def hasLength_def)

lemma filterE_primitive:
  "list_all primitive vs \<Longrightarrow> filterE hasLength vs = Inr (map JStr (nonEmptyStrings vs))"
  by (induction vs) (auto simp: hasLength_primitive nonEmptyStrings_def primitive_def split: jsval.splits)

lemma filterE_append:
  "filterE p xs = Inr xs' \<Longrightarrow> filterE p ys = Inr ys' \<Longrightarrow> filterE p (xs @ ys) = Inr (xs' @ ys')"
  by (induction xs arbitrary: xs') (auto simp: bindE_eq_Inr)

text \<open>
  C7, as amended. For a declaration node with full path \<open>p\<close> whose name and kind,
  like \<open>p\<close>, are primitive values, the search tokens are, in this order: the
  node's name, \<open>p\<close> and its kind, each of the three only if it is a non-empty
  string; the first ten pieces of the rendered summary split at white space;
  and for each \<^verbatim>\<open>@example\<close> or \<^verbatim>\<open>@tutorial\<close> block tag, in the order of the
  tags, the first five pieces of the tag's rendered text split at white space;
  the empty pieces are removed. Nothing is deduplicated and no case is changed.
  The pieces are those of \<^verbatim>\<open>split(/\s+/)\<close>: text that starts or ends with
  white space has an empty first or last piece, which counts among the ten
  (five) before it is removed. A name or kind that is not a string, such as a
  numeric kind, is no token: the filter \<^verbatim>\<open>t && t.length > 0\<close> removes it.
\<close>

theorem searchTokens_order:
  assumes "get reflection ''name'' = Inr name"
    and "get reflection ''kind'' = Inr kind"
    and "primitive name" and "primitive p" and "primitive kind"
    and "bindE (extractDocumentation reflection) (\<lambda>doc. get doc ''summary'') = Inr (JStr summary)"
    and "get reflection ''comment'' = Inr comment"
    and "getOpt comment ''blockTags'' = Inr blockTags"
    and "(\<not> truthy blockTags \<and> tagTexts = []) \<or>
         (\<exists>tags. blockTags = JArr tags \<and>
            list_all2 (\<lambda>tag (t, text). get tag ''tag'' = Inr t \<and>
                 (isExampleTag t \<longrightarrow> bindE (get tag ''content'') extractCommentParts = Inr text))
              tags tagTexts)"
  shows "generateSearchTokens reflection p =
     Inr (map JStr
            (nonEmptyStrings [name, p, kind] @
             filter (\<lambda>t. t \<noteq> [])
               (take 10 (splitWs summary) @
                concat (map (\<lambda>(t, text). take 5 (splitWs text))
                          (filter (\<lambda>(t, text). isExampleTag t) tagTexts)))))"
proof -
  let ?pieces = "take 10 (splitWs summary) @
                concat (map (\<lambda>(t, text). take 5 (splitWs text))
                          (filter (\<lambda>(t, text). isExampleTag t) tagTexts))"
  from assms(6) obtain doc where doc: "extractDocumentation reflection = Inr doc"
    and summary: "get doc ''summary'' = Inr (JStr summary)"
    by (auto simp: bindE_eq_Inr)
  have tt: "(if truthy blockTags
             then bindE (arrayMap exampleTokens blockTags) (\<lambda>tss. Inr (concat tss))
             else Inr [])
        = Inr (map JStr (concat (map (\<lambda>(t, text). take 5 (splitWs text))
                        (filter (\<lambda>(t, text). isExampleTag t) tagTexts))))"
    using assms(9) by (auto simp: exampleTokens_texts concat_example_tokens)
  have front: "filterE hasLength [name, p, kind] = Inr (map JStr (nonEmptyStrings [name, p, kind]))"
    using assms(3-5) by (intro filterE_primitive) simp
  have pieces: "filterE hasLength (map JStr ?pieces) = Inr (map JStr (filter (\<lambda>t. t \<noteq> []) ?pieces))"
    by (rule filterE_strings)
  have all: "filterE hasLength ([name, p, kind] @ map JStr ?pieces)
           = Inr (map JStr (nonEmptyStrings [name, p, kind]) @ map JStr (filter (\<lambda>t. t \<noteq> []) ?pieces))"
    using front pieces by (rule filterE_append)
  have list: "[name, p, kind] @ map JStr (take 10 (splitWs summary)) @
          map JStr (concat (map (\<lambda>(t, text). take 5 (splitWs text))
                        (filter (\<lambda>(t, text). isExampleTag t) tagTexts)))
        = [name, p, kind] @ map JStr ?pieces"
    by simp
  have "generateSearchTokens reflection p = filterE hasLength ([name, p, kind] @ map JStr ?pieces)"
    unfolding generateSearchTokens_def
    by (simp only: assms(1,2,7,8) doc summary tt bindE.simps toStr.simps list)
  with all show ?thesis by simp
qed

text \<open>A function \<open>add\<close> under \<open>math\<close>. Its summary starts with a blank and has
  more than ten pieces, two of them equal and one in upper case; its
  \<^verbatim>\<open>@example\<close> tag has more than five pieces; a \<^verbatim>\<open>@see\<close> tag gives no token
  and a \<^verbatim>\<open>@tutorial\<close> tag does.\<close>

theorem searchTokens_order_witness:
  "generateSearchTokens
     (JObj [(''id'', JNum 1), (''name'', JStr ''add''), (''kind'', JStr ''Function''),
            (''comment'', JObj
               [(''summary'', JArr [JObj [(''kind'', JStr ''text''),
                    (''text'', JStr '' Adds the two  numbers and gives the SUM of both numbers back'')]]),
                (''blockTags'', JArr
                   [JObj [(''tag'', JStr ''@example''),
                          (''content'', JArr [JObj [(''kind'', JStr ''code''),
                               (''text'', JStr ''add(1, 2) // the sum is 3 then'')]])],
                    JObj [(''tag'', JStr ''@see''),
                          (''content'', JArr [JObj [(''kind'', JStr ''text''),
                               (''text'', JStr ''subtract'')]])],
                    JObj [(''tag'', JStr ''@tutorial''),
                          (''content'', JArr [JObj [(''kind'', JStr ''text''),
                               (''text'', JStr ''Getting started'')]])]])])])
     (JStr ''math.add'')
   = Inr (map JStr [''add'', ''math.add'', ''Function'',
                    ''Adds'', ''the'', ''two'', ''numbers'', ''and'', ''gives'', ''the'', ''SUM'', ''of'',
                    ''`add(1,'', ''2)'', ''//'', ''the'', ''sum'',
                    ''Getting'', ''started''])"
proof -
  let ?ex = "JObj [(''tag'', JStr ''@example''),
                   (''content'', JArr [JObj [(''kind'', JStr ''code''),
                        (''text'', JStr ''add(1, 2) // the sum is 3 then'')]])]"
  let ?see = "JObj [(''tag'', JStr ''@see''),
                    (''content'', JArr [JObj [(''kind'', JStr ''text''),
                         (''text'', JStr ''subtract'')]])]"
  let ?tut = "JObj [(''tag'', JStr ''@tutorial''),
                    (''content'', JArr [JObj [(''kind'', JStr ''text''),
                         (''text'', JStr ''Getting started'')]])]"
  let ?summary = "'' Adds the two  numbers and gives the SUM of both numbers back''"
  let ?comment = "JObj
               [(''summary'', JArr [JObj [(''kind'', JStr ''text''), (''text'', JStr ?summary)]]),
                (''blockTags'', JArr [?ex, ?see, ?tut])]"
  let ?r = "JObj [(''id'', JNum 1), (''name'', JStr ''add''), (''kind'', JStr ''Function''),
            (''comment'', ?comment)]"
  let ?tts = "[(JStr ''@example'', ''`add(1, 2) // the sum is 3 then`''),
               (JStr ''@see'', []), (JStr ''@tutorial'', ''Getting started'')]"
  have 1: "get ?r ''name'' = Inr (JStr ''add'')" by (simp add: lookup_def)
  have 2: "get ?r ''kind'' = Inr (JStr ''Function'')" by (simp add: lookup_def)
  have 3: "primitive (JStr ''add'')" "primitive (JStr ''math.add'')" "primitive (JStr ''Function'')"
    by (simp_all add: primitive_def)
  have 4: "bindE (extractDocumentation ?r) (\<lambda>doc. get doc ''summary'') = Inr (JStr ?summary)"
    by code_simp
  have 5: "get ?r ''comment'' = Inr ?comment" by (simp add: lookup_def)
  have 6: "getOpt ?comment ''blockTags'' = Inr (JArr [?ex, ?see, ?tut])"
    by (simp add: lookup_def getOpt_def nullish_def)
  have ex: "bindE (get ?ex ''content'') extractCommentParts = Inr ''`add(1, 2) // the sum is 3 then`''"
    by code_simp
  have tut: "bindE (get ?tut ''content'') extractCommentParts = Inr ''Getting started''"
    by code_simp
  have 7: "(\<not> truthy (JArr [?ex, ?see, ?tut]) \<and> ?tts = []) \<or>
         (\<exists>tags. JArr [?ex, ?see, ?tut] = JArr tags \<and>
            list_all2 (\<lambda>tag (t, text). get tag ''tag'' = Inr t \<and>
                 (isExampleTag t \<longrightarrow> bindE (get tag ''content'') extractCommentParts = Inr text))
              tags ?tts)"
    using ex tut by (simp add: lookup_def isExampleTag_def)
  have 8: "nonEmptyStrings [JStr ''add'', JStr ''math.add'', JStr ''Function''] @
           filter (\<lambda>t. t \<noteq> [])
             (take 10 (splitWs ?summary) @
              concat (map (\<lambda>(t, text). take 5 (splitWs text))
                        (filter (\<lambda>(t, text). isExampleTag t) ?tts)))
        = [''add'', ''math.add'', ''Function'',
           ''Adds'', ''the'', ''two'', ''numbers'', ''and'', ''gives'', ''the'', ''SUM'', ''of'',
           ''`add(1,'', ''2)'', ''//'', ''the'', ''sum'',
           ''Getting'', ''started'']"
    by code_simp
  from searchTokens_order [OF 1 2 3 4 5 6 7] show ?thesis
    by (simp only: 8)
qed

text \<open>
  C7 as stated fails for a kind that is not a string. The kind of a reflection in
  TypeDoc's JSON is a number: it has no \<^verbatim>\<open>length\<close>, so the filter removes it and
  the tokens do not contain the kind.
\<close>

theorem searchTokens_numeric_kind_dropped:
  "get (JObj [(''id'', JNum 1), (''name'', JStr ''add''), (''kind'', JNum 64)]) ''kind''
     = Inr (JNum 64) \<and>
   generateSearchTokens (JObj [(''id'', JNum 1), (''name'', JStr ''add''), (''kind'', JNum 64)])
     (JStr ''math.add'')
     = Inr [JStr ''add'', JStr ''math.add'']"
  by code_simp

subsection \<open>Tag categorization\<close>

lemma map_of_append_list:
  "map_of (map (\<lambda>(k, ys). if k = key then (k, ys @ [c]) else (k, ys)) cts) k'
     = (if k' = key then map_option (\<lambda>ys. ys @ [c]) (map_of cts key) else map_of cts k')"
  by (induction cts) auto

lemma pushCustomTag_result:
  assumes "key \<notin> set objectPrototypeNames \<or> map_of cts key \<noteq> None"
  shows "\<exists>cts'. pushCustomTag key content cts = Inr cts' \<and>
           map_of cts' key
             = Some ((case map_of cts key of None \<Rightarrow> [] | Some xs \<Rightarrow> xs) @ [content]) \<and>
           (\<forall>k. k \<noteq> key \<longrightarrow> map_of cts' k = map_of cts k)"
  using assms
  by (auto simp: pushCustomTag_def map_of_append_list map_add_def split: option.splits)

lemma tagStep_param:
  assumes "get tag ''tag'' = Inr (JStr ''@param'')"
    and "get tag ''name'' = Inr name"
    and "get tag ''typeExpression'' = Inr te"
    and "(if truthy te then typeToString te else Inr JUndefined) = Inr ty"
    and "bindE (get tag ''content'') extractCommentParts = Inr description"
  shows "tagStep reflection tags tag =
     Inr (tags\<lparr>paramTags := paramTags tags @
            [JObj [(''paramName'', name), (''type'', ty), (''typeRaw'', te),
                   (''description'', JStr description)]]\<rparr>)"
proof -
  from assms(5) obtain content where "get tag ''content'' = Inr content"
    and "extractCommentParts content = Inr description"
    by (auto simp: bindE_eq_Inr)
  with assms(1-4) show ?thesis by (simp add: tagStep_def)
qed

lemma tagStep_custom:
  assumes "get tag ''tag'' = Inr (JStr t)"
    and "t \<notin> set recognizedBlockTags"
    and "t \<notin> set objectPrototypeNames \<or> map_of (customTags tags) t \<noteq> None"
    and "bindE (get tag ''content'') extractCommentParts = Inr rendered"
  shows "\<exists>cts. tagStep reflection tags tag = Inr (tags\<lparr>customTags := cts\<rparr>) \<and>
           map_of cts t
             = Some ((case map_of (customTags tags) t of None \<Rightarrow> [] | Some xs \<Rightarrow> xs)
                      @ [JStr rendered]) \<and>
           (\<forall>k. k \<noteq> t \<longrightarrow> map_of cts k = map_of (customTags tags) k)"
proof -
  from assms(4) obtain content where c: "get tag ''content'' = Inr content"
    and r: "extractCommentParts content = Inr rendered"
    by (auto simp: bindE_eq_Inr)
  from pushCustomTag_result [OF assms(3), of "JStr rendered"] obtain cts where
    p: "pushCustomTag t (JStr rendered) (customTags tags) = Inr cts" and
    m: "map_of cts t = Some ((case map_of (customTags tags) t of None \<Rightarrow> [] | Some xs \<Rightarrow> xs)
                      @ [JStr rendered])" and
    o: "\<forall>k. k \<noteq> t \<longrightarrow> map_of cts k = map_of (customTags tags) k"
    by blast
  from assms(1,2) c r p have "tagStep reflection tags tag = Inr (tags\<lparr>customTags := cts\<rparr>)"
    by (simp add: tagStep_def recognizedBlockTags_def)
  with m o show ?thesis by blast
qed

text \<open>
  C5. A \<^verbatim>\<open>@param\<close> tag goes under \<^verbatim>\<open>paramTags\<close> with its name (\<open>tagStep_param\<close>), and
  a tag with an unrecognized name goes under \<^verbatim>\<open>customTags\<close>, keyed by that name, its
  rendered content appended to the key's list (\<open>tagStep_custom\<close>), unless the name
  is the name of a member of \<^verbatim>\<open>Object.prototype\<close>. For such a name the read
  \<^verbatim>\<open>tags.customTags[tag.tag]\<close> of the fresh object \<^verbatim>\<open>{}\<close> finds the inherited
  member, the list is never created, and \<^verbatim>\<open>push\<close> is called on a value that has
  none: the extraction of the whole node throws. The tag \<^verbatim>\<open>constructor\<close> is
  rejected, the tag \<^verbatim>\<open>@constructor\<close> is accepted.
\<close>

theorem customTag_inherited_name:
  "extractAllTags (JObj [(''comment'', JObj [(''blockTags'',
      JArr [JObj [(''tag'', JStr ''constructor''),
                  (''content'', JArr [JObj [(''kind'', JStr ''text''), (''text'', JStr ''x'')]])]])])])
     = Inl TypeError \<and>
   extractAllTags (JObj [(''comment'', JObj [(''blockTags'',
      JArr [JObj [(''tag'', JStr ''@constructor''),
                  (''content'', JArr [JObj [(''kind'', JStr ''text''), (''text'', JStr ''x'')]])]])])])
     = Inr (emptyTags\<lparr>customTags := [(''@constructor'', [JStr ''x''])]\<rparr>)"
  by code_simp

section \<open>Properties of the processor\<close>

subsection \<open>Fault isolation in the tree walk\<close>

lemma processList_Cons:
  "processList (r # rest) path w =
     (case tryBody r path w of
        (w', Returned) \<Rightarrow> processList rest path w'
      | (w', Thrown e) \<Rightarrow>
          (case bindE (get r ''name'') toStr of
             Inl e' \<Rightarrow> (w', Thrown e')
           | Inr name \<Rightarrow> processList rest path (w'\<lparr>warnings := warnings w' @ [(name, e)]\<rparr>)))"
  unfolding tryBody_def childrenToWalk_def by (rule processList.simps)

lemma appendW_assoc: "appendW (appendW a b) c = appendW a (appendW b c)"
  by (simp add: appendW_def)

lemma appendW_empty [simp]: "appendW emptyWalker w = w" "appendW w emptyWalker = w"
  by (simp_all add: appendW_def emptyWalker_def)

lemma extend_extend: "extend a (extend b r) = extend (appendW a b) r"
  by (simp add: extend_def appendW_assoc)

lemma extend_empty [simp]: "extend emptyWalker r = r"
  by (simp add: extend_def)

lemma push_doc: "w\<lparr>allDocs := allDocs w @ [d]\<rparr> = appendW w \<lparr>allDocs = [d], warnings = []\<rparr>"
  by (simp add: appendW_def)

lemma push_warning:
  "w\<lparr>warnings := warnings w @ [x]\<rparr> = appendW w \<lparr>allDocs = [], warnings = [x]\<rparr>"
  by (simp add: appendW_def)

lemma weight_sum_pos: "rs \<noteq> [] \<Longrightarrow> 0 < sum_list (map weight rs)"
  by (cases rs) (auto simp: weight_pos)

lemma processList_frame_aux:
  "sum_list (map weight rs) \<le> n \<Longrightarrow>
     processList rs path w = extend w (processList rs path emptyWalker)"
proof (induction n arbitrary: rs path w)
  case 0
  have "rs = []"
  proof (cases rs)
    case (Cons r rest)
    with "0.prems" weight_pos [of r] show ?thesis by simp
  qed simp
  then show ?case by (simp add: processList.simps extend_def)
next
  case (Suc n)
  show ?case
  proof (cases rs)
    case Nil
    then show ?thesis by (simp add: processList.simps extend_def)
  next
    case (Cons r rest)
    have rest_le: "sum_list (map weight rest) \<le> n"
      using Suc.prems Cons weight_pos [of r] by simp
    have IHrest: "\<And>v. processList rest path v = extend v (processList rest path emptyWalker)"
      using Suc.IH [OF rest_le] .
    have body: "tryBody r path v = extend v (tryBody r path emptyWalker)" for v
    proof (cases "extractAllDocumentation r path")
      case (Inl e)
      then show ?thesis by (simp add: tryBody_def extend_def)
    next
      case (Inr doc)
      show ?thesis
      proof (cases "childrenToWalk r")
        case (Inl e)
        with Inr show ?thesis
          by (simp add: tryBody_def extend_def appendW_def emptyWalker_def)
      next
        case kids: (Inr k)
        show ?thesis
        proof (cases k)
          case None
          with Inr kids show ?thesis
            by (simp add: tryBody_def extend_def appendW_def emptyWalker_def)
        next
          case (Some cs)
          with kids have "sum_list (map weight cs) < weight r"
            unfolding childrenToWalk_def by (rule_tac weight_walk) simp
          with Suc.prems Cons have cs_le: "sum_list (map weight cs) \<le> n" by simp
          have IHcs: "\<And>p v. processList cs p v = extend v (processList cs p emptyWalker)"
            using Suc.IH [OF cs_le] .
          have "tryBody r path v
                  = processList cs (doc_fullPath doc) (appendW v \<lparr>allDocs = [doc], warnings = []\<rparr>)"
            using Inr kids Some by (simp add: tryBody_def push_doc)
          also have "\<dots> = extend (appendW v \<lparr>allDocs = [doc], warnings = []\<rparr>)
                             (processList cs (doc_fullPath doc) emptyWalker)"
            by (rule IHcs)
          also have "\<dots> = extend v (extend \<lparr>allDocs = [doc], warnings = []\<rparr>
                             (processList cs (doc_fullPath doc) emptyWalker))"
            by (simp add: extend_extend)
          also have "extend \<lparr>allDocs = [doc], warnings = []\<rparr>
                             (processList cs (doc_fullPath doc) emptyWalker)
                     = processList cs (doc_fullPath doc) \<lparr>allDocs = [doc], warnings = []\<rparr>"
            by (rule IHcs [symmetric])
          also have "\<dots> = tryBody r path emptyWalker"
            using Inr kids Some by (simp add: tryBody_def emptyWalker_def)
          finally show ?thesis .
        qed
      qed
    qed
    obtain w0 out0 where b0: "tryBody r path emptyWalker = (w0, out0)"
      by (cases "tryBody r path emptyWalker")
    then have bw: "tryBody r path w = (appendW w w0, out0)"
      using body [of w] by (simp add: extend_def)
    show ?thesis
    proof (cases out0)
      case Returned
      have "processList rs path w = processList rest path (appendW w w0)"
        using Cons bw Returned by (simp add: processList_Cons)
      also have "\<dots> = extend (appendW w w0) (processList rest path emptyWalker)"
        by (rule IHrest)
      also have "\<dots> = extend w (extend w0 (processList rest path emptyWalker))"
        by (simp add: extend_extend)
      also have "extend w0 (processList rest path emptyWalker) = processList rest path w0"
        by (rule IHrest [symmetric])
      also have "\<dots> = processList rs path emptyWalker"
        using Cons b0 Returned by (simp add: processList_Cons)
      finally show ?thesis .
    next
      case (Thrown e)
      show ?thesis
      proof (cases "bindE (get r ''name'') toStr")
        case (Inl e')
        with Cons bw b0 Thrown show ?thesis
          by (simp add: processList_Cons extend_def)
      next
        case (Inr name)
        let ?warn = "\<lparr>allDocs = [], warnings = [(name, e)]\<rparr>"
        have "processList rs path w = processList rest path (appendW (appendW w w0) ?warn)"
          using Cons bw Thrown Inr by (simp add: processList_Cons push_warning)
        also have "\<dots> = extend (appendW (appendW w w0) ?warn) (processList rest path emptyWalker)"
          by (rule IHrest)
        also have "\<dots> = extend w (extend (appendW w0 ?warn) (processList rest path emptyWalker))"
          by (simp add: extend_extend appendW_assoc)
        also have "extend (appendW w0 ?warn) (processList rest path emptyWalker)
                     = processList rest path (appendW w0 ?warn)"
          by (rule IHrest [symmetric])
        also have "\<dots> = processList rs path emptyWalker"
          using Cons b0 Thrown Inr by (simp add: processList_Cons push_warning)
        finally show ?thesis .
      qed
    qed
  qed
qed

lemma processList_frame:
  "processList rs path w = extend w (processList rs path emptyWalker)"
  by (rule processList_frame_aux [OF order_refl])

lemma processList_failing:
  assumes "extractAllDocumentation b path = Inl e" and "bindE (get b ''name'') toStr = Inr name"
  shows "processList (b # rest) path w
           = processList rest path (w\<lparr>warnings := warnings w @ [(name, e)]\<rparr>)"
  using assms by (simp add: processList_Cons tryBody_def)

lemma processList_append:
  "processList (xs @ ys) path w =
     (case processList xs path w of
        (w', Returned) \<Rightarrow> processList ys path w'
      | (w', Thrown e) \<Rightarrow> (w', Thrown e))"
proof (induction xs arbitrary: w)
  case Nil
  then show ?case by (simp add: processList.simps)
next
  case (Cons x xs)
  then show ?case
    by (auto simp: processList_Cons split: prod.splits outcome.splits sum.splits)
qed

lemma processList_single:
  assumes "extractAllDocumentation c path = Inr docC"
  shows "childrenToWalk c = Inr None \<Longrightarrow>
           processList [c] path emptyWalker = (\<lparr>allDocs = [docC], warnings = []\<rparr>, Returned)"
    and "childrenToWalk c = Inr (Some cs) \<Longrightarrow>
         processList cs (doc_fullPath docC) emptyWalker = (wk, Returned) \<Longrightarrow>
           processList [c] path emptyWalker
             = (\<lparr>allDocs = docC # allDocs wk, warnings = warnings wk\<rparr>, Returned)"
proof -
  assume "childrenToWalk c = Inr None"
  with assms show "processList [c] path emptyWalker = (\<lparr>allDocs = [docC], warnings = []\<rparr>, Returned)"
    by (simp add: processList_Cons tryBody_def processList.simps(1) emptyWalker_def)
next
  assume k: "childrenToWalk c = Inr (Some cs)"
    and w: "processList cs (doc_fullPath docC) emptyWalker = (wk, Returned)"
  have "processList cs (doc_fullPath docC) \<lparr>allDocs = [docC], warnings = []\<rparr>
          = extend \<lparr>allDocs = [docC], warnings = []\<rparr> (wk, Returned)"
    using processList_frame [of cs "doc_fullPath docC" "\<lparr>allDocs = [docC], warnings = []\<rparr>"] w
    by simp
  with assms k show "processList [c] path emptyWalker
             = (\<lparr>allDocs = docC # allDocs wk, warnings = warnings wk\<rparr>, Returned)"
    by (simp add: processList_Cons tryBody_def processList.simps(1) emptyWalker_def
        extend_def appendW_def)
qed

text \<open>
  Fault isolation for a failing node whose name can be read and printed. When
  the extraction of such a node raises an error, the walker catches it, reports
  one warning that names the node, adds no record for the node, does not descend
  into its children, and goes on with the node's siblings (first conjunct). For
  three siblings of which the second fails, the output is the records of the
  walk of the first followed by those of the walk of the third, and the warnings
  of the first walk, one warning for the second node and the warnings of the
  third walk (second conjunct); the walk of a node whose extraction succeeds
  gives its record followed by the records of its children (third conjunct).
\<close>

lemma processList_fault_isolation:
  assumes "extractAllDocumentation b path = Inl e"
    and "bindE (get b ''name'') toStr = Inr name"
  shows "processList (b # rest) path w
           = processList rest path (w\<lparr>warnings := warnings w @ [(name, e)]\<rparr>) \<and>
         (\<forall>a c wa wc out.
            processList [a] path emptyWalker = (wa, Returned) \<and>
            processList [c] path emptyWalker = (wc, out) \<longrightarrow>
            processList [a, b, c] path emptyWalker
              = (\<lparr>allDocs = allDocs wa @ allDocs wc,
                  warnings = warnings wa @ [(name, e)] @ warnings wc\<rparr>, out)) \<and>
         (\<forall>c docC. extractAllDocumentation c path = Inr docC \<longrightarrow>
            (childrenToWalk c = Inr None \<longrightarrow>
               processList [c] path emptyWalker
                 = (\<lparr>allDocs = [docC], warnings = []\<rparr>, Returned)) \<and>
            (\<forall>cs wk. childrenToWalk c = Inr (Some cs) \<and>
               processList cs (doc_fullPath docC) emptyWalker = (wk, Returned) \<longrightarrow>
               processList [c] path emptyWalker
                 = (\<lparr>allDocs = docC # allDocs wk, warnings = warnings wk\<rparr>, Returned)))"
proof (intro conjI allI impI)
  show "processList (b # rest) path w
           = processList rest path (w\<lparr>warnings := warnings w @ [(name, e)]\<rparr>)"
    using assms by (rule processList_failing)
next
  fix a c wa wc out
  assume h: "processList [a] path emptyWalker = (wa, Returned) \<and>
             processList [c] path emptyWalker = (wc, out)"
  have "processList [a, b, c] path emptyWalker
          = processList (b # [c]) path wa"
    using processList_append [of "[a]" "[b, c]" path emptyWalker] h by simp
  also have "\<dots> = processList [c] path (wa\<lparr>warnings := warnings wa @ [(name, e)]\<rparr>)"
    using assms by (rule processList_failing)
  also have "\<dots> = extend (wa\<lparr>warnings := warnings wa @ [(name, e)]\<rparr>) (wc, out)"
    using processList_frame [of "[c]" path "wa\<lparr>warnings := warnings wa @ [(name, e)]\<rparr>"] h
    by simp
  finally show "processList [a, b, c] path emptyWalker
              = (\<lparr>allDocs = allDocs wa @ allDocs wc,
                  warnings = warnings wa @ [(name, e)] @ warnings wc\<rparr>, out)"
    by (simp add: extend_def appendW_def)
next
  fix c docC
  assume "extractAllDocumentation c path = Inr docC" and "childrenToWalk c = Inr None"
  then show "processList [c] path emptyWalker = (\<lparr>allDocs = [docC], warnings = []\<rparr>, Returned)"
    by (rule processList_single(1))
next
  fix c docC cs wk
  assume "extractAllDocumentation c path = Inr docC"
    and "childrenToWalk c = Inr (Some cs) \<and>
         processList cs (doc_fullPath docC) emptyWalker = (wk, Returned)"
  then show "processList [c] path emptyWalker
                 = (\<lparr>allDocs = docC # allDocs wk, warnings = warnings wk\<rparr>, Returned)"
    using processList_single(2) by blast
qed

text \<open>Three siblings \<open>a\<close>, \<open>b\<close>, \<open>c\<close>; \<open>b\<close> has no \<^verbatim>\<open>id\<close>, so
  \<^verbatim>\<open>reflection.id.toString()\<close> throws; \<open>c\<close> has one child \<open>d\<close>.\<close>

lemma processList_three_siblings:
  "extractAllDocumentation (JObj [(''name'', JStr ''b''), (''kind'', JStr ''Function'')]) (JStr [])
     = Inl TypeError \<and>
   (case processList
      [JObj [(''id'', JNum 1), (''name'', JStr ''a''), (''kind'', JStr ''Function'')],
       JObj [(''name'', JStr ''b''), (''kind'', JStr ''Function'')],
       JObj [(''id'', JNum 3), (''name'', JStr ''c''), (''kind'', JStr ''Class''),
             (''children'', JArr [JObj [(''id'', JNum 4), (''name'', JStr ''d''),
                                        (''kind'', JStr ''Property'')]])]]
      (JStr []) emptyWalker of
      (w, out) \<Rightarrow> (map doc_id (allDocs w), map doc_fullPath (allDocs w), warnings w, out))
   = ([JStr ''1'', JStr ''3'', JStr ''4''], [JStr ''a'', JStr ''c'', JStr ''c.d''],
      [(''b'', TypeError)], Returned)"
proof -
  let ?a = "JObj [(''id'', JNum 1), (''name'', JStr ''a''), (''kind'', JStr ''Function'')]"
  let ?b = "JObj [(''name'', JStr ''b''), (''kind'', JStr ''Function'')]"
  let ?c = "JObj [(''id'', JNum 3), (''name'', JStr ''c''), (''kind'', JStr ''Class''),
             (''children'', JArr [JObj [(''id'', JNum 4), (''name'', JStr ''d''),
                                        (''kind'', JStr ''Property'')]])]"
  let ?pa = "processList [?a] (JStr []) emptyWalker"
  let ?pc = "processList [?c] (JStr []) emptyWalker"
  have b1: "extractAllDocumentation ?b (JStr []) = Inl TypeError" by code_simp
  have b2: "bindE (get ?b ''name'') toStr = Inr ''b''" by code_simp
  have "snd ?pa = Returned" by code_simp
  then have a: "?pa = (fst ?pa, Returned)" by (metis prod.collapse)
  have c: "?pc = (fst ?pc, snd ?pc)" by simp
  from processList_fault_isolation [OF b1 b2, THEN conjunct2, THEN conjunct1] a c
  have abc: "processList [?a, ?b, ?c] (JStr []) emptyWalker
          = (\<lparr>allDocs = allDocs (fst ?pa) @ allDocs (fst ?pc),
              warnings = warnings (fst ?pa) @ [(''b'', TypeError)] @ warnings (fst ?pc)\<rparr>, snd ?pc)"
    by blast
  have 1: "map doc_id (allDocs (fst ?pa)) = [JStr ''1'']" by code_simp
  have 2: "map doc_id (allDocs (fst ?pc)) = [JStr ''3'', JStr ''4'']" by code_simp
  have 3: "map doc_fullPath (allDocs (fst ?pa)) = [JStr ''a'']" by code_simp
  have 4: "map doc_fullPath (allDocs (fst ?pc)) = [JStr ''c'', JStr ''c.d'']" by code_simp
  have 5: "warnings (fst ?pa) = []" by code_simp
  have 6: "warnings (fst ?pc) = []" by code_simp
  have 7: "snd ?pc = Returned" by code_simp
  show ?thesis
    unfolding abc by (simp add: b1 1 2 3 4 5 6 7)
qed

text \<open>
  C2. When the extraction of a node raises an error, the walker is to catch it,
  report one warning that names the node, leave the node and its subtree out and
  go on with the siblings. The code does so for a failing node whose name can be
  read (second conjunct: of the siblings \<open>a\<close>, \<open>b\<close>, \<open>c\<close>, where \<open>b\<close> has no
  \<^verbatim>\<open>id\<close>, the records are those of \<open>a\<close> and \<open>c\<close>, with one warning for
  \<open>b\<close>). It does not for an entry of the forest that is \<^verbatim>\<open>null\<close>: the warning
  is built from \<^verbatim>\<open>reflection.name\<close> inside the \<^verbatim>\<open>catch\<close> block, so after the
  extraction has thrown, the read of \<^verbatim>\<open>reflection.name\<close> throws again, outside
  the \<^verbatim>\<open>try\<close>. No warning is reported, the loop over the siblings ends and the
  error leaves \<^verbatim>\<open>processReflections\<close>: of the siblings \<open>a\<close>, \<^verbatim>\<open>null\<close>, \<open>c\<close>
  only \<open>a\<close> is recorded (first conjunct).
\<close>

theorem walker_null_entry_aborts:
  "(case processReflections
      (JArr [JObj [(''id'', JNum 1), (''name'', JStr ''a''), (''kind'', JStr ''Function'')],
             JNull,
             JObj [(''id'', JNum 3), (''name'', JStr ''c''), (''kind'', JStr ''Class'')]])
      (JStr []) emptyWalker of
      (w, out) \<Rightarrow> (map doc_fullPath (allDocs w), warnings w, out))
   = ([JStr ''a''], [], Thrown TypeError) \<and>
   (case processReflections
      (JArr [JObj [(''id'', JNum 1), (''name'', JStr ''a''), (''kind'', JStr ''Function'')],
             JObj [(''name'', JStr ''b''), (''kind'', JStr ''Function'')],
             JObj [(''id'', JNum 3), (''name'', JStr ''c''), (''kind'', JStr ''Class'')]])
      (JStr []) emptyWalker of
      (w, out) \<Rightarrow> (map doc_fullPath (allDocs w), warnings w, out))
   = ([JStr ''a'', JStr ''c''], [(''b'', TypeError)], Returned)"
  by code_simp

subsection \<open>The search index\<close>

lemma map_of_setProp: "map_of (setProp k v index) = (map_of index)(k \<mapsto> v)"
  by (induction index) auto

lemma token_not_inherited: "''token:'' @ k \<notin> set objectPrototypeNames"
  by (simp add: objectPrototypeNames_def)

lemma tokenKeysOk_lookup:
  "tokenKeysOk index \<Longrightarrow>
     map_of index (''token:'' @ k)
       = (if tokenList index k = [] then None else Some (JArr (tokenList index k)))"
proof (cases "map_of index (''token:'' @ k)")
  case None
  then show ?thesis by (simp add: tokenList_def)
next
  case (Some v)
  assume "tokenKeysOk index"
  with Some obtain ids where "v = JArr ids" and "ids \<noteq> []"
    unfolding tokenKeysOk_def by blast
  with Some show ?thesis by (simp add: tokenList_def)
qed

lemma pushIndex_token:
  assumes "tokenKeysOk index"
  shows "\<exists>index'. pushIndex (''token:'' @ k) i index = Inr index' \<and>
           map_of index' = (map_of index)(''token:'' @ k \<mapsto> JArr (tokenList index k @ [i]))"
proof (cases "map_of index (''token:'' @ k)")
  case None
  then show ?thesis
    using token_not_inherited [of k]
    by (simp add: pushIndex_def map_of_setProp tokenList_def)
next
  case (Some v)
  with assms obtain ids where "v = JArr ids" unfolding tokenKeysOk_def by blast
  with Some show ?thesis
    by (simp add: pushIndex_def map_of_setProp tokenList_def)
qed

lemma token_loop:
  assumes "tokenKeysOk index" and "list_all isString tokens"
  shows "\<exists>index'.
     foldE (\<lambda>idx token. bindE (toLowerCase token) (\<lambda>lower. pushIndex (''token:'' @ lower) i idx))
       index tokens = Inr index' \<and>
     tokenKeysOk index' \<and>
     (\<forall>k. tokenList index' k
            = tokenList index k @ map (\<lambda>t. i) (filter (\<lambda>t. toLowerCase t = Inr k) tokens)) \<and>
     (\<forall>key. (\<forall>k. key \<noteq> ''token:'' @ k) \<longrightarrow> map_of index' key = map_of index key)"
  using assms
proof (induction tokens arbitrary: index)
  case Nil
  then show ?case by simp
next
  case (Cons t ts)
  from Cons.prems(2) have "isString t" and ts: "list_all isString ts" by simp_all
  then obtain s where t: "t = JStr s" by (cases t) (simp_all add: isString_def)
  from pushIndex_token [OF Cons.prems(1), of "map lowerChar s" i] obtain index1 where
    p: "pushIndex (''token:'' @ map lowerChar s) i index = Inr index1" and
    m: "map_of index1
          = (map_of index)(''token:'' @ map lowerChar s
               \<mapsto> JArr (tokenList index (map lowerChar s) @ [i]))"
    by blast
  from m Cons.prems(1) have ok1: "tokenKeysOk index1"
    unfolding tokenKeysOk_def by (auto split: if_splits)
  from m have tl1: "tokenList index1 k
       = tokenList index k @ (if map lowerChar s = k then [i] else [])" for k
    by (auto simp: tokenList_def)
  from m have other1: "(\<forall>k. key \<noteq> ''token:'' @ k) \<Longrightarrow> map_of index1 key = map_of index key" for key
    by auto
  from Cons.IH [OF ok1 ts] obtain index' where
    f: "foldE (\<lambda>idx token. bindE (toLowerCase token) (\<lambda>lower. pushIndex (''token:'' @ lower) i idx))
          index1 ts = Inr index'" and
    ok: "tokenKeysOk index'" and
    tl: "\<forall>k. tokenList index' k
            = tokenList index1 k @ map (\<lambda>t. i) (filter (\<lambda>t. toLowerCase t = Inr k) ts)" and
    other: "\<forall>key. (\<forall>k. key \<noteq> ''token:'' @ k) \<longrightarrow> map_of index' key = map_of index1 key"
    by blast
  have "foldE (\<lambda>idx token. bindE (toLowerCase token) (\<lambda>lower. pushIndex (''token:'' @ lower) i idx))
          index (t # ts) = Inr index'"
    using t p f by simp
  moreover have "\<forall>k. tokenList index' k
            = tokenList index k @ map (\<lambda>t. i) (filter (\<lambda>t. toLowerCase t = Inr k) (t # ts))"
    using tl tl1 t by auto
  moreover have "\<forall>key. (\<forall>k. key \<noteq> ''token:'' @ k) \<longrightarrow> map_of index' key = map_of index key"
    using other other1 by simp
  ultimately show ?case using ok by blast
qed

lemma indexDoc_result:
  assumes "tokenKeysOk index" and "indexableDoc d"
  shows "\<exists>index'. indexDoc index d = Inr index' \<and> tokenKeysOk index' \<and>
     (\<forall>k. tokenList index' k
            = tokenList index k
              @ map (\<lambda>t. doc_id d) (filter (\<lambda>t. toLowerCase t = Inr k) (doc_searchTokens d))) \<and>
     (\<forall>i. map_of index' (''id:'' @ i)
            = (if doc_id d = JStr i then Some (indexEntry d) else map_of index (''id:'' @ i))) \<and>
     (\<forall>p. map_of index' (''path:'' @ p)
            = (if doc_fullPath d = JStr p then Some (doc_id d) else map_of index (''path:'' @ p)))"
proof -
  from assms(2) obtain ident fp where ident: "doc_id d = JStr ident"
    and fp: "doc_fullPath d = JStr fp" and toks: "list_all isString (doc_searchTokens d)"
    by (cases "doc_id d"; cases "doc_fullPath d") (auto simp: indexableDoc_def isString_def)
  define index1 where "index1 = setProp (''path:'' @ fp) (doc_id d)
            (setProp (''id:'' @ ident) (indexEntry d) index)"
  have m1: "map_of index1 = (map_of index)(''id:'' @ ident \<mapsto> indexEntry d,
               ''path:'' @ fp \<mapsto> doc_id d)"
    by (simp add: index1_def map_of_setProp)
  have tok1: "map_of index1 (''token:'' @ k) = map_of index (''token:'' @ k)" for k
    by (simp add: m1)
  have ok1: "tokenKeysOk index1"
    using assms(1) unfolding tokenKeysOk_def tok1 .
  have tl1: "tokenList index1 k = tokenList index k" for k
    unfolding tokenList_def tok1 ..
  from token_loop [OF ok1 toks, of "doc_id d"] obtain index' where
    f: "foldE (\<lambda>idx token. bindE (toLowerCase token)
                 (\<lambda>lower. pushIndex (''token:'' @ lower) (doc_id d) idx))
          index1 (doc_searchTokens d) = Inr index'" and
    ok: "tokenKeysOk index'" and
    tl: "\<forall>k. tokenList index' k
            = tokenList index1 k
              @ map (\<lambda>t. doc_id d) (filter (\<lambda>t. toLowerCase t = Inr k) (doc_searchTokens d))" and
    other: "\<forall>key. (\<forall>k. key \<noteq> ''token:'' @ k) \<longrightarrow> map_of index' key = map_of index1 key"
    by blast
  have "indexDoc index d = Inr index'"
    using f ident fp by (simp add: indexDoc_def index1_def indexEntry_def)
  moreover have "map_of index' (''id:'' @ i)
            = (if doc_id d = JStr i then Some (indexEntry d) else map_of index (''id:'' @ i))" for i
    using other [rule_format, of "''id:'' @ i"] ident by (simp add: m1)
  moreover have "map_of index' (''path:'' @ p)
            = (if doc_fullPath d = JStr p then Some (doc_id d) else map_of index (''path:'' @ p))" for p
    using other [rule_format, of "''path:'' @ p"] fp by (simp add: m1)
  ultimately show ?thesis using ok tl tl1 by auto
qed

lemma find_snoc:
  "find P (xs @ [x]) = (case find P xs of None \<Rightarrow> (if P x then Some x else None) | Some y \<Rightarrow> Some y)"
  by (induction xs) auto

lemma index_docs:
  assumes "tokenKeysOk index" and "list_all indexableDoc docs"
  shows "\<exists>index'. foldE indexDoc index docs = Inr index' \<and> tokenKeysOk index' \<and>
     (\<forall>k. tokenList index' k = tokenList index k @ tokenIds docs k) \<and>
     (\<forall>i. map_of index' (''id:'' @ i)
            = (case find (\<lambda>d. doc_id d = JStr i) (rev docs) of
                 Some d \<Rightarrow> Some (indexEntry d) | None \<Rightarrow> map_of index (''id:'' @ i))) \<and>
     (\<forall>p. map_of index' (''path:'' @ p)
            = (case find (\<lambda>d. doc_fullPath d = JStr p) (rev docs) of
                 Some d \<Rightarrow> Some (doc_id d) | None \<Rightarrow> map_of index (''path:'' @ p)))"
  using assms
proof (induction docs arbitrary: index)
  case Nil
  then show ?case by (simp add: tokenIds_def)
next
  case (Cons d docs)
  from Cons.prems(2) have d: "indexableDoc d" and ds: "list_all indexableDoc docs" by simp_all
  from indexDoc_result [OF Cons.prems(1) d] obtain index1 where
    s: "indexDoc index d = Inr index1" and ok1: "tokenKeysOk index1" and
    tl1: "\<forall>k. tokenList index1 k
            = tokenList index k
              @ map (\<lambda>t. doc_id d) (filter (\<lambda>t. toLowerCase t = Inr k) (doc_searchTokens d))" and
    id1: "\<forall>i. map_of index1 (''id:'' @ i)
            = (if doc_id d = JStr i then Some (indexEntry d) else map_of index (''id:'' @ i))" and
    p1: "\<forall>p. map_of index1 (''path:'' @ p)
            = (if doc_fullPath d = JStr p then Some (doc_id d) else map_of index (''path:'' @ p))"
    by blast
  from Cons.IH [OF ok1 ds] obtain index' where
    f: "foldE indexDoc index1 docs = Inr index'" and ok: "tokenKeysOk index'" and
    tl: "\<forall>k. tokenList index' k = tokenList index1 k @ tokenIds docs k" and
    id: "\<forall>i. map_of index' (''id:'' @ i)
            = (case find (\<lambda>d. doc_id d = JStr i) (rev docs) of
                 Some d \<Rightarrow> Some (indexEntry d) | None \<Rightarrow> map_of index1 (''id:'' @ i))" and
    p: "\<forall>p. map_of index' (''path:'' @ p)
            = (case find (\<lambda>d. doc_fullPath d = JStr p) (rev docs) of
                 Some d \<Rightarrow> Some (doc_id d) | None \<Rightarrow> map_of index1 (''path:'' @ p))"
    by blast
  have "foldE indexDoc index (d # docs) = Inr index'" using s f by simp
  moreover have "\<forall>k. tokenList index' k = tokenList index k @ tokenIds (d # docs) k"
    using tl tl1 by (simp add: tokenIds_def)
  moreover have "\<forall>i. map_of index' (''id:'' @ i)
            = (case find (\<lambda>d. doc_id d = JStr i) (rev (d # docs)) of
                 Some d \<Rightarrow> Some (indexEntry d) | None \<Rightarrow> map_of index (''id:'' @ i))"
    using id id1 by (simp add: find_snoc split: option.splits)
  moreover have "\<forall>p. map_of index' (''path:'' @ p)
            = (case find (\<lambda>d. doc_fullPath d = JStr p) (rev (d # docs)) of
                 Some d \<Rightarrow> Some (doc_id d) | None \<Rightarrow> map_of index (''path:'' @ p))"
    using p p1 by (simp add: find_snoc split: option.splits)
  ultimately show ?case using ok by blast
qed

text \<open>
  C3, as amended. For every collection of extracted records whose ids, full paths
  and search tokens are strings, the index is built, and it maps
  \<^verbatim>\<open>"id:" + id\<close> to \<^verbatim>\<open>{name, kind, fullPath}\<close> and \<^verbatim>\<open>"path:" + fullPath\<close> to the id
  of the record with that id or full path (of the last one, when several records
  share it), and \<^verbatim>\<open>"token:" + k\<close> to the list that holds, in record-processing
  order, the id of a record once for each of its search tokens whose lower-case
  form is \<open>k\<close>. A record that holds such a token twice is listed twice; a key
  no token maps to is absent.
\<close>

theorem searchIndex_contents:
  assumes "list_all indexableDoc docs"
  shows "\<exists>index. buildSearchIndex docs = Inr index \<and>
     (\<forall>i. map_of index (''id:'' @ i)
            = map_option indexEntry (find (\<lambda>d. doc_id d = JStr i) (rev docs))) \<and>
     (\<forall>p. map_of index (''path:'' @ p)
            = map_option doc_id (find (\<lambda>d. doc_fullPath d = JStr p) (rev docs))) \<and>
     (\<forall>k. map_of index (''token:'' @ k)
            = (if tokenIds docs k = [] then None else Some (JArr (tokenIds docs k))))"
proof -
  have ok0: "tokenKeysOk []" by (simp add: tokenKeysOk_def)
  from index_docs [OF ok0 assms] obtain index where
    b: "foldE indexDoc [] docs = Inr index" and ok: "tokenKeysOk index" and
    tl: "\<forall>k. tokenList index k = tokenList [] k @ tokenIds docs k" and
    id: "\<forall>i. map_of index (''id:'' @ i)
            = (case find (\<lambda>d. doc_id d = JStr i) (rev docs) of
                 Some d \<Rightarrow> Some (indexEntry d) | None \<Rightarrow> map_of [] (''id:'' @ i))" and
    p: "\<forall>p. map_of index (''path:'' @ p)
            = (case find (\<lambda>d. doc_fullPath d = JStr p) (rev docs) of
                 Some d \<Rightarrow> Some (doc_id d) | None \<Rightarrow> map_of [] (''path:'' @ p))"
    by blast
  from tl have tl': "tokenList index k = tokenIds docs k" for k by (simp add: tokenList_def)
  have "buildSearchIndex docs = Inr index" using b by (simp add: buildSearchIndex_def)
  moreover have "\<forall>i. map_of index (''id:'' @ i)
            = map_option indexEntry (find (\<lambda>d. doc_id d = JStr i) (rev docs))"
    using id by (simp split: option.splits)
  moreover have "\<forall>p. map_of index (''path:'' @ p)
            = map_option doc_id (find (\<lambda>d. doc_fullPath d = JStr p) (rev docs))"
    using p by (simp split: option.splits)
  moreover have "\<forall>k. map_of index (''token:'' @ k)
            = (if tokenIds docs k = [] then None else Some (JArr (tokenIds docs k)))"
    using tokenKeysOk_lookup [OF ok] tl' by simp
  ultimately show ?thesis by blast
qed

text \<open>The index of the one record extracted from a top-level function \<open>Add\<close>.\<close>

theorem searchIndex_contents_witness:
  "\<exists>index.
     buildSearchIndex (allDocs (fst (processList
        [JObj [(''id'', JNum 1), (''name'', JStr ''Add''), (''kind'', JStr ''Function'')]]
        (JStr []) emptyWalker))) = Inr index \<and>
     map_of index ''id:1''
       = Some (JObj [(''name'', JStr ''Add''), (''kind'', JStr ''Function''),
                     (''fullPath'', JStr ''Add'')]) \<and>
     map_of index ''path:Add'' = Some (JStr ''1'') \<and>
     map_of index ''token:add'' = Some (JArr [JStr ''1'', JStr ''1'']) \<and>
     map_of index ''token:function'' = Some (JArr [JStr ''1'']) \<and>
     map_of index ''token:Add'' = None"
proof -
  let ?docs = "allDocs (fst (processList
        [JObj [(''id'', JNum 1), (''name'', JStr ''Add''), (''kind'', JStr ''Function'')]]
        (JStr []) emptyWalker))"
  have ok: "list_all indexableDoc ?docs" by code_simp
  have 1: "map_option indexEntry (find (\<lambda>d. doc_id d = JStr ''1'') (rev ?docs))
             = Some (JObj [(''name'', JStr ''Add''), (''kind'', JStr ''Function''),
                           (''fullPath'', JStr ''Add'')])" by code_simp
  have 2: "map_option doc_id (find (\<lambda>d. doc_fullPath d = JStr ''Add'') (rev ?docs))
             = Some (JStr ''1'')" by code_simp
  have 3: "tokenIds ?docs ''add'' = [JStr ''1'', JStr ''1'']" by code_simp
  have 4: "tokenIds ?docs ''function'' = [JStr ''1'']" by code_simp
  have 5: "tokenIds ?docs ''Add'' = []" by code_simp
  from searchIndex_contents [OF ok] obtain index where
    b: "buildSearchIndex ?docs = Inr index" and
    i: "\<forall>i. map_of index (''id:'' @ i)
            = map_option indexEntry (find (\<lambda>d. doc_id d = JStr i) (rev ?docs))" and
    p: "\<forall>p. map_of index (''path:'' @ p)
            = map_option doc_id (find (\<lambda>d. doc_fullPath d = JStr p) (rev ?docs))" and
    t: "\<forall>k. map_of index (''token:'' @ k)
            = (if tokenIds ?docs k = [] then None else Some (JArr (tokenIds ?docs k)))"
    by blast
  from i [rule_format, of "''1''"] 1 have "map_of index ''id:1''
       = Some (JObj [(''name'', JStr ''Add''), (''kind'', JStr ''Function''),
                     (''fullPath'', JStr ''Add'')])" by simp
  moreover from p [rule_format, of "''Add''"] 2 have "map_of index ''path:Add'' = Some (JStr ''1'')"
    by simp
  moreover from t [rule_format, of "''add''"] 3
  have "map_of index ''token:add'' = Some (JArr [JStr ''1'', JStr ''1''])" by simp
  moreover from t [rule_format, of "''function''"] 4
  have "map_of index ''token:function'' = Some (JArr [JStr ''1''])" by simp
  moreover from t [rule_format, of "''Add''"] 5
  have "map_of index ''token:Add'' = None" by simp
  ultimately show ?thesis using b by blast
qed

text \<open>
  C3 as stated fails for that collection. The name and the full path of a
  top-level record are the same string, so the record holds the token twice and
  its id is pushed twice, while one record holds the token.
\<close>

theorem searchIndex_token_listed_twice:
  "indexLookup (allDocs (fst (processList
        [JObj [(''id'', JNum 1), (''name'', JStr ''Add''), (''kind'', JStr ''Function'')]]
        (JStr []) emptyWalker))) ''token:add''
     = Some (JArr [JStr ''1'', JStr ''1'']) \<and>
   idsOfRecordsContaining (allDocs (fst (processList
        [JObj [(''id'', JNum 1), (''name'', JStr ''Add''), (''kind'', JStr ''Function'')]]
        (JStr []) emptyWalker))) ''add''
     = [JStr ''1'']"
  by code_simp

section \<open>Totality of the type converter\<close>

lemma printable_iff: "printable v \<longleftrightarrow> (\<exists>s. toStr v = Inr s)"
  by (cases "toStr v") (auto simp: printable_def)

lemma mapE_all_strings:
  "(\<forall>x \<in> set xs. \<exists>s. f x = Inr (JStr s)) \<Longrightarrow> \<exists>ss. mapE f xs = Inr (map JStr ss)"
proof (induction xs)
  case Nil
  then show ?case by simp
next
  case (Cons x xs)
  then obtain s ss where "f x = Inr (JStr s)" and "mapE f xs = Inr (map JStr ss)" by auto
  then have "mapE f (x # xs) = Inr (map JStr (s # ss))" by simp
  then show ?case by blast
qed

lemma hasLength_JArr: "hasLength (JArr xs) = Inr (xs \<noteq> [])"
  by (auto simp: hasLength_def)

lemma hasLength_falsy: "\<not> truthy v \<Longrightarrow> hasLength v = Inr False"
  by (simp add: hasLength_def)

lemma orElse_string: "stringOrFalsy n \<Longrightarrow> \<exists>s. orElse n (JStr d) = JStr s"
  by (cases n) (auto simp: stringOrFalsy_def orElse_def isString_def)

lemma stringifyLiteral_string: "literalValue v \<Longrightarrow> \<exists>s. stringifyLiteral v = Inr (JStr s)"
  by (cases v) (auto simp: literalValue_def stringifyLiteral_def printable_iff)

lemma render_other:
  assumes "\<And>kvs. v \<noteq> JObj kvs"
  shows "\<exists>s. typeToString v = Inr (JStr s)"
  using assms
  by (cases v; subst typeToString.simps) (auto simp: isString_def orElse_def)

lemma render_intrinsic:
  assumes "lookup kvs ''type'' = JStr ''intrinsic''" and "stringOrFalsy (lookup kvs ''name'')"
  shows "\<exists>s. typeToString (JObj kvs) = Inr (JStr s)"
  using assms(1) orElse_string [OF assms(2), of "''any''"]
  by (subst typeToString.simps) (auto simp: isString_def)

lemma render_unrecognized:
  assumes "lookup kvs ''type'' \<notin> JStr ` set recognizedTags"
    and "stringOrFalsy (lookup kvs ''name'')"
  shows "\<exists>s. typeToString (JObj kvs) = Inr (JStr s)"
  using orElse_string [OF assms(2), of "''unknown''"]
    typeToString_default [of "JObj kvs", OF _ _ _ assms(1)]
  by (auto simp: isString_def)

lemma render_reference:
  assumes "lookup kvs ''type'' = JStr ''reference''" and "stringOrFalsy (lookup kvs ''name'')"
    and "\<not> truthy (lookup kvs ''typeArguments'')
         \<or> (\<exists>args. lookup kvs ''typeArguments'' = JArr args
                \<and> (\<forall>a \<in> set args. \<exists>s. typeToString a = Inr (JStr s)))"
  shows "\<exists>s. typeToString (JObj kvs) = Inr (JStr s)"
proof -
  from orElse_string [OF assms(2), of "''unknown''"] obtain n where
    n: "orElse (lookup kvs ''name'') (JStr ''unknown'') = JStr n" by blast
  from assms(3) show ?thesis
  proof
    assume "\<not> truthy (lookup kvs ''typeArguments'')"
    with assms(1) n show ?thesis
      by (subst typeToString.simps) (simp add: isString_def hasLength_falsy)
  next
    assume "\<exists>args. lookup kvs ''typeArguments'' = JArr args
                \<and> (\<forall>a \<in> set args. \<exists>s. typeToString a = Inr (JStr s))"
    then obtain args where a: "lookup kvs ''typeArguments'' = JArr args"
      and all: "\<forall>a \<in> set args. \<exists>s. typeToString a = Inr (JStr s)" by blast
    from mapE_all_strings [OF all] obtain ss where "mapE typeToString args = Inr (map JStr ss)"
      by blast
    with assms(1) n a show ?thesis
      by (subst typeToString.simps) (simp add: isString_def hasLength_JArr joinE_strings)
  qed
qed

lemma render_array:
  assumes "lookup kvs ''type'' = JStr ''array''"
    and "typeToString (lookup kvs ''elementType'') = Inr (JStr s)"
  shows "typeToString (JObj kvs) = Inr (JStr (s @ ''[]''))"
  using assms by (subst typeToString.simps) (simp add: isString_def)

lemma render_union:
  assumes "lookup kvs ''type'' = JStr ''union''" and "lookup kvs ''types'' = JArr members"
    and "\<forall>m \<in> set members. \<exists>s. typeToString m = Inr (JStr s)"
  shows "\<exists>s. typeToString (JObj kvs) = Inr (JStr s)"
proof -
  from mapE_all_strings [OF assms(3)] obtain ss where
    "mapE typeToString members = Inr (map JStr ss)" by blast
  with assms(1,2) show ?thesis
    by (simp add: typeToString_union joinE_strings)
qed

lemma render_intersection:
  assumes "lookup kvs ''type'' = JStr ''intersection''" and "lookup kvs ''types'' = JArr members"
    and "\<forall>m \<in> set members. \<exists>s. typeToString m = Inr (JStr s)"
  shows "\<exists>s. typeToString (JObj kvs) = Inr (JStr s)"
proof -
  from mapE_all_strings [OF assms(3)] obtain ss where
    "mapE typeToString members = Inr (map JStr ss)" by blast
  with assms(1,2) show ?thesis
    by (simp add: typeToString_intersection joinE_strings)
qed

lemma render_literal:
  assumes "lookup kvs ''type'' = JStr ''literal''" and "literalValue (lookup kvs ''value'')"
  shows "\<exists>s. typeToString (JObj kvs) = Inr (JStr s)"
  using assms(1) stringifyLiteral_string [OF assms(2)]
  by (subst typeToString.simps) (simp add: isString_def)

lemma render_tuple:
  assumes "lookup kvs ''type'' = JStr ''tuple''" and "lookup kvs ''elements'' = JArr elements"
    and "\<forall>m \<in> set elements. \<exists>s. typeToString m = Inr (JStr s)"
  shows "\<exists>s. typeToString (JObj kvs) = Inr (JStr s)"
proof -
  from mapE_all_strings [OF assms(3)] obtain ss where
    "mapE typeToString elements = Inr (map JStr ss)" by blast
  with assms(1,2) show ?thesis
    by (subst typeToString.simps) (simp add: isString_def joinE_strings)
qed

lemma render_namedTupleMember:
  assumes "lookup kvs ''type'' = JStr ''namedTupleMember''"
    and "stringOrFalsy (lookup kvs ''name'')"
    and "typeToString (lookup kvs ''element'') = Inr (JStr s)"
  shows "\<exists>s. typeToString (JObj kvs) = Inr (JStr s)"
proof -
  from orElse_string [OF assms(2), of "''unknown''"] obtain n where
    "orElse (lookup kvs ''name'') (JStr ''unknown'') = JStr n" by blast
  with assms(1,3) show ?thesis
    by (subst typeToString.simps) (simp add: isString_def)
qed

lemma render_reflection_bare:
  assumes "lookup kvs ''type'' = JStr ''reflection''" and "\<not> truthy (lookup kvs ''declaration'')"
  shows "typeToString (JObj kvs) = Inr (JStr ''{...}'')"
  using assms by (subst typeToString.simps) (simp add: isString_def)

lemma render_reflection_empty:
  assumes "lookup kvs ''type'' = JStr ''reflection''" and "lookup kvs ''declaration'' = JObj decl"
    and "\<not> truthy (lookup decl ''children'')" and "\<not> truthy (lookup decl ''signatures'')"
  shows "typeToString (JObj kvs) = Inr (JStr ''{...}'')"
  using assms by (subst typeToString.simps) (simp add: isString_def)

lemma render_reflection_object:
  assumes "lookup kvs ''type'' = JStr ''reflection''" and "lookup kvs ''declaration'' = JObj decl"
    and "lookup decl ''children'' = JArr children"
    and "\<forall>c \<in> set children. \<exists>child. c = JObj child \<and> printable (lookup child ''name'')
               \<and> (\<exists>s. typeToString (lookup child ''type'') = Inr (JStr s))"
  shows "\<exists>s. typeToString (JObj kvs) = Inr (JStr s)"
proof -
  let ?f = "\<lambda>child.
      bindE (get child ''type'') (\<lambda>ct.
      bindE (if truthy ct then typeToString ct else Inr (JStr ''any'')) (\<lambda>propType.
      bindE (get child ''name'') (\<lambda>cn.
      bindE (toStr cn) (\<lambda>n.
      bindE (toStr propType) (\<lambda>p. Inr (JStr (n @ '': '' @ p)))))))"
  have all: "\<forall>c \<in> set children. \<exists>s. ?f c = Inr (JStr s)"
  proof
    fix c assume "c \<in> set children"
    with assms(4) obtain child n s where "c = JObj child" and "toStr (lookup child ''name'') = Inr n"
      and "typeToString (lookup child ''type'') = Inr (JStr s)"
      by (auto simp: printable_iff)
    then show "\<exists>s. ?f c = Inr (JStr s)" by auto
  qed
  from mapE_all_strings [OF all] obtain ss where "mapE ?f children = Inr (map JStr ss)"
    by blast
  with assms(1-3) show ?thesis
    by (subst typeToString.simps) (simp add: isString_def joinE_strings)
qed

lemma render_reflection_function:
  assumes "lookup kvs ''type'' = JStr ''reflection''" and "lookup kvs ''declaration'' = JObj decl"
    and "\<not> truthy (lookup decl ''children'')"
    and "lookup decl ''signatures'' = JArr (JObj sig # others)"
    and "nullish (lookup sig ''parameters'')
          \<or> (\<exists>ps. lookup sig ''parameters'' = JArr ps \<and>
                (\<forall>p \<in> set ps. \<exists>param. p = JObj param \<and> printable (lookup param ''name'')
                    \<and> (\<exists>s. typeToString (lookup param ''type'') = Inr (JStr s))))"
    and "typeToString (lookup sig ''type'') = Inr (JStr r)"
  shows "\<exists>s. typeToString (JObj kvs) = Inr (JStr s)"
proof -
  let ?f = "\<lambda>p.
      bindE (get p ''name'') (\<lambda>pn.
      bindE (toStr pn) (\<lambda>n.
      bindE (get p ''type'') (\<lambda>pt.
      bindE (typeToString pt) (\<lambda>r.
      bindE (toStr r) (\<lambda>t. Inr (JStr (n @ '': '' @ t)))))))"
  let ?params = "if nullish (lookup sig ''parameters'') then Inr []
                 else bindE (arrayMap ?f (lookup sig ''parameters'')) (joinE '', '')"
  have "\<exists>params. ?params = Inr params"
  proof (cases "nullish (lookup sig ''parameters'')")
    case True
    then show ?thesis by simp
  next
    case False
    with assms(5) obtain ps where ps: "lookup sig ''parameters'' = JArr ps"
      and all: "\<forall>p \<in> set ps. \<exists>param. p = JObj param \<and> printable (lookup param ''name'')
                    \<and> (\<exists>s. typeToString (lookup param ''type'') = Inr (JStr s))"
      by blast
    have allp: "\<forall>p \<in> set ps. \<exists>s. ?f p = Inr (JStr s)"
    proof
      fix p assume "p \<in> set ps"
      with all obtain param n s where "p = JObj param" and "toStr (lookup param ''name'') = Inr n"
        and "typeToString (lookup param ''type'') = Inr (JStr s)"
        by (auto simp: printable_iff)
      then show "\<exists>s. ?f p = Inr (JStr s)" by auto
    qed
    from mapE_all_strings [OF allp] obtain ss where "mapE ?f ps = Inr (map JStr ss)"
      by blast
    with False ps show ?thesis by (simp add: joinE_strings)
  qed
  then obtain params where "?params = Inr params" by blast
  with assms(1-4,6) show ?thesis
    by (subst typeToString.simps) (simp add: isString_def)
qed

lemma render_optional:
  assumes "lookup kvs ''type'' = JStr ''optional''"
    and "typeToString (lookup kvs ''elementType'') = Inr (JStr s)"
  shows "typeToString (JObj kvs) = Inr (JStr (s @ '' | undefined''))"
  using assms by (subst typeToString.simps) (simp add: isString_def)

lemma render_rest:
  assumes "lookup kvs ''type'' = JStr ''rest''"
    and "typeToString (lookup kvs ''elementType'') = Inr (JStr s)"
  shows "typeToString (JObj kvs) = Inr (JStr (''...'' @ s))"
  using assms by (subst typeToString.simps) (simp add: isString_def)

lemma render_conditional:
  assumes "lookup kvs ''type'' = JStr ''conditional''"
    and "typeToString (lookup kvs ''checkType'') = Inr (JStr c)"
    and "typeToString (lookup kvs ''extendsType'') = Inr (JStr e)"
    and "typeToString (lookup kvs ''trueType'') = Inr (JStr t)"
    and "typeToString (lookup kvs ''falseType'') = Inr (JStr f)"
  shows "typeToString (JObj kvs)
           = Inr (JStr (c @ '' extends '' @ e @ '' ? '' @ t @ '' : '' @ f))"
  using assms by (subst typeToString.simps) (simp add: isString_def)

lemma render_inferred:
  assumes "lookup kvs ''type'' = JStr ''inferred''" and "printable (lookup kvs ''name'')"
    and "typeToString (lookup kvs ''constraint'') = Inr (JStr c)"
  shows "\<exists>s. typeToString (JObj kvs) = Inr (JStr s)"
proof -
  from assms(2) obtain n where "toStr (lookup kvs ''name'') = Inr n"
    by (auto simp: printable_iff)
  with assms(1,3) show ?thesis
    by (subst typeToString.simps) (simp add: isString_def)
qed

lemma render_indexedAccess:
  assumes "lookup kvs ''type'' = JStr ''indexedAccess''"
    and "typeToString (lookup kvs ''objectType'') = Inr (JStr obj)"
    and "typeToString (lookup kvs ''indexType'') = Inr (JStr idx)"
  shows "typeToString (JObj kvs) = Inr (JStr (obj @ ''['' @ idx @ '']''))"
  using assms by (subst typeToString.simps) (simp add: isString_def)

lemma render_mapped:
  assumes "lookup kvs ''type'' = JStr ''mapped''"
    and "printable (lookup kvs ''readonlyModifier'')"
    and "printable (lookup kvs ''parameter'')"
    and "typeToString (lookup kvs ''parameterType'') = Inr (JStr pt)"
    and "printable (lookup kvs ''optionalModifier'')"
    and "typeToString (lookup kvs ''templateType'') = Inr (JStr tt)"
    and "typeToString (lookup kvs ''nameType'') = Inr (JStr nt)"
  shows "\<exists>s. typeToString (JObj kvs) = Inr (JStr s)"
proof -
  from assms(2,3,5) obtain rm p om where "toStr (lookup kvs ''readonlyModifier'') = Inr rm"
    and "toStr (lookup kvs ''parameter'') = Inr p"
    and "toStr (lookup kvs ''optionalModifier'') = Inr om"
    by (auto simp: printable_iff)
  with assms(1,4,6,7) show ?thesis
    by (subst typeToString.simps) (simp add: isString_def)
qed

lemma render_typeOperator:
  assumes "lookup kvs ''type'' = JStr ''typeOperator''" and "printable (lookup kvs ''operator'')"
    and "typeToString (lookup kvs ''target'') = Inr (JStr t)"
  shows "\<exists>s. typeToString (JObj kvs) = Inr (JStr s)"
proof -
  from assms(2) obtain op where "toStr (lookup kvs ''operator'') = Inr op"
    by (auto simp: printable_iff)
  with assms(1,3) show ?thesis
    by (subst typeToString.simps) (simp add: isString_def)
qed

lemma render_query:
  assumes "lookup kvs ''type'' = JStr ''query''"
    and "typeToString (lookup kvs ''queryType'') = Inr (JStr s)"
  shows "typeToString (JObj kvs) = Inr (JStr (''typeof '' @ s))"
  using assms by (subst typeToString.simps) (simp add: isString_def)

lemma foldE_all_ok:
  "(\<forall>x \<in> set xs. \<forall>acc. \<exists>acc'. f acc x = Inr acc') \<Longrightarrow> \<exists>r. foldE f a xs = Inr r"
proof (induction xs arbitrary: a)
  case Nil
  then show ?case by simp
next
  case (Cons x xs)
  from Cons.prems have "\<exists>a'. f a x = Inr a'" by simp
  then obtain a' where a': "f a x = Inr a'" by blast
  from Cons.prems have "\<forall>x \<in> set xs. \<forall>acc. \<exists>acc'. f acc x = Inr acc'" by simp
  from Cons.IH [OF this, of a'] obtain r where "foldE f a' xs = Inr r" by blast
  with a' show ?case by simp
qed

lemma render_templateLiteral:
  assumes "lookup kvs ''type'' = JStr ''templateLiteral''" and "printable (lookup kvs ''head'')"
    and "lookup kvs ''tail'' = JArr pairs"
    and "\<forall>pair \<in> set pairs. \<exists>parts. pair = JArr parts
           \<and> (\<exists>s. typeToString (nthOr parts 0) = Inr (JStr s)) \<and> printable (nthOr parts 1)"
  shows "\<exists>s. typeToString (JObj kvs) = Inr (JStr s)"
proof -
  let ?f = "\<lambda>result pair.
                 bindE (iter pair) (\<lambda>parts.
                 bindE (typeToString (nthOr parts 0)) (\<lambda>r.
                 bindE (toStr r) (\<lambda>s.
                 bindE (toStr (nthOr parts 1)) (\<lambda>tailStr.
                   Inr (result @ ''${'' @ s @ ''}'' @ tailStr)))))"
  from assms(2) obtain h where h: "toStr (lookup kvs ''head'') = Inr h"
    by (auto simp: printable_iff)
  have all: "\<forall>pair \<in> set pairs. \<forall>acc. \<exists>acc'. ?f acc pair = Inr acc'"
  proof (intro ballI allI)
    fix pair acc assume "pair \<in> set pairs"
    with assms(4) obtain parts s t where "pair = JArr parts"
      and "typeToString (nthOr parts 0) = Inr (JStr s)" and "toStr (nthOr parts 1) = Inr t"
      by (auto simp: printable_iff)
    then show "\<exists>acc'. ?f acc pair = Inr acc'" by simp
  qed
  from foldE_all_ok [OF all] obtain r where "foldE ?f (''`'' @ h) pairs = Inr r" by blast
  with assms(1,3) h show ?thesis
    by (subst typeToString.simps) (simp add: isString_def)
qed

lemma render_predicate:
  assumes "lookup kvs ''type'' = JStr ''predicate''"
    and "if truthy (lookup kvs ''asserts'') \<or> truthy (lookup kvs ''targetType'')
         then printable (lookup kvs ''name'') else isString (lookup kvs ''name'')"
    and "typeToString (lookup kvs ''targetType'') = Inr (JStr t)"
  shows "\<exists>s. typeToString (JObj kvs) = Inr (JStr s)"
proof (cases "truthy (lookup kvs ''asserts'') \<or> truthy (lookup kvs ''targetType'')")
  case True
  with assms(2) obtain n where "toStr (lookup kvs ''name'') = Inr n"
    by (auto simp: printable_iff)
  with assms(1,3) True show ?thesis
    by (subst typeToString.simps) (auto simp: isString_def)
next
  case False
  with assms(2) obtain n where "lookup kvs ''name'' = JStr n"
    by (cases "lookup kvs ''name''") (auto simp: isString_def)
  with assms(1) False show ?thesis
    by (subst typeToString.simps) (simp add: isString_def)
qed

lemma typeToString_wellformed: "wfType v \<Longrightarrow> \<exists>s. typeToString v = Inr (JStr s)"
proof (induction rule: wfType.induct)
  case (wf_other v)
  then show ?case by (rule render_other)
next
  case (wf_intrinsic kvs)
  then show ?case by (rule render_intrinsic)
next
  case (wf_reference kvs)
  then show ?case by (intro render_reference) auto
next
  case (wf_array kvs)
  then show ?case using render_array by blast
next
  case (wf_union kvs members)
  then show ?case by (intro render_union) auto
next
  case (wf_intersection kvs members)
  then show ?case by (intro render_intersection) auto
next
  case (wf_literal kvs)
  then show ?case by (rule render_literal)
next
  case (wf_tuple kvs elements)
  then show ?case by (intro render_tuple) auto
next
  case (wf_namedTupleMember kvs)
  then show ?case using render_namedTupleMember by blast
next
  case (wf_reflection_bare kvs)
  then show ?case using render_reflection_bare by blast
next
  case (wf_reflection_object kvs decl children)
  then show ?case by (intro render_reflection_object) auto
next
  case (wf_reflection_function kvs decl sig others)
  then obtain r where r: "typeToString (lookup sig ''type'') = Inr (JStr r)" by blast
  from wf_reflection_function
  have "nullish (lookup sig ''parameters'')
          \<or> (\<exists>ps. lookup sig ''parameters'' = JArr ps \<and>
                (\<forall>p \<in> set ps. \<exists>param. p = JObj param \<and> printable (lookup param ''name'')
                    \<and> (\<exists>s. typeToString (lookup param ''type'') = Inr (JStr s))))"
    by blast
  with wf_reflection_function r show ?case
    by (intro render_reflection_function [where r = r and sig = sig and others = others]) auto
next
  case (wf_reflection_empty kvs decl)
  then show ?case using render_reflection_empty by blast
next
  case (wf_optional kvs)
  then show ?case using render_optional by blast
next
  case (wf_rest kvs)
  then show ?case using render_rest by blast
next
  case (wf_conditional kvs)
  then show ?case using render_conditional by blast
next
  case (wf_inferred kvs)
  then show ?case using render_inferred by blast
next
  case (wf_indexedAccess kvs)
  then show ?case using render_indexedAccess by blast
next
  case (wf_mapped kvs)
  then show ?case using render_mapped by blast
next
  case (wf_typeOperator kvs)
  then show ?case using render_typeOperator by blast
next
  case (wf_query kvs)
  then show ?case using render_query by blast
next
  case (wf_templateLiteral kvs pairs)
  then show ?case by (intro render_templateLiteral) auto
next
  case (wf_predicate kvs)
  then show ?case using render_predicate by blast
next
  case (wf_unrecognized kvs)
  then show ?case by (rule render_unrecognized)
qed

lemma render_nameless:
  assumes "\<not> truthy (lookup kvs ''name'')"
  shows "lookup kvs ''type'' = JStr ''intrinsic'' \<Longrightarrow> typeToString (JObj kvs) = Inr (JStr ''any'')"
    and "lookup kvs ''type'' = JStr ''reference'' \<Longrightarrow> \<not> truthy (lookup kvs ''typeArguments'')
           \<Longrightarrow> typeToString (JObj kvs) = Inr (JStr ''unknown'')"
    and "lookup kvs ''type'' \<notin> JStr ` set recognizedTags
           \<Longrightarrow> typeToString (JObj kvs) = Inr (JStr ''unknown'')"
proof -
  show "lookup kvs ''type'' = JStr ''intrinsic'' \<Longrightarrow> typeToString (JObj kvs) = Inr (JStr ''any'')"
    using assms by (subst typeToString.simps) (simp add: isString_def orElse_def)
  show "lookup kvs ''type'' = JStr ''reference'' \<Longrightarrow> \<not> truthy (lookup kvs ''typeArguments'')
           \<Longrightarrow> typeToString (JObj kvs) = Inr (JStr ''unknown'')"
    using assms by (subst typeToString.simps) (simp add: isString_def orElse_def hasLength_falsy)
  show "lookup kvs ''type'' \<notin> JStr ` set recognizedTags
           \<Longrightarrow> typeToString (JObj kvs) = Inr (JStr ''unknown'')"
    using assms typeToString_default [of "JObj kvs"] by (simp add: isString_def orElse_def)
qed

text \<open>
  C1, as amended. \<^verbatim>\<open>typeToString\<close> returns a string, and does not throw, for
  every well-formed type expression (first conjunct): for every value that is
  not an object, and for every node in which
  \<^item> a union or intersection carries its member list, a tuple its element list,
    a template literal its tail, a list of pairs of a type and a text;
  \<^item> the type arguments of a reference, where present, are a list;
  \<^item> the declaration of a reflection, where present, is an object; its children,
    where present, are a list of objects; without children its signatures, where
    present, are a list that starts with an object, whose parameters, where
    present, are a list of objects;
  \<^item> a name that the renderer returns as it is, is a string or absent (intrinsic,
    reference, named tuple member, unrecognized tag), and a string for a
    predicate with neither \<^verbatim>\<open>asserts\<close> nor target type;
  \<^item> every other field that is spliced into the text can be printed;
  \<^item> every inner type is again well-formed, or absent.

  The fallback strings (the other conjuncts): an absent input or inner type
  renders as \<^verbatim>\<open>"any"\<close>; without a name, an intrinsic node renders as
  \<^verbatim>\<open>"any"\<close>, a node with an unrecognized tag and a reference without type
  arguments as \<^verbatim>\<open>"unknown"\<close>; a reflection without declaration renders as
  \<^verbatim>\<open>"{...}"\<close>.
\<close>

theorem typeToString_total_on_wellformed:
  "(wfType v \<longrightarrow> (\<exists>s. typeToString v = Inr (JStr s))) \<and>
   (\<not> truthy v \<longrightarrow> typeToString v = Inr (JStr ''any'')) \<and>
   (\<not> truthy (lookup kvs ''name'') \<longrightarrow>
      (lookup kvs ''type'' = JStr ''intrinsic'' \<longrightarrow>
         typeToString (JObj kvs) = Inr (JStr ''any'')) \<and>
      (lookup kvs ''type'' = JStr ''reference'' \<and> \<not> truthy (lookup kvs ''typeArguments'') \<longrightarrow>
         typeToString (JObj kvs) = Inr (JStr ''unknown'')) \<and>
      (lookup kvs ''type'' \<notin> JStr ` set recognizedTags \<longrightarrow>
         typeToString (JObj kvs) = Inr (JStr ''unknown''))) \<and>
   (lookup kvs ''type'' = JStr ''reflection'' \<and> \<not> truthy (lookup kvs ''declaration'') \<longrightarrow>
      typeToString (JObj kvs) = Inr (JStr ''{...}''))"
  using typeToString_wellformed [of v] typeToString_falsy [of v] render_nameless [of kvs]
    render_reflection_bare [of kvs]
  by blast

text \<open>
  C1 as stated fails: a union without its member list, a tuple without its
  elements and a template literal without its tail do not degrade to a fallback
  string. \<^verbatim>\<open>type.types.map\<close>, \<^verbatim>\<open>type.elements.map\<close> and the loop over
  \<^verbatim>\<open>type.tail\<close> are applied to \<^verbatim>\<open>undefined\<close> and throw a \<^verbatim>\<open>TypeError\<close>. A
  predicate node without name, \<^verbatim>\<open>asserts\<close> and target type does not throw, but
  the result is its absent name, \<^verbatim>\<open>undefined\<close>, which is not a string.
\<close>

theorem typeToString_missing_list_throws:
  "typeToString (JObj [(''type'', JStr ''union'')]) = Inl TypeError \<and>
   typeToString (JObj [(''type'', JStr ''tuple'')]) = Inl TypeError \<and>
   typeToString (JObj [(''type'', JStr ''templateLiteral''), (''head'', JStr ''id-'')])
     = Inl TypeError \<and>
   typeToString (JObj [(''type'', JStr ''predicate'')]) = Inr JUndefined"
  by code_simp

text \<open>An array of a union whose members are a plain string, an intrinsic type, a
  node with an unrecognized tag and no name, and an array without element
  type; and the nodes without name or declaration.\<close>

theorem typeToString_total_on_wellformed_witness:
  "wfType (JObj [(''type'', JStr ''array''),
      (''elementType'', JObj [(''type'', JStr ''union''),
          (''types'', JArr [JStr ''string'',
                            JObj [(''type'', JStr ''intrinsic''), (''name'', JStr ''number'')],
                            JObj [(''type'', JStr ''mystery'')],
                            JObj [(''type'', JStr ''array'')]])])]) \<and>
   typeToString (JObj [(''type'', JStr ''array''),
      (''elementType'', JObj [(''type'', JStr ''union''),
          (''types'', JArr [JStr ''string'',
                            JObj [(''type'', JStr ''intrinsic''), (''name'', JStr ''number'')],
                            JObj [(''type'', JStr ''mystery'')],
                            JObj [(''type'', JStr ''array'')]])])])
     = Inr (JStr ''string | number | unknown | any[][]'') \<and>
   typeToString JUndefined = Inr (JStr ''any'') \<and>
   typeToString (JObj [(''type'', JStr ''intrinsic'')]) = Inr (JStr ''any'') \<and>
   typeToString (JObj [(''type'', JStr ''reference'')]) = Inr (JStr ''unknown'') \<and>
   typeToString (JObj [(''type'', JStr ''mystery'')]) = Inr (JStr ''unknown'') \<and>
   typeToString (JObj [(''type'', JStr ''reflection'')]) = Inr (JStr ''{...}'')"
proof -
  let ?num = "JObj [(''type'', JStr ''intrinsic''), (''name'', JStr ''number'')]"
  let ?mystery = "JObj [(''type'', JStr ''mystery'')]"
  let ?bare = "JObj [(''type'', JStr ''array'')]"
  let ?members = "[JStr ''string'', ?num, ?mystery, ?bare]"
  let ?union = "JObj [(''type'', JStr ''union''), (''types'', JArr ?members)]"
  let ?v = "JObj [(''type'', JStr ''array''), (''elementType'', ?union)]"
  have s: "wfType (JStr ''string'')" by (rule wf_other) simp
  have n: "wfType ?num"
    by (rule wf_intrinsic) (simp_all add: lookup_def stringOrFalsy_def isString_def)
  have m: "wfType ?mystery"
    by (rule wf_unrecognized) (simp_all add: lookup_def stringOrFalsy_def recognizedTags_def)
  have u: "wfType JUndefined" by (rule wf_other) simp
  have b: "wfType ?bare"
    by (rule wf_array) (simp_all add: lookup_def u)
  have "wfType ?union"
    by (rule wf_union [where members = ?members]) (simp_all add: lookup_def s n m b)
  then have wf: "wfType ?v"
    by (intro wf_array) (simp_all add: lookup_def)
  from typeToString_total_on_wellformed [of ?v, THEN conjunct1] wf obtain r where
    r: "typeToString ?v = Inr (JStr r)" by blast
  have "typeToString ?v = Inr (JStr ''string | number | unknown | any[][]'')" by code_simp
  with r have 1: "r = ''string | number | unknown | any[][]''" by simp
  have 2: "typeToString JUndefined = Inr (JStr ''any'')"
    using typeToString_total_on_wellformed [of JUndefined, THEN conjunct2, THEN conjunct1]
    by simp
  have 3: "typeToString (JObj [(''type'', JStr ''intrinsic'')]) = Inr (JStr ''any'')"
    using typeToString_total_on_wellformed [of _ "[(''type'', JStr ''intrinsic'')]"]
    by (simp add: lookup_def)
  have 4: "typeToString (JObj [(''type'', JStr ''reference'')]) = Inr (JStr ''unknown'')"
    using typeToString_total_on_wellformed [of _ "[(''type'', JStr ''reference'')]"]
    by (simp add: lookup_def)
  have 5: "typeToString (JObj [(''type'', JStr ''mystery'')]) = Inr (JStr ''unknown'')"
    using typeToString_total_on_wellformed [of _ "[(''type'', JStr ''mystery'')]"]
    by (simp add: lookup_def recognizedTags_def)
  have 6: "typeToString (JObj [(''type'', JStr ''reflection'')]) = Inr (JStr ''{...}'')"
    using typeToString_total_on_wellformed [of _ "[(''type'', JStr ''reflection'')]"]
    by (simp add: lookup_def)
  from wf r 1 2 3 4 5 6 show ?thesis by simp
qed

end
